(* ===== verification/Prelude.thy ===== *)
theory Prelude
  imports
    Complex_Main
    "HOL-Library.AList"
    "HOL-Library.Multiset"
    "HOL-Library.State_Monad"
    "HOL-Library.Word"
begin

text \<open>
  What the component theories share: Go's time and duration values, fixed-width integer
  conversions, Go maps as association lists with the iteration order of \<open>range\<close> left to an
  ordering function, JSON values, the \<open>error\<close> values the program returns, and the state monad
  in which handlers are written, with the rules that carry a predicate or a relation through a
  handler.
\<close>

named_theorems gomap \<open>rewriting of Go map operations to finite-map updates\<close>
named_theorems keeps_rules \<open>handlers and handler combinators that keep a state predicate\<close>
named_theorems wp_simps \<open>weakest preconditions of the handler combinators\<close>
named_theorems steps_rules \<open>handlers and handler combinators whose effect lies in a relation\<close>


section \<open>Time, durations and machine integers\<close>

text \<open>
  \<open>time.Time\<close> is the number of nanoseconds since Go's zero instant (so \<open>IsZero\<close> is \<open>t = 0\<close>);
  every time the program keeps has gone through \<open>UTC()\<close>, which drops location and monotonic
  reading. \<open>time.Duration\<close> is an \<open>int64\<close> count of nanoseconds: where the program multiplies one,
  the wrap-around is written out with \<open>wrap64\<close>.
\<close>

type_synonym time = int
type_synonym duration = int

definition Millisecond :: duration where "Millisecond = 1000000"
definition Second :: duration where "Second = 1000000000"
definition Minute :: duration where "Minute = 60 * Second"

definition wrap64 :: "int \<Rightarrow> int" where
  "wrap64 x = signed_take_bit 63 x"

definition wrap32 :: "int \<Rightarrow> int" where
  "wrap32 x = signed_take_bit 31 x"

text \<open>Integer division of Go (truncating towards zero), as \<open>Duration.Milliseconds\<close> uses it.\<close>

definition quot_go :: "int \<Rightarrow> int \<Rightarrow> int" where
  "quot_go a b = sgn a * sgn b * (\<bar>a\<bar> div \<bar>b\<bar>)"

definition Milliseconds :: "duration \<Rightarrow> int" where
  "Milliseconds d = quot_go d Millisecond"


section \<open>Errors and JSON values\<close>

datatype Error =
    ErrNotFound | ErrConflict | ErrNoWorker
  | ErrCanceled | ErrDeadlineExceeded
  | ErrMsg string
  | Panic string

type_synonym 'a res = "Error + 'a"

text \<open>
  A \<open>json.RawMessage\<close> holds one JSON document; the model keeps the document's value, and
  \<open>None\<close> is Go's nil slice. \<open>JInt\<close> is a number literal without fraction and exponent, \<open>JTime\<close> the
  RFC 3339 string of an instant, \<open>JBase64\<close> the base64 string of the bytes of a document.
\<close>

datatype json =
    JNull | JBool bool | JInt int | JFloat rat | JStr string
  | JTime time | JBase64 json | JArr "json list" | JObj "(string \<times> json) list"

type_synonym rawmsg = "json option"


text \<open>The text of an integer (\<open>%d\<close>) and Go's quoted form of a string (\<open>%q\<close>, ASCII part).\<close>

fun dec_digits :: "nat \<Rightarrow> string" where
  "dec_digits n =
     (if n < 10 then [char_of (48 + n)] else dec_digits (n div 10) @ [char_of (48 + n mod 10)])"

declare dec_digits.simps [simp del]

definition show_int :: "int \<Rightarrow> string" where
  "show_int i = (if i < 0 then CHR ''-'' # dec_digits (nat (- i)) else dec_digits (nat i))"

definition hex_digit :: "nat \<Rightarrow> char" where
  "hex_digit n = (if n < 10 then char_of (48 + n) else char_of (87 + n))"

definition quote_char :: "char \<Rightarrow> string" where
  "quote_char c =
     (let n = (of_char c :: nat); bs = char_of (92 :: nat) in
      if n = 34 \<or> n = 92 then [bs, c]
      else if n = 7 then [bs, CHR ''a'']
      else if n = 8 then [bs, CHR ''b'']
      else if n = 12 then [bs, CHR ''f'']
      else if n = 10 then [bs, CHR ''n'']
      else if n = 13 then [bs, CHR ''r'']
      else if n = 9 then [bs, CHR ''t'']
      else if n = 11 then [bs, CHR ''v'']
      else if n < 32 \<or> n = 127 then [bs, CHR ''x'', hex_digit (n div 16), hex_digit (n mod 16)]
      else [c])"

definition quote_go :: "string \<Rightarrow> string" where
  "quote_go s = (char_of (34 :: nat)) # concat (map quote_char s) @ [char_of (34 :: nat)]"


section \<open>Go maps\<close>

text \<open>
  A Go map is an association list with distinct keys. \<open>range\<close> visits every key once in an
  unspecified order: the ordering function is an argument, and \<open>order_ok\<close> says what Go promises
  of it.
\<close>

type_synonym ('k, 'v) gomap = "('k \<times> 'v) list"
type_synonym order = "string list \<Rightarrow> string list"

definition gomap_wf :: "('k, 'v) gomap \<Rightarrow> bool" where
  "gomap_wf m \<longleftrightarrow> distinct (map fst m)"

definition gput :: "'k \<Rightarrow> 'v \<Rightarrow> ('k, 'v) gomap \<Rightarrow> ('k, 'v) gomap" where
  "gput k v m = AList.update k v m"

definition gdel :: "'k \<Rightarrow> ('k, 'v) gomap \<Rightarrow> ('k, 'v) gomap" where
  "gdel k m = AList.delete k m"

definition order_ok :: "order \<Rightarrow> bool" where
  "order_ok f \<longleftrightarrow> (\<forall>ks. mset (f ks) = mset ks)"

fun visit :: "('k, 'v) gomap \<Rightarrow> 'k list \<Rightarrow> ('k \<times> 'v) list" where
  "visit m [] = []"
| "visit m (k # ks) = (case map_of m k of None \<Rightarrow> visit m ks | Some v \<Rightarrow> (k, v) # visit m ks)"

definition range_map :: "order \<Rightarrow> (string, 'v) gomap \<Rightarrow> (string \<times> 'v) list" where
  "range_map f m = visit m (f (map fst m))"


section \<open>Handlers: the state monad\<close>

abbreviation ret :: "'a \<Rightarrow> ('s, 'a) state" where
  "ret \<equiv> State_Monad.return"

abbreviation getS :: "('s, 's) state" where
  "getS \<equiv> State_Monad.get"

abbreviation modifyS :: "('s \<Rightarrow> 's) \<Rightarrow> ('s, unit) state" where
  "modifyS \<equiv> State_Monad.update"

definition whenS :: "bool \<Rightarrow> ('s, unit) state \<Rightarrow> ('s, unit) state" where
  "whenS b m = (if b then m else ret ())"

primrec for_each :: "('a \<Rightarrow> ('s, unit) state) \<Rightarrow> 'a list \<Rightarrow> ('s, unit) state" where
  "for_each f [] = ret ()"
| "for_each f (x # xs) = do { _ \<leftarrow> f x; for_each f xs }"

abbreviation exec :: "('s, 'a) state \<Rightarrow> 's \<Rightarrow> 's" where
  "exec m s \<equiv> snd (run_state m s)"

abbreviation outcome :: "('s, 'a) state \<Rightarrow> 's \<Rightarrow> 'a" where
  "outcome m s \<equiv> fst (run_state m s)"

text \<open>
  \<open>wp m Q s\<close>: running \<open>m\<close> from \<open>s\<close> ends in a value and a state that satisfy \<open>Q\<close>. Handlers are total
  functions, so this is a statement about what they do, not only about what they do if they end.
\<close>

definition wp :: "('s, 'a) state \<Rightarrow> ('a \<Rightarrow> 's \<Rightarrow> bool) \<Rightarrow> 's \<Rightarrow> bool" where
  "wp m Q s \<longleftrightarrow> Q (outcome m s) (exec m s)"

definition keeps :: "('s \<Rightarrow> bool) \<Rightarrow> ('s, 'a) state \<Rightarrow> bool" where
  "keeps I m \<longleftrightarrow> (\<forall>s. I s \<longrightarrow> I (exec m s))"


section \<open>Lemmas: integers and maps\<close>

lemma wrap64_id [simp]: "- (2 ^ 63) \<le> x \<Longrightarrow> x < 2 ^ 63 \<Longrightarrow> wrap64 x = x"
  by (simp add: wrap64_def signed_take_bit_int_eq_self)

lemma wrap32_id [simp]: "- (2 ^ 31) \<le> x \<Longrightarrow> x < 2 ^ 31 \<Longrightarrow> wrap32 x = x"
  by (simp add: wrap32_def signed_take_bit_int_eq_self)

lemma wrap64_range: "- (2 ^ 63) \<le> wrap64 x \<and> wrap64 x < 2 ^ 63"
  using signed_take_bit_int_greater_eq_minus_exp [of 63 x] signed_take_bit_int_less_exp [of 63 x]
  by (simp add: wrap64_def)

lemma Milliseconds_of_ms [simp]: "Milliseconds (n * Millisecond) = n"
proof -
  have "\<bar>n * Millisecond\<bar> div \<bar>Millisecond\<bar> = \<bar>n\<bar>" by (simp add: Millisecond_def abs_mult)
  moreover have "sgn (n * Millisecond) * sgn Millisecond = sgn n"
    by (simp add: Millisecond_def sgn_mult)
  ultimately show ?thesis by (simp only: Milliseconds_def quot_go_def sgn_mult_abs)
qed

lemma Milliseconds_nonneg: "0 \<le> d \<Longrightarrow> 0 \<le> Milliseconds d"
  by (simp add: Milliseconds_def quot_go_def Millisecond_def sgn_if)

lemma map_of_gput [gomap, simp]: "map_of (gput k v m) = (map_of m)(k \<mapsto> v)"
  by (simp add: gput_def update_conv')

lemma map_of_gdel [gomap, simp]: "map_of (gdel k m) = (map_of m)(k := None)"
  by (simp add: gdel_def delete_conv')

lemma gomap_wf_Nil [simp]: "gomap_wf []"
  by (simp add: gomap_wf_def)

lemma gomap_wf_gput [simp, intro]: "gomap_wf m \<Longrightarrow> gomap_wf (gput k v m)"
  by (simp add: gomap_wf_def gput_def distinct_update)

lemma gomap_wf_gdel [simp, intro]: "gomap_wf m \<Longrightarrow> gomap_wf (gdel k m)"
  by (simp add: gomap_wf_def gdel_def distinct_delete)

lemma gdel_Nil_iff: "gdel k m = [] \<longleftrightarrow> fst ` set m \<subseteq> {k}"
  by (auto simp: gdel_def AList.delete_eq filter_empty_conv)

lemma order_okD: "order_ok f \<Longrightarrow> mset (f ks) = mset ks"
  by (simp add: order_ok_def)

lemma order_ok_set: "order_ok f \<Longrightarrow> set (f ks) = set ks"
  by (metis order_okD set_mset_mset)

lemma order_ok_distinct: "order_ok f \<Longrightarrow> distinct (f ks) = distinct ks"
  by (metis order_okD mset_eq_imp_distinct_iff)

lemma order_ok_id [simp]: "order_ok (\<lambda>ks. ks)"
  by (simp add: order_ok_def)

lemma set_visit: "set (visit m ks) = {(k, v). k \<in> set ks \<and> map_of m k = Some v}"
  by (induction ks) (auto split: option.splits)

lemma visit_keys: "set ks \<subseteq> dom (map_of m) \<Longrightarrow> map fst (visit m ks) = ks"
  by (induction ks) (auto split: option.splits)

lemma set_range_map:
  "order_ok f \<Longrightarrow> set (range_map f m) = {(k, v). map_of m k = Some v}"
  by (force simp: range_map_def set_visit order_ok_set dest: map_of_SomeD)

lemma keys_range_map: "order_ok f \<Longrightarrow> map fst (range_map f m) = f (map fst m)"
  unfolding range_map_def
  by (rule visit_keys) (simp add: order_ok_set dom_map_of_conv_image_fst)

lemma distinct_range_map:
  "order_ok f \<Longrightarrow> gomap_wf m \<Longrightarrow> distinct (map fst (range_map f m))"
  by (simp add: keys_range_map order_ok_distinct gomap_wf_def)

lemma length_range_map: "order_ok f \<Longrightarrow> length (range_map f m) = length m"
  by (metis keys_range_map length_map order_okD size_mset)

lemma map_of_range_map:
  assumes "order_ok f" "gomap_wf m"
  shows "map_of (range_map f m) = map_of m"
proof
  fix k
  have d: "distinct (map fst (range_map f m))" by (rule distinct_range_map [OF assms])
  show "map_of (range_map f m) k = map_of m k"
  proof (cases "map_of m k")
    case None
    then have "k \<notin> fst ` set (range_map f m)" using assms(1) by (auto simp: set_range_map)
    then have "map_of (range_map f m) k = None" by (simp only: map_of_eq_None_iff not_False_eq_True)
    with None show ?thesis by simp
  next
    case (Some v)
    then have "(k, v) \<in> set (range_map f m)" using assms(1) by (simp add: set_range_map)
    with d Some show ?thesis by simp
  qed
qed

lemma image_mset_partition [simp]:
  "image_mset f {#x \<in># M. \<not> P x#} + image_mset f {#x \<in># M. P x#} = image_mset f M"
  by (metis add.commute image_mset_union multiset_partition)


section \<open>Lemmas: handlers\<close>

lemma run_state_modifyS [simp]: "run_state (modifyS f) s = ((), f s)"
  by (simp add: State_Monad.update_def)

lemma keeps_bind [keeps_rules]:
  "keeps I m \<Longrightarrow> (\<And>a. keeps I (f a)) \<Longrightarrow> keeps I (m \<bind> f)"
  by (auto simp: keeps_def split: prod.splits)

lemma keeps_ret [keeps_rules]: "keeps I (ret a)"
  by (simp add: keeps_def)

lemma keeps_getS [keeps_rules]: "keeps I getS"
  by (simp add: keeps_def)

lemma keeps_modifyS: "(\<And>s. I s \<Longrightarrow> I (f s)) \<Longrightarrow> keeps I (modifyS f)"
  by (simp add: keeps_def)

lemma keeps_if [keeps_rules]:
  "(b \<Longrightarrow> keeps I m) \<Longrightarrow> (\<not> b \<Longrightarrow> keeps I n) \<Longrightarrow> keeps I (if b then m else n)"
  by simp

lemma keeps_whenS [keeps_rules]: "(b \<Longrightarrow> keeps I m) \<Longrightarrow> keeps I (whenS b m)"
  by (simp add: whenS_def keeps_ret)

lemma keeps_case_option [keeps_rules]:
  "(x = None \<Longrightarrow> keeps I m) \<Longrightarrow> (\<And>y. x = Some y \<Longrightarrow> keeps I (f y)) \<Longrightarrow>
   keeps I (case x of None \<Rightarrow> m | Some y \<Rightarrow> f y)"
  by (cases x) auto

lemma keeps_case_sum [keeps_rules]:
  "(\<And>e. x = Inl e \<Longrightarrow> keeps I (f e)) \<Longrightarrow> (\<And>y. x = Inr y \<Longrightarrow> keeps I (g y)) \<Longrightarrow>
   keeps I (case x of Inl e \<Rightarrow> f e | Inr y \<Rightarrow> g y)"
  by (cases x) auto

lemma keeps_case_prod [keeps_rules]:
  "(\<And>a b. x = (a, b) \<Longrightarrow> keeps I (f a b)) \<Longrightarrow> keeps I (case x of (a, b) \<Rightarrow> f a b)"
  by (cases x) auto

lemma keeps_for_each [keeps_rules]:
  "(\<And>x. x \<in> set xs \<Longrightarrow> keeps I (f x)) \<Longrightarrow> keeps I (for_each f xs)"
  by (induction xs) (simp_all add: keeps_ret keeps_bind)

lemma keepsD: "keeps I m \<Longrightarrow> I s \<Longrightarrow> I (exec m s)"
  by (simp add: keeps_def)

lemma wp_bind [wp_simps]: "wp (m \<bind> f) Q = wp m (\<lambda>a. wp (f a) Q)"
  by (simp add: wp_def fun_eq_iff split: prod.splits)

lemma wp_ret [wp_simps]: "wp (ret a) Q = Q a"
  by (simp add: wp_def fun_eq_iff)

lemma wp_getS [wp_simps]: "wp getS Q = (\<lambda>s. Q s s)"
  by (simp add: wp_def fun_eq_iff)

lemma wp_modifyS [wp_simps]: "wp (modifyS f) Q = (\<lambda>s. Q () (f s))"
  by (simp add: wp_def fun_eq_iff)

lemma wp_whenS [wp_simps]: "wp (whenS b m) Q s = (if b then wp m Q s else Q () s)"
  by (simp add: whenS_def wp_ret)

lemma wp_if [wp_simps]: "wp (if b then m else n) Q s = (if b then wp m Q s else wp n Q s)"
  by simp

lemma wp_mono: "wp m Q s \<Longrightarrow> (\<And>a t. Q a t \<Longrightarrow> Q' a t) \<Longrightarrow> wp m Q' s"
  by (simp add: wp_def)

lemma wp_conj: "wp m Q s \<Longrightarrow> wp m R s \<Longrightarrow> wp m (\<lambda>a t. Q a t \<and> R a t) s"
  by (simp add: wp_def)

lemma wp_execD: "wp m Q s \<Longrightarrow> Q (outcome m s) (exec m s)"
  by (simp add: wp_def)

lemma wp_runD: "wp m Q s \<Longrightarrow> run_state m s = (a, t) \<Longrightarrow> Q a t"
  by (simp add: wp_def)

lemma wp_keeps: "keeps I m \<Longrightarrow> I s \<Longrightarrow> wp m (\<lambda>_. I) s"
  by (simp add: wp_def keeps_def)

text \<open>A loop is verified with an invariant that sees the elements already visited.\<close>

lemma wp_for_each_aux:
  assumes "\<And>xs x ys s. zs = xs @ x # ys \<Longrightarrow> I xs s \<Longrightarrow> wp (f x) (\<lambda>_. I (xs @ [x])) s"
    and "zs = us @ vs" and "I us s"
  shows "wp (for_each f vs) (\<lambda>_. I zs) s"
  using assms(2,3)
proof (induction vs arbitrary: us s)
  case Nil
  then show ?case by (simp add: wp_ret)
next
  case (Cons v vs)
  from Cons.prems have "wp (f v) (\<lambda>_. I (us @ [v])) s" by (intro assms(1)) simp_all
  then have "wp (f v) (\<lambda>_. wp (for_each f vs) (\<lambda>_. I zs)) s"
    by (rule wp_mono) (rule Cons.IH, simp_all add: Cons.prems)
  then show ?case by (simp add: wp_bind)
qed

lemma wp_for_each:
  assumes "I [] s"
    and "\<And>xs x ys s. zs = xs @ x # ys \<Longrightarrow> I xs s \<Longrightarrow> wp (f x) (\<lambda>_. I (xs @ [x])) s"
    and "\<And>s. I zs s \<Longrightarrow> Q () s"
  shows "wp (for_each f zs) Q s"
proof (rule wp_mono)
  show "wp (for_each f zs) (\<lambda>_. I zs) s"
    by (rule wp_for_each_aux [where us = "[]" and I = I and zs = zs])
      (simp_all add: assms(1,2))
qed (simp add: assms(3))

text \<open>The same for a reflexive and transitive relation between the states before and after.\<close>

lemma steps_bind:
  assumes "transp R" "state_io_rel R m" "\<And>a. state_io_rel R (f a)"
  shows "state_io_rel R (m \<bind> f)"
proof -
  have "R s (exec (m \<bind> f) s)" for s
  proof -
    obtain a t where m: "run_state m s = (a, t)" by (cases "run_state m s")
    then have "R s t" using assms(2) by blast
    moreover have "R t (exec (f a) t)" using assms(3) by (simp add: state_io_rel_def)
    ultimately have "R s (exec (f a) t)" using assms(1) by (blast dest: transpD)
    then show ?thesis using m by simp
  qed
  then show ?thesis by (simp add: state_io_rel_def)
qed

lemma steps_ret: "reflp R \<Longrightarrow> state_io_rel R (ret a)"
  by (simp add: state_io_rel_def reflpD)

lemma steps_getS: "reflp R \<Longrightarrow> state_io_rel R getS"
  by (simp add: state_io_rel_def reflpD)

lemma steps_modifyS: "(\<And>s. R s (f s)) \<Longrightarrow> state_io_rel R (modifyS f)"
  by (simp add: state_io_rel_def)

lemma steps_if [steps_rules]:
  "(b \<Longrightarrow> state_io_rel R m) \<Longrightarrow> (\<not> b \<Longrightarrow> state_io_rel R n) \<Longrightarrow>
   state_io_rel R (if b then m else n)"
  by simp

lemma steps_case_option [steps_rules]:
  "(x = None \<Longrightarrow> state_io_rel R m) \<Longrightarrow> (\<And>y. x = Some y \<Longrightarrow> state_io_rel R (f y)) \<Longrightarrow>
   state_io_rel R (case x of None \<Rightarrow> m | Some y \<Rightarrow> f y)"
  by (cases x) auto

lemma steps_case_sum [steps_rules]:
  "(\<And>e. x = Inl e \<Longrightarrow> state_io_rel R (f e)) \<Longrightarrow> (\<And>y. x = Inr y \<Longrightarrow> state_io_rel R (g y)) \<Longrightarrow>
   state_io_rel R (case x of Inl e \<Rightarrow> f e | Inr y \<Rightarrow> g y)"
  by (cases x) auto

lemma steps_for_each:
  assumes "reflp R" "transp R" "\<And>x. x \<in> set xs \<Longrightarrow> state_io_rel R (f x)"
  shows "state_io_rel R (for_each f xs)"
  using assms(3)
  by (induction xs) (simp_all add: steps_ret steps_bind assms(1,2))

lemma Milliseconds_floor:
  assumes "0 \<le> d"
  shows "0 \<le> Milliseconds d * Millisecond \<and> Milliseconds d * Millisecond \<le> d \<and>
         d < (Milliseconds d + 1) * Millisecond"
proof -
  have "Milliseconds d = d div 1000000"
    using assms by (cases "d = 0") (simp_all add: Milliseconds_def quot_go_def Millisecond_def sgn_if)
  then show ?thesis using assms by (simp add: Millisecond_def) linarith
qed

end
