(* ===== verification/Domain.thy ===== *)
theory Domain
  imports Prelude
begin

text \<open>
  The domain model of \<^verbatim>\<open>internal/domain\<close>: jobs, executions, workers, events, queue messages and
  schedules, with the functions of \<^verbatim>\<open>worker.go\<close>, \<^verbatim>\<open>job.go\<close> and \<^verbatim>\<open>schedule.go\<close>. Go's string-typed
  enumerations are datatypes with one constructor per declared constant and, where a value can come
  from a request or a message, one for any other string. Job and execution states are written by
  the program from its own constants only.
\<close>

section \<open>Enumerations\<close>

datatype JobState =
    JobStateCreated | JobStateScheduled | JobStateQueued | JobStateAssigned | JobStateRunning
  | JobStateCompleted | JobStateFailed | JobStateTimeout | JobStateRetrying
  | JobStateCancelRequested | JobStateCancelled | JobStateExpired

fun JobState_string :: "JobState \<Rightarrow> string" where
  "JobState_string JobStateCreated = ''CREATED''"
| "JobState_string JobStateScheduled = ''SCHEDULED''"
| "JobState_string JobStateQueued = ''QUEUED''"
| "JobState_string JobStateAssigned = ''ASSIGNED''"
| "JobState_string JobStateRunning = ''RUNNING''"
| "JobState_string JobStateCompleted = ''COMPLETED''"
| "JobState_string JobStateFailed = ''FAILED''"
| "JobState_string JobStateTimeout = ''TIMEOUT''"
| "JobState_string JobStateRetrying = ''RETRYING''"
| "JobState_string JobStateCancelRequested = ''CANCEL_REQUESTED''"
| "JobState_string JobStateCancelled = ''CANCELLED''"
| "JobState_string JobStateExpired = ''EXPIRED''"

datatype ScheduleType =
    ScheduleImmediate | ScheduleDelayed | ScheduleOneTime | ScheduleRecurring
  | ScheduleOther string

datatype JobType = JobTypeBuiltin | JobTypeWebhook | JobTypeOther string

fun JobType_string :: "JobType \<Rightarrow> string" where
  "JobType_string JobTypeBuiltin = ''builtin''"
| "JobType_string JobTypeWebhook = ''webhook''"
| "JobType_string (JobTypeOther s) = s"

definition JobType_of :: "string \<Rightarrow> JobType" where
  "JobType_of s =
     (if s = ''builtin'' then JobTypeBuiltin
      else if s = ''webhook'' then JobTypeWebhook
      else JobTypeOther s)"

datatype ResultReason =
    ReasonSuccess | ReasonFailed | ReasonTimeout | ReasonCancelled | ReasonOther string

fun ResultReason_string :: "ResultReason \<Rightarrow> string" where
  "ResultReason_string ReasonSuccess = ''success''"
| "ResultReason_string ReasonFailed = ''failed''"
| "ResultReason_string ReasonTimeout = ''timeout''"
| "ResultReason_string ReasonCancelled = ''cancelled''"
| "ResultReason_string (ReasonOther s) = s"

definition ResultReason_of :: "string \<Rightarrow> ResultReason" where
  "ResultReason_of s =
     (if s = ''success'' then ReasonSuccess
      else if s = ''failed'' then ReasonFailed
      else if s = ''timeout'' then ReasonTimeout
      else if s = ''cancelled'' then ReasonCancelled
      else ReasonOther s)"

datatype ExecutionState =
    ExecutionPending | ExecutionRunning | ExecutionCompleted
  | ExecutionFailed | ExecutionTimeout | ExecutionCancelled

datatype WorkerStatus =
    WorkerStatusHealthy | WorkerStatusSuspected | WorkerStatusUnavailable
  | WorkerStatusDraining | WorkerStatusOther string

datatype EventType =
    EventJobCreated | EventJobScheduled | EventJobQueued | EventJobAssigned | EventJobStarted
  | EventJobCompleted | EventJobFailed | EventJobRetryScheduled | EventJobCancelRequested
  | EventJobCancelled | EventJobTimeout | EventJobExpired
  | EventWorkerRegistered | EventWorkerHeartbeat | EventWorkerCapacityChanged
  | EventWorkerUnavailable | EventWorkerRecovered | EventWorkerDeregistered
  | EventSchedulerStarted | EventSchedulerStopped | EventSchedulerLeaderAcquired
  | EventSchedulerLeaderLost | EventSchedulerRebalanced
  | EventOther string

fun EventType_string :: "EventType \<Rightarrow> string" where
  "EventType_string EventJobCreated = ''JOB_CREATED''"
| "EventType_string EventJobScheduled = ''JOB_SCHEDULED''"
| "EventType_string EventJobQueued = ''JOB_QUEUED''"
| "EventType_string EventJobAssigned = ''JOB_ASSIGNED''"
| "EventType_string EventJobStarted = ''JOB_STARTED''"
| "EventType_string EventJobCompleted = ''JOB_COMPLETED''"
| "EventType_string EventJobFailed = ''JOB_FAILED''"
| "EventType_string EventJobRetryScheduled = ''JOB_RETRY_SCHEDULED''"
| "EventType_string EventJobCancelRequested = ''JOB_CANCEL_REQUESTED''"
| "EventType_string EventJobCancelled = ''JOB_CANCELLED''"
| "EventType_string EventJobTimeout = ''JOB_TIMEOUT''"
| "EventType_string EventJobExpired = ''JOB_EXPIRED''"
| "EventType_string EventWorkerRegistered = ''WORKER_REGISTERED''"
| "EventType_string EventWorkerHeartbeat = ''WORKER_HEARTBEAT''"
| "EventType_string EventWorkerCapacityChanged = ''WORKER_CAPACITY_CHANGED''"
| "EventType_string EventWorkerUnavailable = ''WORKER_UNAVAILABLE''"
| "EventType_string EventWorkerRecovered = ''WORKER_RECOVERED''"
| "EventType_string EventWorkerDeregistered = ''WORKER_DEREGISTERED''"
| "EventType_string EventSchedulerStarted = ''SCHEDULER_STARTED''"
| "EventType_string EventSchedulerStopped = ''SCHEDULER_STOPPED''"
| "EventType_string EventSchedulerLeaderAcquired = ''SCHEDULER_LEADER_ACQUIRED''"
| "EventType_string EventSchedulerLeaderLost = ''SCHEDULER_LEADER_LOST''"
| "EventType_string EventSchedulerRebalanced = ''SCHEDULER_REBALANCED''"
| "EventType_string (EventOther s) = s"

definition EventType_all :: "EventType list" where
  "EventType_all =
     [EventJobCreated, EventJobScheduled, EventJobQueued, EventJobAssigned, EventJobStarted,
      EventJobCompleted, EventJobFailed, EventJobRetryScheduled, EventJobCancelRequested,
      EventJobCancelled, EventJobTimeout, EventJobExpired,
      EventWorkerRegistered, EventWorkerHeartbeat, EventWorkerCapacityChanged,
      EventWorkerUnavailable, EventWorkerRecovered, EventWorkerDeregistered,
      EventSchedulerStarted, EventSchedulerStopped, EventSchedulerLeaderAcquired,
      EventSchedulerLeaderLost, EventSchedulerRebalanced]"

definition EventType_of :: "string \<Rightarrow> EventType" where
  "EventType_of s =
     (case find (\<lambda>et. EventType_string et = s) EventType_all of Some et \<Rightarrow> et | None \<Rightarrow> EventOther s)"


section \<open>Structs\<close>

record RetryPolicy =
  rp_MaxAttempts :: int
  rp_BackoffStrategy :: string
  rp_InitialDelay :: duration
  rp_MaxDelay :: duration
  rp_Multiplier :: rat
  rp_Jitter :: bool

definition DefaultRetryPolicy :: RetryPolicy where
  "DefaultRetryPolicy =
     \<lparr>rp_MaxAttempts = 3, rp_BackoffStrategy = ''exponential'', rp_InitialDelay = Second,
      rp_MaxDelay = 5 * Minute, rp_Multiplier = 2, rp_Jitter = True\<rparr>"

record Schedule =
  sc_Type :: ScheduleType
  sc_RunAt :: "time option"
  sc_Delay :: duration
  sc_CronExpr :: string
  sc_Timezone :: string

type_synonym metadata = "(string, string) gomap option"

record Job =
  job_ID :: string
  job_Name :: string
  job_Type :: JobType
  job_Payload :: rawmsg
  job_Priority :: int
  job_State :: JobState
  job_Schedule :: Schedule
  job_RetryPolicy :: RetryPolicy
  job_Timeout :: duration
  job_IdempotencyKey :: string
  job_Attempt :: int
  job_MaxAttempts :: int
  job_WorkerID :: string
  job_ExecutionID :: string
  job_LastError :: string
  job_ScheduledAt :: "time option"
  job_QueuedAt :: "time option"
  job_StartedAt :: "time option"
  job_CompletedAt :: "time option"
  job_NextRetryAt :: "time option"
  job_CreatedAt :: time
  job_UpdatedAt :: time
  job_Metadata :: metadata

record CreateJobRequest =
  cr_Name :: string
  cr_Type :: JobType
  cr_Payload :: rawmsg
  cr_Priority :: int
  cr_Schedule :: Schedule
  cr_RetryPolicy :: "RetryPolicy option"
  cr_TimeoutSeconds :: int
  cr_IdempotencyKey :: string
  cr_Metadata :: metadata

record ExecutionResult =
  er_Success :: bool
  er_Output :: rawmsg
  er_Error :: string
  er_Retryable :: bool
  er_Duration :: duration
  er_Reason :: ResultReason

record JobExecution =
  ex_ID :: string
  ex_JobID :: string
  ex_WorkerID :: string
  ex_Attempt :: int
  ex_State :: ExecutionState
  ex_StartedAt :: "time option"
  ex_FinishedAt :: "time option"
  ex_DurationMs :: int
  ex_Error :: string
  ex_Output :: rawmsg
  ex_Retryable :: bool
  ex_CreatedAt :: time

record WorkerCapabilities =
  cap_Builtin :: bool
  cap_Webhook :: bool

record Worker =
  wk_ID :: string
  wk_Address :: string
  wk_Status :: WorkerStatus
  wk_Capacity :: int
  wk_ActiveJobs :: int
  wk_Capabilities :: WorkerCapabilities
  wk_Labels :: metadata
  wk_LastHeartbeat :: time
  wk_RegisteredAt :: time
  wk_Metadata :: metadata

record Event =
  ev_EventID :: string
  ev_EventType :: EventType
  ev_EventVersion :: int
  ev_EventTime :: time
  ev_IngestedAt :: "time option"
  ev_JobID :: string
  ev_ExecutionID :: string
  ev_WorkerID :: string
  ev_SchedulerID :: string
  ev_Attempt :: int
  ev_TraceID :: string
  ev_Payload :: rawmsg

record QueuedJob =
  qj_JobID :: string
  qj_ExecutionID :: string
  qj_Name :: string
  qj_Type :: JobType
  qj_Payload :: rawmsg
  qj_Priority :: int
  qj_Attempt :: int
  qj_Timeout :: duration
  qj_EnqueuedAt :: time
  qj_TraceID :: string


section \<open>Workers\<close>

definition AvailableSlots :: "Worker \<Rightarrow> int" where
  "AvailableSlots w =
     (let slots = wk_Capacity w - wk_ActiveJobs w in if slots < 0 then 0 else slots)"

definition IsAssignable :: "Worker \<Rightarrow> bool" where
  "IsAssignable w \<longleftrightarrow> wk_Status w = WorkerStatusHealthy \<and> AvailableSlots w > 0"


section \<open>Schedules\<close>

text \<open>
  The cron library (\<^verbatim>\<open>github.com/robfig/cron/v3\<close>) and the time-zone database are parameters:
  parsing an expression gives the function \<open>Schedule.Next\<close>, which takes the location the
  instant is read in and the instant.
\<close>

record cronlib =
  cron_Parse :: "string \<Rightarrow> (string \<Rightarrow> time \<Rightarrow> time) res"
  cron_LoadLocation :: "string \<Rightarrow> string res"

definition cron_ok :: "cronlib \<Rightarrow> bool" where
  "cron_ok C \<longleftrightarrow> (\<forall>e nxt loc t. cron_Parse C e = Inr nxt \<longrightarrow> nxt loc t = 0 \<or> t < nxt loc t)"

fun Error_text :: "Error \<Rightarrow> string" where
  "Error_text ErrNotFound = ''not found''"
| "Error_text ErrConflict = ''conflict''"
| "Error_text ErrNoWorker = ''no healthy worker with capacity''"
| "Error_text ErrCanceled = ''context canceled''"
| "Error_text ErrDeadlineExceeded = ''context deadline exceeded''"
| "Error_text (ErrMsg s) = s"
| "Error_text (Panic s) = s"

fun ScheduleType_string :: "ScheduleType \<Rightarrow> string" where
  "ScheduleType_string ScheduleImmediate = ''immediate''"
| "ScheduleType_string ScheduleDelayed = ''delayed''"
| "ScheduleType_string ScheduleOneTime = ''one_time''"
| "ScheduleType_string ScheduleRecurring = ''recurring''"
| "ScheduleType_string (ScheduleOther s) = s"

definition NextRunAt :: "cronlib \<Rightarrow> Schedule \<Rightarrow> time \<Rightarrow> time res" where
  "NextRunAt C s from =
     (case sc_Type s of
        ScheduleImmediate \<Rightarrow> Inr from
      | ScheduleDelayed \<Rightarrow>
          (let d = sc_Delay s; d = (if d \<le> 0 then 0 else d) in Inr (from + d))
      | ScheduleOneTime \<Rightarrow>
          (case sc_RunAt s of
             None \<Rightarrow> Inl (ErrMsg ''run_at required'')
           | Some t \<Rightarrow> Inr t)
      | ScheduleRecurring \<Rightarrow>
          if sc_CronExpr s = '''' then Inl (ErrMsg ''cron_expr required for recurring'')
          else
            (case (if sc_Timezone s \<noteq> '''' then cron_LoadLocation C (sc_Timezone s)
                   else Inr ''UTC'') of
               Inl e \<Rightarrow> Inl (ErrMsg (''timezone: '' @ Error_text e))
             | Inr loc \<Rightarrow>
                 (case cron_Parse C (sc_CronExpr s) of
                    Inl e \<Rightarrow> Inl (ErrMsg (''cron_expr: '' @ Error_text e))
                  | Inr nxt \<Rightarrow> Inr (nxt loc from)))
      | ScheduleOther t \<Rightarrow> Inl (ErrMsg (''unknown schedule type '' @ quote_go t)))"

definition ValidateSchedule :: "cronlib \<Rightarrow> time \<Rightarrow> Schedule \<Rightarrow> Error option" where
  "ValidateSchedule C now s =
     (if sc_Type s = ScheduleOther '''' then None
      else case sc_Type s of
        ScheduleImmediate \<Rightarrow> None
      | ScheduleDelayed \<Rightarrow> None
      | ScheduleOneTime \<Rightarrow>
          if sc_RunAt s = None then Some (ErrMsg ''run_at required for one_time'') else None
      | ScheduleRecurring \<Rightarrow>
          if sc_CronExpr s = '''' then Some (ErrMsg ''cron_expr required for recurring'')
          else (case NextRunAt C s now of Inl e \<Rightarrow> Some e | Inr _ \<Rightarrow> None)
      | ScheduleOther t \<Rightarrow> Some (ErrMsg (''unknown schedule type '' @ quote_go t)))"


section \<open>The job lifecycle\<close>

text \<open>
  The states from which the result handler moves a job no further, and the order in which the
  program may change a job's state; \<open>docs/job-lifecycle.md\<close> draws the same machine.
\<close>

definition terminal :: "JobState \<Rightarrow> bool" where
  "terminal s \<longleftrightarrow>
     s \<in> {JobStateCompleted, JobStateFailed, JobStateCancelled, JobStateTimeout, JobStateExpired}"


section \<open>Lemmas\<close>

lemma JobType_of_string [simp]: "JobType_string (JobType_of s) = s"
  by (simp add: JobType_of_def)

lemma ResultReason_of_string [simp]: "ResultReason_string (ResultReason_of s) = s"
  by (simp add: ResultReason_of_def)

lemma EventType_of_string [simp]: "EventType_string (EventType_of s) = s"
  by (auto simp: EventType_of_def find_Some_iff split: option.splits)

lemma EventType_string_of:
  assumes "et \<in> set EventType_all"
  shows "EventType_of (EventType_string et) = et"
proof -
  have "list_all (\<lambda>et. EventType_of (EventType_string et) = et) EventType_all" by code_simp
  with assms show ?thesis by (simp add: list_all_iff)
qed

lemma JobState_string_inj [simp]: "JobState_string s = JobState_string t \<longleftrightarrow> s = t"
  by (cases s; cases t) simp_all

lemma AvailableSlots_nonneg [simp]: "0 \<le> AvailableSlots w"
  by (simp add: AvailableSlots_def Let_def)

lemma IsAssignable_iff:
  "IsAssignable w \<longleftrightarrow> wk_Status w = WorkerStatusHealthy \<and> wk_ActiveJobs w < wk_Capacity w"
  by (auto simp: IsAssignable_def AvailableSlots_def Let_def)

text \<open>Whether a next run exists depends on the schedule only, not on the instant asked from.\<close>

lemma NextRunAt_defined_any:
  "NextRunAt C s from = Inr t \<Longrightarrow> \<exists>t'. NextRunAt C s from' = Inr t'"
  by (auto simp: NextRunAt_def Let_def split: ScheduleType.splits option.splits sum.splits if_splits)

lemma NextRunAt_recurring:
  "sc_Type s = ScheduleRecurring \<Longrightarrow> NextRunAt C s from = Inr t \<Longrightarrow>
   \<exists>nxt loc. cron_Parse C (sc_CronExpr s) = Inr nxt \<and> t = nxt loc from"
  by (auto simp: NextRunAt_def split: sum.splits if_splits)

lemma NextRunAt_recurring_later:
  assumes "cron_ok C" "sc_Type s = ScheduleRecurring" "NextRunAt C s from = Inr t"
  shows "t = 0 \<or> from < t"
  using NextRunAt_recurring [OF assms(2,3)] assms(1) by (auto simp: cron_ok_def)

lemma ValidateSchedule_NextRunAt:
  assumes "ValidateSchedule C now s = None" "sc_Type s \<noteq> ScheduleOther ''''"
  shows "\<exists>t. NextRunAt C s from = Inr t"
proof (cases "sc_Type s")
  case ScheduleRecurring
  with assms obtain t where "NextRunAt C s now = Inr t"
    by (auto simp: ValidateSchedule_def split: sum.splits if_splits)
  then show ?thesis by (rule NextRunAt_defined_any)
qed (use assms in \<open>auto simp: NextRunAt_def ValidateSchedule_def Let_def split: if_splits option.splits\<close>)

end
