(* ===== verification/Ports.thy ===== *)
theory Ports
  imports Domain
begin

text \<open>
  The interfaces of \<^verbatim>\<open>internal/ports/ports.go\<close> and \<^verbatim>\<open>internal/domain/queue.go\<close>. A Go interface
  value is a record of its methods, each taking the implementation's state; the scheduler and
  the API are defined over such records, the stores and queues provide them. What a method
  reads from outside the program (clock, random identifiers, map iteration order, remote
  calls) comes in one \<open>ext\<close> argument.
\<close>

section \<open>The outside world of one call\<close>

datatype ExecReply = RpcFailed Error | RpcNil | RpcReply bool string

text \<open>
  The reply to one statement sent to a database server: it was executed, it was refused without
  effect (the server is away, a parameter has no value of the column's type), or it was executed
  and the reply was lost.
\<close>

datatype DbReply = DbOk | DbRefused Error | DbLost Error

record ext =
  x_now :: "nat \<Rightarrow> time"
  x_uuid :: "nat \<Rightarrow> string"
  x_order :: order
  x_rand :: rat
  x_dial :: "Error option"
  x_exec :: ExecReply
  x_cancel :: "Error option"
  x_db :: "nat \<Rightarrow> DbReply"


text \<open>A concrete outside world, for the examples of the component theories.\<close>

definition ext0 :: ext where
  "ext0 = \<lparr>x_now = \<lambda>n. 1000, x_uuid = \<lambda>n. ''u'', x_order = \<lambda>ks. ks, x_rand = 0, x_dial = None,
           x_exec = RpcReply True '''', x_cancel = None, x_db = \<lambda>n. DbOk\<rparr>"


section \<open>Field maps of state updates\<close>

text \<open>
  \<open>map[string]any\<close>: the keys a caller passes with \<open>UpdateJobState\<close>. A store reads a key with a
  type assertion, so a value of another dynamic type is ignored.
\<close>

datatype anyval = AnyString string | AnyInt int | AnyTime time

type_synonym fields = "(string \<times> anyval) list"

definition field_string :: "string \<Rightarrow> fields \<Rightarrow> string option" where
  "field_string k f = (case map_of f k of Some (AnyString v) \<Rightarrow> Some v | _ \<Rightarrow> None)"

definition field_int :: "string \<Rightarrow> fields \<Rightarrow> int option" where
  "field_int k f = (case map_of f k of Some (AnyInt v) \<Rightarrow> Some v | _ \<Rightarrow> None)"

definition field_time :: "string \<Rightarrow> fields \<Rightarrow> time option" where
  "field_time k f = (case map_of f k of Some (AnyTime v) \<Rightarrow> Some v | _ \<Rightarrow> None)"

definition set_state :: "time \<Rightarrow> JobState \<Rightarrow> fields \<Rightarrow> Job \<Rightarrow> Job" where
  "set_state now st f j =
     (let j = j\<lparr>job_State := st, job_UpdatedAt := now\<rparr>;
          j = (case field_string ''worker_id'' f of Some v \<Rightarrow> j\<lparr>job_WorkerID := v\<rparr> | None \<Rightarrow> j);
          j = (case field_string ''execution_id'' f of Some v \<Rightarrow> j\<lparr>job_ExecutionID := v\<rparr> | None \<Rightarrow> j);
          j = (case field_string ''last_error'' f of Some v \<Rightarrow> j\<lparr>job_LastError := v\<rparr> | None \<Rightarrow> j);
          j = (case field_int ''attempt'' f of Some v \<Rightarrow> j\<lparr>job_Attempt := v\<rparr> | None \<Rightarrow> j);
          j = (case field_time ''queued_at'' f of Some v \<Rightarrow> j\<lparr>job_QueuedAt := Some v\<rparr> | None \<Rightarrow> j);
          j = (case field_time ''started_at'' f of Some v \<Rightarrow> j\<lparr>job_StartedAt := Some v\<rparr> | None \<Rightarrow> j);
          j = (case field_time ''completed_at'' f of Some v \<Rightarrow> j\<lparr>job_CompletedAt := Some v\<rparr> | None \<Rightarrow> j);
          j = (case field_time ''next_retry_at'' f of Some v \<Rightarrow> j\<lparr>job_NextRetryAt := Some v\<rparr> | None \<Rightarrow> j);
          j = (case field_time ''scheduled_at'' f of Some v \<Rightarrow> j\<lparr>job_ScheduledAt := Some v\<rparr> | None \<Rightarrow> j)
      in j)"


section \<open>The interfaces\<close>

record OutboxRow =
  or_ID :: string
  or_EventType :: string
  or_AggregateID :: string
  or_Payload :: rawmsg
  or_CreatedAt :: time

record 's JobStore =
  js_CreateJob :: "ext \<Rightarrow> Job \<Rightarrow> 's \<Rightarrow> Job res \<times> 's"
  js_GetJob :: "ext \<Rightarrow> string \<Rightarrow> 's \<Rightarrow> Job res"
  js_GetJobByIdempotencyKey :: "ext \<Rightarrow> string \<Rightarrow> 's \<Rightarrow> Job option res"
  js_UpdateJobStateIf :: "ext \<Rightarrow> string \<Rightarrow> JobState \<Rightarrow> fields \<Rightarrow> JobState list \<Rightarrow> 's \<Rightarrow> Error option \<times> 's"
  js_ListJobs :: "ext \<Rightarrow> string \<Rightarrow> int \<Rightarrow> 's \<Rightarrow> Job list res"
  js_ListDueScheduled :: "ext \<Rightarrow> int \<Rightarrow> 's \<Rightarrow> Job list res"
  js_ListCancelRequested :: "ext \<Rightarrow> int \<Rightarrow> 's \<Rightarrow> Job list res"
  js_ListTimedOutRunning :: "ext \<Rightarrow> time \<Rightarrow> int \<Rightarrow> 's \<Rightarrow> Job list res"
  js_CreateExecution :: "ext \<Rightarrow> JobExecution \<Rightarrow> 's \<Rightarrow> JobExecution res \<times> 's"
  js_FinishExecution :: "ext \<Rightarrow> string \<Rightarrow> ExecutionState \<Rightarrow> ExecutionResult \<Rightarrow> 's \<Rightarrow> Error option \<times> 's"
  js_UpsertWorker :: "ext \<Rightarrow> Worker \<Rightarrow> 's \<Rightarrow> Error option \<times> 's"
  js_ListHealthyWorkers :: "ext \<Rightarrow> 's \<Rightarrow> Worker list res"
  js_ListWorkers :: "ext \<Rightarrow> 's \<Rightarrow> Worker list res"
  js_MarkStaleWorkers :: "ext \<Rightarrow> duration \<Rightarrow> duration \<Rightarrow> 's \<Rightarrow> (string list \<times> string list) res \<times> 's"
  js_InsertOutbox :: "ext \<Rightarrow> Event \<Rightarrow> 's \<Rightarrow> Error option \<times> 's"
  js_FetchOutboxBatch :: "ext \<Rightarrow> int \<Rightarrow> 's \<Rightarrow> OutboxRow list res"
  js_MarkOutboxPublished :: "ext \<Rightarrow> string list \<Rightarrow> 's \<Rightarrow> Error option \<times> 's"

definition js_UpdateJobState ::
    "'s JobStore \<Rightarrow> ext \<Rightarrow> string \<Rightarrow> JobState \<Rightarrow> fields \<Rightarrow> 's \<Rightarrow> Error option \<times> 's" where
  "js_UpdateJobState S x jid st f = js_UpdateJobStateIf S x jid st f []"

record 's EventPublisher =
  ep_Emit :: "ext \<Rightarrow> EventType \<Rightarrow> string \<Rightarrow> string \<Rightarrow> string \<Rightarrow> int \<Rightarrow> rawmsg \<Rightarrow> 's \<Rightarrow> Error option \<times> 's"

record 'q Queue =
  q_Enqueue :: "ext \<Rightarrow> QueuedJob \<Rightarrow> 'q \<Rightarrow> Error option \<times> 'q"
  q_EnqueueDelay :: "ext \<Rightarrow> QueuedJob \<Rightarrow> duration \<Rightarrow> 'q \<Rightarrow> Error option \<times> 'q"
  q_Name :: string


section \<open>Lemmas on field maps\<close>

lemma field_Nil [simp]:
  "field_string k [] = None" "field_int k [] = None" "field_time k [] = None"
  by (simp_all add: field_string_def field_int_def field_time_def)

lemma field_string_Cons [simp]:
  "field_string k ((k', v) # f) =
     (if k = k' then (case v of AnyString s \<Rightarrow> Some s | _ \<Rightarrow> None) else field_string k f)"
  by (simp add: field_string_def split: anyval.splits)

lemma field_int_Cons [simp]:
  "field_int k ((k', v) # f) =
     (if k = k' then (case v of AnyInt s \<Rightarrow> Some s | _ \<Rightarrow> None) else field_int k f)"
  by (simp add: field_int_def split: anyval.splits)

lemma field_time_Cons [simp]:
  "field_time k ((k', v) # f) =
     (if k = k' then (case v of AnyTime s \<Rightarrow> Some s | _ \<Rightarrow> None) else field_time k f)"
  by (simp add: field_time_def split: anyval.splits)

text \<open>Each optional assignment of \<open>set_state\<close> is an unconditional record update.\<close>

lemma opt_assign:
  "(case vWorkerID of None \<Rightarrow> j | Some u \<Rightarrow> j\<lparr>job_WorkerID := u\<rparr>) = j\<lparr>job_WorkerID := case_option (job_WorkerID j) (\<lambda>u. u) vWorkerID\<rparr>"
  "(case vExecutionID of None \<Rightarrow> j | Some u \<Rightarrow> j\<lparr>job_ExecutionID := u\<rparr>) = j\<lparr>job_ExecutionID := case_option (job_ExecutionID j) (\<lambda>u. u) vExecutionID\<rparr>"
  "(case vLastError of None \<Rightarrow> j | Some u \<Rightarrow> j\<lparr>job_LastError := u\<rparr>) = j\<lparr>job_LastError := case_option (job_LastError j) (\<lambda>u. u) vLastError\<rparr>"
  "(case vAttempt of None \<Rightarrow> j | Some u \<Rightarrow> j\<lparr>job_Attempt := u\<rparr>) = j\<lparr>job_Attempt := case_option (job_Attempt j) (\<lambda>u. u) vAttempt\<rparr>"
  "(case vQueuedAt of None \<Rightarrow> j | Some u \<Rightarrow> j\<lparr>job_QueuedAt := Some u\<rparr>) = j\<lparr>job_QueuedAt := case_option (job_QueuedAt j) Some vQueuedAt\<rparr>"
  "(case vStartedAt of None \<Rightarrow> j | Some u \<Rightarrow> j\<lparr>job_StartedAt := Some u\<rparr>) = j\<lparr>job_StartedAt := case_option (job_StartedAt j) Some vStartedAt\<rparr>"
  "(case vCompletedAt of None \<Rightarrow> j | Some u \<Rightarrow> j\<lparr>job_CompletedAt := Some u\<rparr>) = j\<lparr>job_CompletedAt := case_option (job_CompletedAt j) Some vCompletedAt\<rparr>"
  "(case vNextRetryAt of None \<Rightarrow> j | Some u \<Rightarrow> j\<lparr>job_NextRetryAt := Some u\<rparr>) = j\<lparr>job_NextRetryAt := case_option (job_NextRetryAt j) Some vNextRetryAt\<rparr>"
  "(case vScheduledAt of None \<Rightarrow> j | Some u \<Rightarrow> j\<lparr>job_ScheduledAt := Some u\<rparr>) = j\<lparr>job_ScheduledAt := case_option (job_ScheduledAt j) Some vScheduledAt\<rparr>"
  by (simp_all split: option.splits)

lemma set_state_eq:
  "set_state now st f j =
     j\<lparr>job_State := st, job_UpdatedAt := now,
       job_WorkerID := case_option (job_WorkerID j) (\<lambda>u. u) (field_string ''worker_id'' f),
       job_ExecutionID := case_option (job_ExecutionID j) (\<lambda>u. u) (field_string ''execution_id'' f),
       job_LastError := case_option (job_LastError j) (\<lambda>u. u) (field_string ''last_error'' f),
       job_Attempt := case_option (job_Attempt j) (\<lambda>u. u) (field_int ''attempt'' f),
       job_QueuedAt := case_option (job_QueuedAt j) Some (field_time ''queued_at'' f),
       job_StartedAt := case_option (job_StartedAt j) Some (field_time ''started_at'' f),
       job_CompletedAt := case_option (job_CompletedAt j) Some (field_time ''completed_at'' f),
       job_NextRetryAt := case_option (job_NextRetryAt j) Some (field_time ''next_retry_at'' f),
       job_ScheduledAt := case_option (job_ScheduledAt j) Some (field_time ''scheduled_at'' f)\<rparr>"
  by (simp add: set_state_def Let_def opt_assign cong: option.case_cong)

text \<open>A state update leaves what a job is (identity, work, policy) alone and sets the state.\<close>

lemma set_state_frame [simp]:
  "job_ID (set_state now st f j) = job_ID j"
  "job_Name (set_state now st f j) = job_Name j"
  "job_Type (set_state now st f j) = job_Type j"
  "job_Payload (set_state now st f j) = job_Payload j"
  "job_Priority (set_state now st f j) = job_Priority j"
  "job_Schedule (set_state now st f j) = job_Schedule j"
  "job_RetryPolicy (set_state now st f j) = job_RetryPolicy j"
  "job_Timeout (set_state now st f j) = job_Timeout j"
  "job_IdempotencyKey (set_state now st f j) = job_IdempotencyKey j"
  "job_MaxAttempts (set_state now st f j) = job_MaxAttempts j"
  "job_CreatedAt (set_state now st f j) = job_CreatedAt j"
  "job_Metadata (set_state now st f j) = job_Metadata j"
  by (simp_all add: set_state_eq)

lemma set_state_values [simp]:
  "job_State (set_state now st f j) = st"
  "job_UpdatedAt (set_state now st f j) = now"
  "job_WorkerID (set_state now st f j) = case_option (job_WorkerID j) (\<lambda>u. u) (field_string ''worker_id'' f)"
  "job_ExecutionID (set_state now st f j) = case_option (job_ExecutionID j) (\<lambda>u. u) (field_string ''execution_id'' f)"
  "job_LastError (set_state now st f j) = case_option (job_LastError j) (\<lambda>u. u) (field_string ''last_error'' f)"
  "job_Attempt (set_state now st f j) = case_option (job_Attempt j) (\<lambda>u. u) (field_int ''attempt'' f)"
  "job_QueuedAt (set_state now st f j) = case_option (job_QueuedAt j) Some (field_time ''queued_at'' f)"
  "job_StartedAt (set_state now st f j) = case_option (job_StartedAt j) Some (field_time ''started_at'' f)"
  "job_CompletedAt (set_state now st f j) = case_option (job_CompletedAt j) Some (field_time ''completed_at'' f)"
  "job_NextRetryAt (set_state now st f j) = case_option (job_NextRetryAt j) Some (field_time ''next_retry_at'' f)"
  "job_ScheduledAt (set_state now st f j) = case_option (job_ScheduledAt j) Some (field_time ''scheduled_at'' f)"
  by (simp_all add: set_state_eq)

end
