(* ===== verification/Contracts.thy ===== *)
theory Contracts
  imports Ports
begin

text \<open>
  What the scheduler and the API rely on when they call a \<open>JobStore\<close>, an \<open>EventPublisher\<close> or a
  \<open>Queue\<close>. A store is seen through an abstraction function to \<open>AbsStore\<close>, four finite maps;
  \<open>job_store\<close> says what any call may do to the jobs whether or not it reports an error, and
  \<open>job_store_total\<close> adds what a store that is up does exactly. The clients are verified against
  these laws; the providers discharge them.
\<close>

section \<open>Abstract stores\<close>

record AbsStore =
  a_jobs :: "string \<rightharpoonup> Job"
  a_keys :: "string \<rightharpoonup> string"
  a_execs :: "string \<rightharpoonup> JobExecution"
  a_workers :: "string \<rightharpoonup> Worker"

text \<open>
  What Go and the UUID library promise of an outside world: \<open>range\<close> visits every key once, an
  identifier is not the empty string, and \<open>rand.Float64\<close> is in \<open>[0, 1)\<close>.
\<close>

definition ext_ok :: "ext \<Rightarrow> bool" where
  "ext_ok x \<longleftrightarrow> order_ok (x_order x) \<and> (\<forall>n. x_uuid x n \<noteq> '''') \<and> 0 \<le> x_rand x \<and> x_rand x < 1"

text \<open>A copied metadata map holds the same entries, in an order of its own.\<close>

definition same_metadata :: "metadata \<Rightarrow> metadata \<Rightarrow> bool" where
  "same_metadata a b \<longleftrightarrow> map_option map_of a = map_option map_of b"

definition new_id :: "ext \<Rightarrow> Job \<Rightarrow> string" where
  "new_id x job = (if job_ID job = '''' then x_uuid x 0 else job_ID job)"

definition stored :: "Job \<Rightarrow> string \<Rightarrow> time \<Rightarrow> metadata \<Rightarrow> Job" where
  "stored job i t md = job\<lparr>job_ID := i, job_CreatedAt := t, job_UpdatedAt := t, job_Metadata := md\<rparr>"

definition is_due :: "time \<Rightarrow> Job \<Rightarrow> bool" where
  "is_due now j \<longleftrightarrow>
     job_State j = JobStateScheduled \<and> (\<exists>t. job_ScheduledAt j = Some t \<and> t \<le> now) \<or>
     job_State j = JobStateRetrying \<and> (\<exists>t. job_NextRetryAt j = Some t \<and> t \<le> now)"

definition is_overdue :: "time \<Rightarrow> Job \<Rightarrow> bool" where
  "is_overdue now j \<longleftrightarrow>
     (job_State j = JobStateRunning \<or> job_State j = JobStateAssigned) \<and>
     (\<exists>t. job_StartedAt j = Some t \<and>
          t + (if job_Timeout j \<le> 0 then 30 * Second else job_Timeout j) < now)"

text \<open>
  A listing of the jobs with a property: each once, each as it is in the store, no more than the limit
  (or one, for a limit that is not positive), and all of them unless the limit was reached.
\<close>

definition listed :: "(string \<rightharpoonup> Job) \<Rightarrow> (Job \<Rightarrow> bool) \<Rightarrow> Job list \<Rightarrow> bool" where
  "listed m p js \<longleftrightarrow>
     distinct (map job_ID js) \<and>
     (\<forall>k\<in>set js. \<exists>j md. m (job_ID k) = Some j \<and> p j \<and> k = j\<lparr>job_Metadata := md\<rparr> \<and>
                        same_metadata (job_Metadata j) md)"

definition listing :: "(string \<rightharpoonup> Job) \<Rightarrow> (Job \<Rightarrow> bool) \<Rightarrow> int \<Rightarrow> Job list \<Rightarrow> bool" where
  "listing m p limit js \<longleftrightarrow>
     listed m p js \<and> int (length js) \<le> max 1 limit \<and>
     (int (length js) < limit \<longrightarrow> (\<forall>jid j. m jid = Some j \<and> p j \<longrightarrow> jid \<in> job_ID ` set js))"

definition default_limit :: "int \<Rightarrow> int" where
  "default_limit n = (if n \<le> 0 then 50 else n)"

text \<open>What the staleness scan does with one worker.\<close>

definition lost :: "time \<Rightarrow> duration \<Rightarrow> duration \<Rightarrow> Worker \<Rightarrow> bool" where
  "lost now timeout grace w \<longleftrightarrow>
     timeout + grace < now - wk_LastHeartbeat w \<and>
     (wk_Status w = WorkerStatusHealthy \<or> wk_Status w = WorkerStatusSuspected)"

definition suspect :: "time \<Rightarrow> duration \<Rightarrow> duration \<Rightarrow> Worker \<Rightarrow> bool" where
  "suspect now timeout grace w \<longleftrightarrow>
     \<not> lost now timeout grace w \<and> timeout < now - wk_LastHeartbeat w \<and>
     wk_Status w = WorkerStatusHealthy"

definition after_scan :: "time \<Rightarrow> duration \<Rightarrow> duration \<Rightarrow> Worker \<Rightarrow> Worker" where
  "after_scan now timeout grace w =
     (if lost now timeout grace w then w\<lparr>wk_Status := WorkerStatusUnavailable\<rparr>
      else if suspect now timeout grace w then w\<lparr>wk_Status := WorkerStatusSuspected\<rparr>
      else w)"

definition finished ::
    "time \<Rightarrow> ExecutionState \<Rightarrow> ExecutionResult \<Rightarrow> JobExecution \<Rightarrow> JobExecution" where
  "finished now st r ex =
     ex\<lparr>ex_State := st, ex_FinishedAt := Some now, ex_DurationMs := Milliseconds (er_Duration r),
        ex_Error := er_Error r, ex_Output := er_Output r, ex_Retryable := er_Retryable r\<rparr>"


text \<open>What a job is, as opposed to how far it has come.\<close>

definition same_work :: "Job \<Rightarrow> Job \<Rightarrow> bool" where
  "same_work j k \<longleftrightarrow>
     job_ID j = job_ID k \<and> job_Name j = job_Name k \<and> job_Type j = job_Type k \<and>
     job_Payload j = job_Payload k \<and> job_Priority j = job_Priority k \<and>
     job_Schedule j = job_Schedule k \<and> job_RetryPolicy j = job_RetryPolicy k \<and>
     job_Timeout j = job_Timeout k \<and> job_IdempotencyKey j = job_IdempotencyKey k \<and>
     job_MaxAttempts j = job_MaxAttempts k \<and> job_CreatedAt j = job_CreatedAt k \<and>
     job_Metadata j = job_Metadata k"


section \<open>Job stores\<close>

text \<open>
  The effect of a state update that every store keeps exactly; instants may be kept at the store's
  own precision.
\<close>

definition moved :: "JobState \<Rightarrow> fields \<Rightarrow> Job \<Rightarrow> Job \<Rightarrow> bool" where
  "moved st f j k \<longleftrightarrow>
     same_work j k \<and> job_State k = st \<and>
     job_WorkerID k = case_option (job_WorkerID j) (\<lambda>u. u) (field_string ''worker_id'' f) \<and>
     job_ExecutionID k = case_option (job_ExecutionID j) (\<lambda>u. u) (field_string ''execution_id'' f) \<and>
     job_LastError k = case_option (job_LastError j) (\<lambda>u. u) (field_string ''last_error'' f) \<and>
     job_Attempt k = case_option (job_Attempt j) (\<lambda>u. u) (field_int ''attempt'' f)"

locale job_store =
  fixes S :: "'s JobStore"
    and av :: "'s \<Rightarrow> AbsStore"
    and sinv :: "'s \<Rightarrow> bool"
  assumes get_sound:
      "ext_ok x \<Longrightarrow> sinv s \<Longrightarrow> js_GetJob S x jid s = Inr k \<Longrightarrow>
       \<exists>j md. a_jobs (av s) jid = Some j \<and> k = j\<lparr>job_Metadata := md\<rparr> \<and>
              same_metadata (job_Metadata j) md"
    and ids: "sinv s \<Longrightarrow> a_jobs (av s) jid = Some j \<Longrightarrow> job_ID j = jid"
    and update_sound:
      "ext_ok x \<Longrightarrow> sinv s \<Longrightarrow> js_UpdateJobStateIf S x jid st f onlyFrom s = (e, s') \<Longrightarrow>
       sinv s' \<and> a_keys (av s') = a_keys (av s) \<and>
       (a_jobs (av s') = a_jobs (av s) \<or>
        (\<exists>j k. a_jobs (av s) jid = Some j \<and> (onlyFrom = [] \<or> job_State j \<in> set onlyFrom) \<and>
               moved st f j k \<and> a_jobs (av s') = (a_jobs (av s))(jid \<mapsto> k)))"
    and create_sound:
      "ext_ok x \<Longrightarrow> sinv s \<Longrightarrow> js_CreateJob S x job s = (r, s') \<Longrightarrow>
       sinv s' \<and>
       (a_jobs (av s') = a_jobs (av s) \<and> a_keys (av s') = a_keys (av s) \<or>
        (\<exists>k. job_State k = job_State job \<and> job_IdempotencyKey k = job_IdempotencyKey job \<and>
             a_jobs (av s') = (a_jobs (av s))(new_id x job \<mapsto> k) \<and>
             a_keys (av s') = (if job_IdempotencyKey job = '''' then a_keys (av s)
                               else (a_keys (av s))(job_IdempotencyKey job \<mapsto> new_id x job)))) \<and>
       (\<forall>k. r = Inr k \<longrightarrow>
          job_ID k = new_id x job \<or>
          job_IdempotencyKey job \<noteq> '''' \<and> a_keys (av s) (job_IdempotencyKey job) = Some (job_ID k))"
    and execution_sound:
      "ext_ok x \<Longrightarrow> sinv s \<Longrightarrow> js_CreateExecution S x ex s = (r', s') \<Longrightarrow>
       sinv s' \<and> a_jobs (av s') = a_jobs (av s) \<and> a_keys (av s') = a_keys (av s)"
    and finish_sound:
      "ext_ok x \<Longrightarrow> sinv s \<Longrightarrow> js_FinishExecution S x xid est res s = (e, s') \<Longrightarrow>
       sinv s' \<and> a_jobs (av s') = a_jobs (av s) \<and> a_keys (av s') = a_keys (av s)"
    and upsert_sound:
      "ext_ok x \<Longrightarrow> sinv s \<Longrightarrow> js_UpsertWorker S x wk s = (e, s') \<Longrightarrow>
       sinv s' \<and> a_jobs (av s') = a_jobs (av s) \<and> a_keys (av s') = a_keys (av s)"
    and stale_sound:
      "ext_ok x \<Longrightarrow> sinv s \<Longrightarrow> js_MarkStaleWorkers S x d1 d2 s = (r'', s') \<Longrightarrow>
       sinv s' \<and> a_jobs (av s') = a_jobs (av s) \<and> a_keys (av s') = a_keys (av s)"
    and list_sound:
      "ext_ok x \<Longrightarrow> sinv s \<Longrightarrow> js_ListJobs S x st' limit s = Inr js \<Longrightarrow>
       listed (a_jobs (av s)) (\<lambda>j. st' = '''' \<or> JobState_string (job_State j) = st') js"
    and cancel_requested_sound:
      "ext_ok x \<Longrightarrow> sinv s \<Longrightarrow> js_ListCancelRequested S x limit s = Inr js \<Longrightarrow>
       listed (a_jobs (av s)) (\<lambda>j. job_State j = JobStateCancelRequested) js"
    and overdue_sound:
      "ext_ok x \<Longrightarrow> sinv s \<Longrightarrow> js_ListTimedOutRunning S x now limit s = Inr js \<Longrightarrow>
       listed (a_jobs (av s)) (\<lambda>j. job_State j = JobStateRunning \<or> job_State j = JobStateAssigned) js"

locale job_store_total = job_store +
  assumes get_total:
      "ext_ok x \<Longrightarrow> sinv s \<Longrightarrow>
       (case a_jobs (av s) jid of
          None \<Rightarrow> js_GetJob S x jid s = Inl ErrNotFound
        | Some j \<Rightarrow> \<exists>md. js_GetJob S x jid s = Inr (j\<lparr>job_Metadata := md\<rparr>) \<and>
                         same_metadata (job_Metadata j) md)"
    and update_total:
      "ext_ok x \<Longrightarrow> sinv s \<Longrightarrow> js_UpdateJobStateIf S x jid st f onlyFrom s = (e, s') \<Longrightarrow>
       (case a_jobs (av s) jid of
          None \<Rightarrow> e = Some ErrNotFound \<and> av s' = av s
        | Some j \<Rightarrow>
            e = None \<and>
            (if onlyFrom \<noteq> [] \<and> job_State j \<notin> set onlyFrom then av s' = av s
             else av s' = (av s)\<lparr>a_jobs := (a_jobs (av s))(jid \<mapsto> set_state (x_now x 0) st f j)\<rparr>))"
    and create_total:
      "ext_ok x \<Longrightarrow> sinv s \<Longrightarrow> js_CreateJob S x job s = (r, s') \<Longrightarrow>
       (if job_IdempotencyKey job \<noteq> '''' \<and> a_keys (av s) (job_IdempotencyKey job) \<noteq> None
        then av s' = av s \<and>
             (\<exists>jid j md. a_keys (av s) (job_IdempotencyKey job) = Some jid \<and>
                        a_jobs (av s) jid = Some j \<and> r = Inr (j\<lparr>job_Metadata := md\<rparr>) \<and>
                        same_metadata (job_Metadata j) md)
        else let i = new_id x job; t = x_now x 0 in
             r = Inr (stored job i t (job_Metadata job)) \<and>
             (\<exists>md. same_metadata (job_Metadata job) md \<and>
               av s' = (av s)\<lparr>a_jobs := (a_jobs (av s))(i \<mapsto> stored job i t md),
                                a_keys := (if job_IdempotencyKey job = '''' then a_keys (av s)
                                           else (a_keys (av s))(job_IdempotencyKey job \<mapsto> i))\<rparr>))"
    and execution_total:
      "ext_ok x \<Longrightarrow> sinv s \<Longrightarrow> js_CreateExecution S x ex s = (r', s') \<Longrightarrow> ex_ID ex \<noteq> '''' \<Longrightarrow>
       r' = Inr (ex\<lparr>ex_CreatedAt := x_now x 0\<rparr>) \<and>
       av s' = (av s)\<lparr>a_execs := (a_execs (av s))(ex_ID ex \<mapsto> ex\<lparr>ex_CreatedAt := x_now x 0\<rparr>)\<rparr>"
    and finish_total:
      "ext_ok x \<Longrightarrow> sinv s \<Longrightarrow> js_FinishExecution S x xid est res s = (e, s') \<Longrightarrow>
       av s' = (av s)\<lparr>a_execs := (\<lambda>i. if i = xid then map_option (finished (x_now x 0) est res) (a_execs (av s) i)
                                       else a_execs (av s) i)\<rparr>"
    and upsert_total:
      "ext_ok x \<Longrightarrow> sinv s \<Longrightarrow> js_UpsertWorker S x wk s = (e, s') \<Longrightarrow>
       e = None \<and> av s' = (av s)\<lparr>a_workers := (a_workers (av s))(wk_ID wk \<mapsto> wk)\<rparr>"
    and stale_total:
      "ext_ok x \<Longrightarrow> sinv s \<Longrightarrow> 0 \<le> d1 \<Longrightarrow> 0 \<le> d2 \<Longrightarrow> d1 + d2 < 2 ^ 63 \<Longrightarrow>
       js_MarkStaleWorkers S x d1 d2 s = (r'', s') \<Longrightarrow>
       (\<exists>sus una. r'' = Inr (sus, una) \<and> distinct una \<and> distinct sus \<and>
          set una = {i. \<exists>w. a_workers (av s) i = Some w \<and> lost (x_now x 0) d1 d2 w} \<and>
          set sus = {i. \<exists>w. a_workers (av s) i = Some w \<and> suspect (x_now x 0) d1 d2 w}) \<and>
       av s' = (av s)\<lparr>a_workers := map_option (after_scan (x_now x 0) d1 d2) \<circ> a_workers (av s)\<rparr>"
    and list_total:
      "ext_ok x \<Longrightarrow> sinv s \<Longrightarrow>
       \<exists>js. js_ListJobs S x st' limit s = Inr js \<and>
            listing (a_jobs (av s)) (\<lambda>j. st' = '''' \<or> JobState_string (job_State j) = st')
              (default_limit limit) js"
    and due_total:
      "ext_ok x \<Longrightarrow> sinv s \<Longrightarrow>
       \<exists>js. js_ListDueScheduled S x limit s = Inr js \<and>
            listing (a_jobs (av s)) (is_due (x_now x 0)) limit js"
    and cancel_requested_total:
      "ext_ok x \<Longrightarrow> sinv s \<Longrightarrow>
       \<exists>js. js_ListCancelRequested S x limit s = Inr js \<and>
            listing (a_jobs (av s)) (\<lambda>j. job_State j = JobStateCancelRequested)
              (default_limit limit) js"
    and overdue_total:
      "ext_ok x \<Longrightarrow> sinv s \<Longrightarrow>
       \<exists>js. js_ListTimedOutRunning S x now limit s = Inr js \<and>
            listing (a_jobs (av s)) (is_overdue now) (default_limit limit) js"


section \<open>Event publishers\<close>

text \<open>Emitting an event may fail, and is invisible to the jobs, executions and workers.\<close>

locale event_sink =
  fixes P :: "'s EventPublisher"
    and av :: "'s \<Rightarrow> AbsStore"
    and sinv :: "'s \<Rightarrow> bool"
  assumes emit_frame:
    "sinv s \<Longrightarrow> ep_Emit P x et jid xid wid attempt payload s = (e, s') \<Longrightarrow>
     sinv s' \<and> av s' = av s"


section \<open>Queues\<close>

locale job_queue =
  fixes Q :: "'q Queue"
    and waiting :: "'q \<Rightarrow> QueuedJob multiset"
    and accepting :: "'q \<Rightarrow> bool"
  assumes enqueue_accepted:
      "accepting q \<Longrightarrow> q_Enqueue Q x job q = (e, q') \<Longrightarrow>
       e = None \<and> accepting q' \<and>
       (\<exists>t. waiting q' = add_mset (job\<lparr>qj_EnqueuedAt := t\<rparr>) (waiting q) \<and>
            (qj_EnqueuedAt job \<noteq> 0 \<longrightarrow> t = qj_EnqueuedAt job))"
    and enqueue_refused:
      "\<not> accepting q \<Longrightarrow> q_Enqueue Q x job q = (e, q') \<Longrightarrow> e \<noteq> None \<and> q' = q"
    and delay_accepted:
      "accepting q \<Longrightarrow> q_EnqueueDelay Q x job d q = (e, q') \<Longrightarrow>
       e = None \<and> accepting q' \<and> waiting q' = add_mset job (waiting q)"


section \<open>Lemmas\<close>

lemma same_metadata_refl [simp]: "same_metadata m m"
  by (simp add: same_metadata_def)

lemma stored_fields [simp]:
  "job_ID (stored job i t md) = i"
  "job_State (stored job i t md) = job_State job"
  "job_IdempotencyKey (stored job i t md) = job_IdempotencyKey job"
  "job_ScheduledAt (stored job i t md) = job_ScheduledAt job"
  by (simp_all add: stored_def)

lemma listing_distinct: "listing m p limit js \<Longrightarrow> distinct (map job_ID js)"
  by (simp add: listing_def listed_def)

lemma listing_mem:
  "listing m p limit js \<Longrightarrow> k \<in> set js \<Longrightarrow>
   \<exists>j md. m (job_ID k) = Some j \<and> p j \<and> k = j\<lparr>job_Metadata := md\<rparr>"
  unfolding listing_def listed_def by blast

lemma listing_bound: "listing m p limit js \<Longrightarrow> int (length js) \<le> max 1 limit"
  by (simp add: listing_def)

lemma listing_complete:
  "listing m p limit js \<Longrightarrow> int (length js) < limit \<Longrightarrow> m jid = Some j \<Longrightarrow> p j \<Longrightarrow>
   jid \<in> job_ID ` set js"
  by (simp add: listing_def)

text \<open>With fewer jobs in the store than the limit, a listing is complete.\<close>

lemma listing_all:
  assumes "listing m p limit js" "finite (dom m)" "int (card (dom m)) < limit" "m jid = Some j" "p j"
  shows "jid \<in> job_ID ` set js"
proof (rule listing_complete [OF assms(1) _ assms(4,5)])
  have "length js = card (job_ID ` set js)"
    using listing_distinct [OF assms(1)] by (metis distinct_card length_map set_map)
  also have "\<dots> \<le> card (dom m)"
    using listing_mem [OF assms(1)] assms(2) by (intro card_mono) (auto simp: dom_def)
  finally show "int (length js) < limit" using assms(3) by simp
qed

lemma listing_listed: "listing m p limit js \<Longrightarrow> listed m p js"
  by (simp add: listing_def)

lemma listed_mem:
  "listed m p js \<Longrightarrow> k \<in> set js \<Longrightarrow> \<exists>j md. m (job_ID k) = Some j \<and> p j \<and> k = j\<lparr>job_Metadata := md\<rparr>"
  unfolding listed_def by blast

lemma listed_mono: "listed m p js \<Longrightarrow> (\<And>j. p j \<Longrightarrow> q j) \<Longrightarrow> listed m q js"
  unfolding listed_def by blast

lemma moved_set_state [simp]: "moved st f j (set_state now st f j)"
  by (simp add: moved_def same_work_def)

lemma same_work_refl [simp]: "same_work j j"
  by (simp add: same_work_def)

lemma same_work_trans: "same_work j k \<Longrightarrow> same_work k l \<Longrightarrow> same_work j l"
  by (simp add: same_work_def)

lemma same_work_set_state [simp]: "same_work j (set_state now st f j)"
  by (simp add: same_work_def)

text \<open>What a store that is up does to the jobs, in the form the invariants use.\<close>

context job_store_total
begin

lemma update_exact:
  assumes "ext_ok x" "sinv s" "js_UpdateJobStateIf S x jid st f onlyFrom s = (e, s')"
  shows "sinv s'" "a_keys (av s') = a_keys (av s)"
    "a_jobs (av s') = a_jobs (av s) \<or>
     (\<exists>now j. a_jobs (av s) jid = Some j \<and> a_jobs (av s') = (a_jobs (av s))(jid \<mapsto> set_state now st f j))"
  using update_sound [OF assms] update_total [OF assms] by (auto split: option.splits if_splits)

end

end
