(* ===== verification/MemStore.thy ===== *)
theory MemStore
  imports Contracts
begin

text \<open>
  The in-process job store, \<^verbatim>\<open>internal/store/memory/store.go\<close>. Every method runs under the store's
  mutex, so a method is one step of the store state. The readings of the clock and the new
  identifiers a method draws, and the order in which it ranges over a map, are arguments.
\<close>

section \<open>State and helpers\<close>

record Store =
  st_jobs :: "(string, Job) gomap"
  st_byIdem :: "(string, string) gomap"
  st_executions :: "(string, JobExecution) gomap"
  st_workers :: "(string, Worker) gomap"
  st_outbox :: "OutboxRow list"

definition mem_New :: Store where
  "mem_New = \<lparr>st_jobs = [], st_byIdem = [], st_executions = [], st_workers = [], st_outbox = []\<rparr>"

fun copy_map :: "(string \<times> string) list \<Rightarrow> (string, string) gomap \<Rightarrow> (string, string) gomap" where
  "copy_map [] c = c"
| "copy_map ((k, v) # kvs) c = copy_map kvs (gput k v c)"

definition cloneJob :: "order \<Rightarrow> Job option \<Rightarrow> Job option" where
  "cloneJob ord j =
     (case j of
        None \<Rightarrow> None
      | Some j \<Rightarrow>
          Some (case job_Metadata j of
                  None \<Rightarrow> j
                | Some m \<Rightarrow> j\<lparr>job_Metadata := Some (copy_map (range_map ord m) [])\<rparr>))"

definition clone :: "order \<Rightarrow> Job \<Rightarrow> Job" where
  "clone ord j = the (cloneJob ord (Some j))"


section \<open>Jobs\<close>

definition mem_CreateJob :: "ext \<Rightarrow> Job \<Rightarrow> Store \<Rightarrow> Job res \<times> Store" where
  "mem_CreateJob x job s =
     (let job = (if job_ID job = '''' then job\<lparr>job_ID := x_uuid x 0\<rparr> else job);
          now = x_now x 0;
          job = job\<lparr>job_CreatedAt := now, job_UpdatedAt := now\<rparr>
      in if job_IdempotencyKey job \<noteq> '''' then
           (case map_of (st_byIdem s) (job_IdempotencyKey job) of
              Some jid \<Rightarrow>
                (case cloneJob (x_order x) (map_of (st_jobs s) jid) of
                   None \<Rightarrow> (Inl (Panic ''nil pointer dereference''), s)
                 | Some j \<Rightarrow> (Inr j, s))
            | None \<Rightarrow>
                (Inr job, s\<lparr>st_byIdem := gput (job_IdempotencyKey job) (job_ID job) (st_byIdem s),
                            st_jobs := gput (job_ID job) (clone (x_order x) job) (st_jobs s)\<rparr>))
         else (Inr job, s\<lparr>st_jobs := gput (job_ID job) (clone (x_order x) job) (st_jobs s)\<rparr>))"

definition mem_GetJob :: "ext \<Rightarrow> string \<Rightarrow> Store \<Rightarrow> Job res" where
  "mem_GetJob x jid s =
     (case map_of (st_jobs s) jid of
        None \<Rightarrow> Inl ErrNotFound
      | Some j \<Rightarrow> Inr (clone (x_order x) j))"

definition mem_GetJobByIdempotencyKey :: "ext \<Rightarrow> string \<Rightarrow> Store \<Rightarrow> Job option res" where
  "mem_GetJobByIdempotencyKey x key s =
     (case map_of (st_byIdem s) key of
        None \<Rightarrow> Inl ErrNotFound
      | Some jid \<Rightarrow> Inr (cloneJob (x_order x) (map_of (st_jobs s) jid)))"

definition mem_UpdateJobStateIf ::
    "ext \<Rightarrow> string \<Rightarrow> JobState \<Rightarrow> fields \<Rightarrow> JobState list \<Rightarrow> Store \<Rightarrow> Error option \<times> Store" where
  "mem_UpdateJobStateIf x jid st f onlyFrom s =
     (case map_of (st_jobs s) jid of
        None \<Rightarrow> (Some ErrNotFound, s)
      | Some j \<Rightarrow>
          if onlyFrom \<noteq> [] \<and> job_State j \<notin> set onlyFrom then (None, s)
          else (None, s\<lparr>st_jobs := gput jid (set_state (x_now x 0) st f j) (st_jobs s)\<rparr>))"

text \<open>
  The listing loops. \<open>list_loop\<close> tests the limit only after an append (\<open>ListJobs\<close>,
  \<open>ListCancelRequested\<close>, \<open>ListTimedOutRunning\<close>); \<open>due_loop\<close> tests it after every job.
\<close>

fun list_loop :: "order \<Rightarrow> (Job \<Rightarrow> bool) \<Rightarrow> int \<Rightarrow> Job list \<Rightarrow> Job list \<Rightarrow> Job list" where
  "list_loop ord p limit out [] = out"
| "list_loop ord p limit out (j # js) =
     (if \<not> p j then list_loop ord p limit out js
      else let out = out @ [clone ord j] in
           if int (length out) \<ge> limit then out else list_loop ord p limit out js)"

fun due_loop :: "order \<Rightarrow> (Job \<Rightarrow> bool) \<Rightarrow> int \<Rightarrow> Job list \<Rightarrow> Job list \<Rightarrow> Job list" where
  "due_loop ord p limit out [] = out"
| "due_loop ord p limit out (j # js) =
     (let out = (if p j then out @ [clone ord j] else out) in
      if int (length out) \<ge> limit then out else due_loop ord p limit out js)"

definition jobs_in_order :: "ext \<Rightarrow> Store \<Rightarrow> Job list" where
  "jobs_in_order x s = map snd (range_map (x_order x) (st_jobs s))"

definition mem_ListJobs :: "ext \<Rightarrow> string \<Rightarrow> int \<Rightarrow> Store \<Rightarrow> Job list res" where
  "mem_ListJobs x state limit s =
     (let limit = (if limit \<le> 0 then 50 else limit) in
      Inr (list_loop (x_order x)
             (\<lambda>j. \<not> (state \<noteq> '''' \<and> JobState_string (job_State j) \<noteq> state)) limit []
             (jobs_in_order x s)))"

definition due :: "time \<Rightarrow> Job \<Rightarrow> bool" where
  "due now j =
     (case job_State j of
        JobStateScheduled \<Rightarrow>
          (case job_ScheduledAt j of None \<Rightarrow> False | Some t \<Rightarrow> \<not> now < t)
      | JobStateRetrying \<Rightarrow>
          (case job_NextRetryAt j of None \<Rightarrow> False | Some t \<Rightarrow> \<not> now < t)
      | _ \<Rightarrow> False)"

definition mem_ListDueScheduled :: "ext \<Rightarrow> int \<Rightarrow> Store \<Rightarrow> Job list res" where
  "mem_ListDueScheduled x limit s =
     Inr (due_loop (x_order x) (due (x_now x 0)) limit [] (jobs_in_order x s))"

definition mem_ListCancelRequested :: "ext \<Rightarrow> int \<Rightarrow> Store \<Rightarrow> Job list res" where
  "mem_ListCancelRequested x limit s =
     (let limit = (if limit \<le> 0 then 50 else limit) in
      Inr (list_loop (x_order x) (\<lambda>j. job_State j = JobStateCancelRequested) limit []
             (jobs_in_order x s)))"

definition timed_out :: "time \<Rightarrow> Job \<Rightarrow> bool" where
  "timed_out now j =
     (if job_State j \<noteq> JobStateRunning \<and> job_State j \<noteq> JobStateAssigned then False
      else case job_StartedAt j of
             None \<Rightarrow> False
           | Some started \<Rightarrow>
               (let to = job_Timeout j; to = (if to \<le> 0 then 30 * Second else to) in
                started + to < now))"

definition mem_ListTimedOutRunning :: "ext \<Rightarrow> time \<Rightarrow> int \<Rightarrow> Store \<Rightarrow> Job list res" where
  "mem_ListTimedOutRunning x now limit s =
     (let limit = (if limit \<le> 0 then 50 else limit) in
      Inr (list_loop (x_order x) (timed_out now) limit [] (jobs_in_order x s)))"


section \<open>Executions\<close>

definition mem_CreateExecution :: "ext \<Rightarrow> JobExecution \<Rightarrow> Store \<Rightarrow> JobExecution res \<times> Store" where
  "mem_CreateExecution x ex s =
     (let ex = (if ex_ID ex = '''' then ex\<lparr>ex_ID := x_uuid x 0\<rparr> else ex);
          ex = ex\<lparr>ex_CreatedAt := x_now x 0\<rparr>
      in (Inr ex, s\<lparr>st_executions := gput (ex_ID ex) ex (st_executions s)\<rparr>))"

definition finish :: "time \<Rightarrow> ExecutionState \<Rightarrow> ExecutionResult \<Rightarrow> JobExecution \<Rightarrow> JobExecution" where
  "finish now state r ex =
     ex\<lparr>ex_State := state, ex_FinishedAt := Some now, ex_DurationMs := Milliseconds (er_Duration r),
        ex_Error := er_Error r, ex_Output := er_Output r, ex_Retryable := er_Retryable r\<rparr>"

definition mem_FinishExecution ::
    "ext \<Rightarrow> string \<Rightarrow> ExecutionState \<Rightarrow> ExecutionResult \<Rightarrow> Store \<Rightarrow> Error option \<times> Store" where
  "mem_FinishExecution x xid state r s =
     (case map_of (st_executions s) xid of
        None \<Rightarrow> (Some ErrNotFound, s)
      | Some ex \<Rightarrow>
          (None, s\<lparr>st_executions := gput xid (finish (x_now x 0) state r ex) (st_executions s)\<rparr>))"


section \<open>Workers\<close>

definition mem_UpsertWorker :: "ext \<Rightarrow> Worker \<Rightarrow> Store \<Rightarrow> Error option \<times> Store" where
  "mem_UpsertWorker x w s = (None, s\<lparr>st_workers := gput (wk_ID w) w (st_workers s)\<rparr>)"

definition mem_ListHealthyWorkers :: "ext \<Rightarrow> Store \<Rightarrow> Worker list res" where
  "mem_ListHealthyWorkers x s =
     Inr (filter (\<lambda>w. wk_Status w = WorkerStatusHealthy)
            (map snd (range_map (x_order x) (st_workers s))))"

definition mem_ListWorkers :: "ext \<Rightarrow> Store \<Rightarrow> Worker list res" where
  "mem_ListWorkers x s = Inr (map snd (range_map (x_order x) (st_workers s)))"

text \<open>One worker of the staleness scan: its status afterwards.\<close>

definition stale_status :: "time \<Rightarrow> time \<Rightarrow> Worker \<Rightarrow> WorkerStatus option" where
  "stale_status deadBefore suspectBefore w =
     (if wk_LastHeartbeat w < deadBefore \<and>
         (wk_Status w = WorkerStatusHealthy \<or> wk_Status w = WorkerStatusSuspected)
      then Some WorkerStatusUnavailable
      else if wk_LastHeartbeat w < suspectBefore \<and> wk_Status w = WorkerStatusHealthy
      then Some WorkerStatusSuspected
      else None)"

fun stale_loop ::
    "time \<Rightarrow> time \<Rightarrow> (string \<times> Worker) list \<Rightarrow>
     (string, Worker) gomap \<times> string list \<times> string list \<Rightarrow>
     (string, Worker) gomap \<times> string list \<times> string list" where
  "stale_loop dead susp [] acc = acc"
| "stale_loop dead susp ((wid, w) # ws) (m, suspected, unavailable) =
     (case stale_status dead susp w of
        Some WorkerStatusUnavailable \<Rightarrow>
          stale_loop dead susp ws
            (gput wid (w\<lparr>wk_Status := WorkerStatusUnavailable\<rparr>) m, suspected, unavailable @ [wid])
      | Some st \<Rightarrow>
          stale_loop dead susp ws (gput wid (w\<lparr>wk_Status := st\<rparr>) m, suspected @ [wid], unavailable)
      | None \<Rightarrow> stale_loop dead susp ws (m, suspected, unavailable))"

definition mem_MarkStaleWorkers ::
    "ext \<Rightarrow> duration \<Rightarrow> duration \<Rightarrow> Store \<Rightarrow> (string list \<times> string list) res \<times> Store" where
  "mem_MarkStaleWorkers x heartbeatTimeout grace s =
     (let now = x_now x 0;
          deadBefore = now + wrap64 (- wrap64 (heartbeatTimeout + grace));
          suspectBefore = now + wrap64 (- heartbeatTimeout)
      in case stale_loop deadBefore suspectBefore (range_map (x_order x) (st_workers s))
                (st_workers s, [], []) of
           (m, suspected, unavailable) \<Rightarrow> (Inr (suspected, unavailable), s\<lparr>st_workers := m\<rparr>))"


section \<open>Outbox\<close>

definition mem_InsertOutbox :: "ext \<Rightarrow> Event \<Rightarrow> Store \<Rightarrow> Error option \<times> Store" where
  "mem_InsertOutbox x e s =
     (None, s\<lparr>st_outbox := st_outbox s @
        [\<lparr>or_ID = ev_EventID e, or_EventType = EventType_string (ev_EventType e),
          or_AggregateID = ev_JobID e, or_Payload = None, or_CreatedAt = ev_EventTime e\<rparr>]\<rparr>)"

definition mem_FetchOutboxBatch :: "ext \<Rightarrow> int \<Rightarrow> Store \<Rightarrow> OutboxRow list res" where
  "mem_FetchOutboxBatch x limit s =
     (let limit = (if limit > int (length (st_outbox s)) then int (length (st_outbox s)) else limit) in
      if limit < 0 then Inl (Panic ''makeslice: len out of range'')
      else Inr (take (nat limit) (st_outbox s)))"

definition mem_MarkOutboxPublished :: "ext \<Rightarrow> string list \<Rightarrow> Store \<Rightarrow> Error option \<times> Store" where
  "mem_MarkOutboxPublished x ids s =
     (None, s\<lparr>st_outbox := filter (\<lambda>r. or_ID r \<notin> set ids) (st_outbox s)\<rparr>)"

definition mem_OutboxLen :: "Store \<Rightarrow> nat" where
  "mem_OutboxLen s = length (st_outbox s)"


section \<open>The store as a \<open>JobStore\<close>\<close>

definition memory_store :: "Store JobStore" where
  "memory_store =
     \<lparr>js_CreateJob = mem_CreateJob, js_GetJob = mem_GetJob,
      js_GetJobByIdempotencyKey = mem_GetJobByIdempotencyKey,
      js_UpdateJobStateIf = mem_UpdateJobStateIf, js_ListJobs = mem_ListJobs,
      js_ListDueScheduled = mem_ListDueScheduled,
      js_ListCancelRequested = mem_ListCancelRequested,
      js_ListTimedOutRunning = mem_ListTimedOutRunning,
      js_CreateExecution = mem_CreateExecution, js_FinishExecution = mem_FinishExecution,
      js_UpsertWorker = mem_UpsertWorker, js_ListHealthyWorkers = mem_ListHealthyWorkers,
      js_ListWorkers = mem_ListWorkers, js_MarkStaleWorkers = mem_MarkStaleWorkers,
      js_InsertOutbox = mem_InsertOutbox, js_FetchOutboxBatch = mem_FetchOutboxBatch,
      js_MarkOutboxPublished = mem_MarkOutboxPublished\<rparr>"


section \<open>Abstraction and representation invariant\<close>

definition mem_abs :: "Store \<Rightarrow> AbsStore" where
  "mem_abs s = \<lparr>a_jobs = map_of (st_jobs s), a_keys = map_of (st_byIdem s),
                a_execs = map_of (st_executions s), a_workers = map_of (st_workers s)\<rparr>"

definition mem_inv :: "Store \<Rightarrow> bool" where
  "mem_inv s \<longleftrightarrow>
     gomap_wf (st_jobs s) \<and> gomap_wf (st_byIdem s) \<and> gomap_wf (st_executions s) \<and>
     gomap_wf (st_workers s) \<and>
     (\<forall>jid j. map_of (st_jobs s) jid = Some j \<longrightarrow> job_ID j = jid) \<and>
     (\<forall>key jid. map_of (st_byIdem s) key = Some jid \<longrightarrow> map_of (st_jobs s) jid \<noteq> None)"

lemma mem_inv_New [simp]: "mem_inv mem_New"
  by (simp add: mem_inv_def mem_New_def)


section \<open>Copies of jobs\<close>

lemma map_of_copy_map:
  "\<forall>(k, v)\<in>set kvs. map_of m k = Some v \<Longrightarrow>
   map_of (copy_map kvs c) k = (if k \<in> fst ` set kvs then map_of m k else map_of c k)"
  by (induction kvs c rule: copy_map.induct) auto

lemma copy_map_range:
  assumes "order_ok ord"
  shows "map_of (copy_map (range_map ord m) []) = map_of m"
proof
  fix k
  have "\<forall>(k, v)\<in>set (range_map ord m). map_of m k = Some v"
    using assms by (simp add: set_range_map)
  moreover have "k \<in> fst ` set (range_map ord m) \<longleftrightarrow> map_of m k \<noteq> None"
    using assms by (force simp: set_range_map)
  ultimately show "map_of (copy_map (range_map ord m) []) k = map_of m k"
    by (simp add: map_of_copy_map)
qed

lemma clone_eq:
  assumes "order_ok ord"
  shows "\<exists>md. clone ord j = j\<lparr>job_Metadata := md\<rparr> \<and> same_metadata (job_Metadata j) md"
proof (cases "job_Metadata j")
  case None
  then have "clone ord j = j\<lparr>job_Metadata := job_Metadata j\<rparr>" by (simp add: clone_def cloneJob_def)
  then show ?thesis by (metis same_metadata_refl)
next
  case (Some m)
  then show ?thesis
    using copy_map_range [OF assms, of m]
    by (auto simp: clone_def cloneJob_def same_metadata_def)
qed

lemma cloneJob_Some: "cloneJob ord (Some j) = Some (clone ord j)"
  by (simp add: clone_def cloneJob_def)

lemma cloneJob_None [simp]: "cloneJob ord None = None"
  by (simp add: cloneJob_def)

lemma job_ID_clone [simp]: "job_ID (clone ord j) = job_ID j"
  by (simp add: clone_def cloneJob_def split: option.splits)


section \<open>Listings\<close>

lemma list_loop_take:
  "\<exists>n. list_loop ord p limit out js = out @ map (clone ord) (take n (filter p js)) \<and>
       (int (length (list_loop ord p limit out js)) < limit \<longrightarrow> length (filter p js) \<le> n)"
proof (induction js arbitrary: out)
  case (Cons j js)
  show ?case
  proof (cases "p j \<and> \<not> limit \<le> int (length out) + 1")
    case True
    with Cons.IH [of "out @ [clone ord j]"] obtain n where
      "list_loop ord p limit out (j # js) = out @ map (clone ord) (take (Suc n) (filter p (j # js)))"
      "int (length (list_loop ord p limit out (j # js))) < limit \<longrightarrow> length (filter p js) \<le> n"
      by auto
    with True show ?thesis by (intro exI [of _ "Suc n"]) (simp del: list_loop.simps)
  next
    case False
    with Cons.IH [of out] show ?thesis
      by (cases "p j") (auto intro: exI [of _ "1 :: nat"])
  qed
qed simp

lemma list_loop_bound:
  "int (length out) \<le> max 0 (limit - 1) \<Longrightarrow> int (length (list_loop ord p limit out js)) \<le> max 1 limit"
  by (induction js arbitrary: out) (auto simp: Let_def)

lemma due_loop_bound:
  "int (length out) \<le> max 0 (limit - 1) \<Longrightarrow> int (length (due_loop ord p limit out js)) \<le> max 1 limit"
  by (induction js arbitrary: out) (auto simp: Let_def)

lemma due_loop_take:
  "\<exists>n. due_loop ord p limit out js = out @ map (clone ord) (take n (filter p js)) \<and>
       (int (length (due_loop ord p limit out js)) < limit \<longrightarrow> length (filter p js) \<le> n)"
proof (induction js arbitrary: out)
  case (Cons j js)
  define out' where "out' = (if p j then out @ [clone ord j] else out)"
  show ?case
  proof (cases "limit \<le> int (length out')")
    case True
    then show ?thesis
      by (cases "p j") (simp_all add: out'_def exI [of _ "1 :: nat"] exI [of _ "0 :: nat"])
  next
    case False
    then have step: "due_loop ord p limit out (j # js) = due_loop ord p limit out' js"
      by (simp add: out'_def Let_def)
    obtain n where
      n: "due_loop ord p limit out (j # js) = out' @ map (clone ord) (take n (filter p js))"
      "int (length (due_loop ord p limit out (j # js))) < limit \<longrightarrow> length (filter p js) \<le> n"
      using Cons.IH [of out'] unfolding step by blast
    show ?thesis
    proof (intro exI [of _ "if p j then Suc n else n"] conjI impI)
      show "due_loop ord p limit out (j # js) =
              out @ map (clone ord) (take (if p j then Suc n else n) (filter p (j # js)))"
        unfolding n(1) by (simp add: out'_def)
    qed (use n(2) in \<open>simp del: due_loop.simps\<close>)
  qed
qed simp

lemma list_loop_exact:
  "int (length out) < limit \<Longrightarrow>
   list_loop ord p limit out js = out @ map (clone ord) (take (nat limit - length out) (filter p js))"
proof (induction js arbitrary: out)
  case (Cons j js)
  show ?case
  proof (cases "p j \<and> \<not> limit \<le> int (length out) + 1")
    case True
    then have "nat limit - length out = Suc (nat limit - length (out @ [clone ord j]))"
      by (simp, linarith)
    with True Cons.IH [of "out @ [clone ord j]"] show ?thesis by simp
  next
    case False
    show ?thesis
    proof (cases "p j")
      case True
      with False Cons.prems have "nat limit - length out = 1" by linarith
      with True False show ?thesis by simp
    qed (use Cons in simp)
  qed
qed simp

lemma due_loop_exact:
  "int (length out) < limit \<Longrightarrow> due_loop ord p limit out js = list_loop ord p limit out js"
  by (induction js arbitrary: out) (auto simp: Let_def)

lemma set_jobs_in_order:
  assumes "ext_ok x" "mem_inv s"
  shows "j \<in> set (jobs_in_order x s) \<longleftrightarrow> map_of (st_jobs s) (job_ID j) = Some j"
proof -
  have "set (jobs_in_order x s) = {j. \<exists>k. map_of (st_jobs s) k = Some j}"
    using assms(1) by (force simp: jobs_in_order_def ext_ok_def set_range_map)
  then show ?thesis using assms(2) by (auto simp: mem_inv_def)
qed

lemma distinct_jobs_in_order:
  assumes "ext_ok x" "mem_inv s"
  shows "distinct (map job_ID (jobs_in_order x s))"
proof -
  have "map (job_ID \<circ> snd) (range_map (x_order x) (st_jobs s)) = map fst (range_map (x_order x) (st_jobs s))"
    using assms by (force simp: ext_ok_def set_range_map mem_inv_def)
  moreover have "distinct (map fst (range_map (x_order x) (st_jobs s)))"
    using assms by (simp add: ext_ok_def distinct_range_map mem_inv_def)
  ultimately show ?thesis by (simp only: jobs_in_order_def map_map)
qed

lemma clone_listed:
  assumes "ext_ok x" "m (job_ID j) = Some j" "p j"
  shows "\<exists>j' md. m (job_ID (clone (x_order x) j)) = Some j' \<and> p j' \<and>
           clone (x_order x) j = j'\<lparr>job_Metadata := md\<rparr> \<and> same_metadata (job_Metadata j') md"
proof -
  obtain md where "clone (x_order x) j = j\<lparr>job_Metadata := md\<rparr>" "same_metadata (job_Metadata j) md"
    using clone_eq [of "x_order x" j] assms(1) unfolding ext_ok_def by blast
  moreover have "m (job_ID (clone (x_order x) j)) = Some j" by (simp only: job_ID_clone assms(2))
  ultimately show ?thesis using assms(3) by blast
qed

lemma listing_map_clone:
  assumes x: "ext_ok x" and d: "distinct (map job_ID js)"
    and sub: "\<And>j. j \<in> set js \<Longrightarrow> m (job_ID j) = Some j \<and> p j"
    and all: "\<And>jid j. int (length js) < limit \<Longrightarrow> m jid = Some j \<Longrightarrow> p j \<Longrightarrow> jid \<in> job_ID ` set js"
    and short: "int (length js) \<le> max 1 limit"
  shows "listing m p limit (map (clone (x_order x)) js)"
  unfolding listing_def listed_def
proof (intro conjI ballI impI allI)
  show "distinct (map job_ID (map (clone (x_order x)) js))" using d by (simp add: comp_def)
  show "int (length (map (clone (x_order x)) js)) \<le> max 1 limit" using short by simp
next
  fix k
  assume "k \<in> set (map (clone (x_order x)) js)"
  then obtain j where "j \<in> set js" "k = clone (x_order x) j" by auto
  then show "\<exists>j md. m (job_ID k) = Some j \<and> p j \<and>
      k = j\<lparr>job_Metadata := md\<rparr> \<and> same_metadata (job_Metadata j) md"
    using clone_listed [OF x, of m j p] sub [of j] by (simp only:)
next
  fix jid j
  assume "int (length (map (clone (x_order x)) js)) < limit" "m jid = Some j \<and> p j"
  then have "jid \<in> job_ID ` set js" by (simp add: all)
  then show "jid \<in> job_ID ` set (map (clone (x_order x)) js)" by (simp add: image_image)
qed

lemma listing_take:
  assumes x: "ext_ok x" and s: "mem_inv s"
    and short: "int (length (take n (filter p (jobs_in_order x s)))) < limit \<Longrightarrow>
         length (filter p (jobs_in_order x s)) \<le> n"
    and bound: "int (length (take n (filter p (jobs_in_order x s)))) \<le> max 1 limit"
  shows "listing (map_of (st_jobs s)) p limit
           (map (clone (x_order x)) (take n (filter p (jobs_in_order x s))))"
proof (rule listing_map_clone [OF x])
  have "distinct (map job_ID (filter p (jobs_in_order x s)))"
    by (rule distinct_map_filter) (rule distinct_jobs_in_order [OF x s])
  then show "distinct (map job_ID (take n (filter p (jobs_in_order x s))))"
    unfolding take_map [symmetric] by (rule distinct_take)
next
  fix j
  assume "j \<in> set (take n (filter p (jobs_in_order x s)))"
  then have "j \<in> set (filter p (jobs_in_order x s))" by (rule in_set_takeD)
  then show "map_of (st_jobs s) (job_ID j) = Some j \<and> p j" by (simp add: set_jobs_in_order [OF x s])
next
  fix jid j
  assume "int (length (take n (filter p (jobs_in_order x s)))) < limit"
    and j: "map_of (st_jobs s) jid = Some j" "p j"
  then have all: "take n (filter p (jobs_in_order x s)) = filter p (jobs_in_order x s)"
    by (intro take_all short)
  have id: "job_ID j = jid" using j(1) s unfolding mem_inv_def by blast
  then have "j \<in> set (filter p (jobs_in_order x s))"
    using j by (simp add: set_jobs_in_order [OF x s])
  then have "job_ID j \<in> job_ID ` set (filter p (jobs_in_order x s))" by (rule imageI)
  then show "jid \<in> job_ID ` set (take n (filter p (jobs_in_order x s)))"
    by (simp only: all id)
qed (rule bound)


section \<open>The staleness scan\<close>

lemma stale_status_eq:
  assumes "0 \<le> d1" "0 \<le> d2" "d1 + d2 < 2 ^ 63"
  shows "stale_status (now + wrap64 (- wrap64 (d1 + d2))) (now + wrap64 (- d1)) w =
         (if lost now d1 d2 w then Some WorkerStatusUnavailable
          else if suspect now d1 d2 w then Some WorkerStatusSuspected else None)"
  using assms by (auto simp: stale_status_def lost_def suspect_def)

lemma stale_status_range:
  "stale_status dead susp w = Some st \<Longrightarrow> st = WorkerStatusUnavailable \<or> st = WorkerStatusSuspected"
  by (auto simp: stale_status_def split: if_splits)

lemma stale_loop_Cons:
  "stale_loop dead susp ((wid, w) # ws) (m, su, un) =
     (case stale_status dead susp w of
        None \<Rightarrow> stale_loop dead susp ws (m, su, un)
      | Some st \<Rightarrow>
          stale_loop dead susp ws
            (gput wid (w\<lparr>wk_Status := st\<rparr>) m,
             if st = WorkerStatusUnavailable then su else su @ [wid],
             if st = WorkerStatusUnavailable then un @ [wid] else un))"
  by (auto split: option.splits WorkerStatus.splits)

lemma stale_loop_lists:
  "snd (stale_loop dead susp ws (m, su, un)) =
     (su @ map fst (filter (\<lambda>p. stale_status dead susp (snd p) = Some WorkerStatusSuspected) ws),
      un @ map fst (filter (\<lambda>p. stale_status dead susp (snd p) = Some WorkerStatusUnavailable) ws))"
proof (induction ws arbitrary: m su un)
  case (Cons p ws)
  obtain wid w where p: "p = (wid, w)" by (cases p)
  show ?case
  proof (cases "stale_status dead susp w")
    case None
    then show ?thesis using Cons.IH by (simp add: p)
  next
    case (Some st)
    then show ?thesis using Cons.IH stale_status_range [OF Some] by (auto simp: p)
  qed
qed simp

lemma stale_loop_map:
  "distinct (map fst ws) \<Longrightarrow>
   map_of (fst (stale_loop dead susp ws (m, su, un))) i =
     (case map_of ws i of
        None \<Rightarrow> map_of m i
      | Some w \<Rightarrow> (case stale_status dead susp w of
                    None \<Rightarrow> map_of m i | Some st \<Rightarrow> Some (w\<lparr>wk_Status := st\<rparr>)))"
proof (induction ws arbitrary: m su un)
  case (Cons p ws)
  obtain wid w where p: "p = (wid, w)" by (cases p)
  with Cons.prems have "map_of ws wid = None" by (simp add: map_of_eq_None_iff)
  with Cons p show ?case
    by (cases "stale_status dead susp w")
      (auto simp: stale_loop_Cons simp del: stale_loop.simps split: option.splits)
qed simp

lemma stale_loop_wf:
  "gomap_wf m \<Longrightarrow> gomap_wf (fst (stale_loop dead susp ws (m, su, un)))"
proof (induction ws arbitrary: m su un)
  case (Cons p ws)
  obtain wid w where p: "p = (wid, w)" by (cases p)
  show ?case
    using Cons by (cases "stale_status dead susp w")
      (auto simp: p stale_loop_Cons simp del: stale_loop.simps)
qed simp

lemma mem_MarkStaleWorkers_eq:
  "mem_MarkStaleWorkers x d1 d2 s =
     (let r = stale_loop (x_now x 0 + wrap64 (- wrap64 (d1 + d2))) (x_now x 0 + wrap64 (- d1))
                (range_map (x_order x) (st_workers s)) (st_workers s, [], [])
      in (Inr (snd r), s\<lparr>st_workers := fst r\<rparr>))"
  by (simp add: mem_MarkStaleWorkers_def Let_def split: prod.splits)


section \<open>Operations\<close>

text \<open>
  Each operation keeps the invariant and has on the four maps the effect its contract names.
\<close>

lemma mem_GetJob_cases:
  assumes "ext_ok x"
  shows "case map_of (st_jobs s) jid of
           None \<Rightarrow> mem_GetJob x jid s = Inl ErrNotFound
         | Some j \<Rightarrow> \<exists>md. mem_GetJob x jid s = Inr (j\<lparr>job_Metadata := md\<rparr>) \<and>
                          same_metadata (job_Metadata j) md"
  using clone_eq [of "x_order x"] assms
  by (auto simp: mem_GetJob_def ext_ok_def split: option.splits)

lemma mem_UpdateJobStateIf_abs:
  assumes "mem_UpdateJobStateIf x jid st f onlyFrom s = (e, s')"
  shows "case map_of (st_jobs s) jid of
           None \<Rightarrow> e = Some ErrNotFound \<and> mem_abs s' = mem_abs s
         | Some j \<Rightarrow>
             e = None \<and>
             (if onlyFrom \<noteq> [] \<and> job_State j \<notin> set onlyFrom then mem_abs s' = mem_abs s
              else mem_abs s' = (mem_abs s)\<lparr>a_jobs := (map_of (st_jobs s))(jid \<mapsto> set_state (x_now x 0) st f j)\<rparr>)"
  using assms
  by (auto simp: mem_UpdateJobStateIf_def mem_abs_def split: option.splits if_splits)

lemma mem_inv_UpdateJobStateIf:
  "mem_inv s \<Longrightarrow> mem_UpdateJobStateIf x jid st f onlyFrom s = (e, s') \<Longrightarrow> mem_inv s'"
  by (auto simp: mem_UpdateJobStateIf_def mem_inv_def split: option.splits if_splits)

lemma mem_CreateJob_new:
  assumes "job_IdempotencyKey job = '''' \<or> map_of (st_byIdem s) (job_IdempotencyKey job) = None"
  shows "mem_CreateJob x job s =
    (Inr (stored job (new_id x job) (x_now x 0) (job_Metadata job)),
     s\<lparr>st_jobs := gput (new_id x job)
          (clone (x_order x) (stored job (new_id x job) (x_now x 0) (job_Metadata job))) (st_jobs s),
       st_byIdem := if job_IdempotencyKey job = '''' then st_byIdem s
          else gput (job_IdempotencyKey job) (new_id x job) (st_byIdem s)\<rparr>)"
  using assms by (auto simp: mem_CreateJob_def stored_def new_id_def Let_def)

lemma mem_CreateJob_replay:
  assumes "job_IdempotencyKey job \<noteq> ''''" "map_of (st_byIdem s) (job_IdempotencyKey job) = Some jid"
    and "map_of (st_jobs s) jid = Some j"
  shows "mem_CreateJob x job s = (Inr (clone (x_order x) j), s)"
  using assms by (simp add: mem_CreateJob_def Let_def cloneJob_Some)

lemma mem_inv_CreateJob:
  assumes "mem_inv s" "mem_CreateJob x job s = (r, s')"
  shows "mem_inv s'"
proof (cases "job_IdempotencyKey job = '''' \<or> map_of (st_byIdem s) (job_IdempotencyKey job) = None")
  case True
  from mem_CreateJob_new [OF this, of x] assms show ?thesis
    by (auto simp: mem_inv_def)
next
  case False
  then obtain jid j where "map_of (st_byIdem s) (job_IdempotencyKey job) = Some jid"
    "map_of (st_jobs s) jid = Some j"
    using assms(1) unfolding mem_inv_def by blast
  with False assms show ?thesis by (simp add: mem_CreateJob_replay)
qed

lemma mem_CreateJob_abs:
  assumes "ext_ok x" "mem_inv s" "mem_CreateJob x job s = (r, s')"
  shows "if job_IdempotencyKey job \<noteq> '''' \<and> a_keys (mem_abs s) (job_IdempotencyKey job) \<noteq> None
         then mem_abs s' = mem_abs s \<and>
              (\<exists>jid j md. a_keys (mem_abs s) (job_IdempotencyKey job) = Some jid \<and>
                         a_jobs (mem_abs s) jid = Some j \<and> r = Inr (j\<lparr>job_Metadata := md\<rparr>) \<and>
                         same_metadata (job_Metadata j) md)
         else let i = new_id x job; t = x_now x 0 in
              r = Inr (stored job i t (job_Metadata job)) \<and>
              (\<exists>md. same_metadata (job_Metadata job) md \<and>
                mem_abs s' = (mem_abs s)\<lparr>a_jobs := (a_jobs (mem_abs s))(i \<mapsto> stored job i t md),
                   a_keys := (if job_IdempotencyKey job = '''' then a_keys (mem_abs s)
                              else (a_keys (mem_abs s))(job_IdempotencyKey job \<mapsto> i))\<rparr>)"
proof (cases "job_IdempotencyKey job \<noteq> '''' \<and> map_of (st_byIdem s) (job_IdempotencyKey job) \<noteq> None")
  case True
  then obtain jid j where key: "map_of (st_byIdem s) (job_IdempotencyKey job) = Some jid"
    and j: "map_of (st_jobs s) jid = Some j"
    using assms(2) unfolding mem_inv_def by blast
  then have "r = Inr (clone (x_order x) j)" "s' = s"
    using assms(3) True by (auto simp: mem_CreateJob_replay)
  moreover obtain md where "clone (x_order x) j = j\<lparr>job_Metadata := md\<rparr>" "same_metadata (job_Metadata j) md"
    using clone_eq [of "x_order x" j] assms(1) unfolding ext_ok_def by blast
  ultimately show ?thesis using True key j by (auto simp: mem_abs_def)
next
  case False
  let ?j = "stored job (new_id x job) (x_now x 0) (job_Metadata job)"
  obtain md where md: "clone (x_order x) ?j = ?j\<lparr>job_Metadata := md\<rparr>" "same_metadata (job_Metadata ?j) md"
    using clone_eq [of "x_order x" ?j] assms(1) unfolding ext_ok_def by blast
  then have "clone (x_order x) ?j = stored job (new_id x job) (x_now x 0) md"
    "same_metadata (job_Metadata job) md"
    by (simp_all add: stored_def)
  with False assms(3) show ?thesis
    by (auto simp: mem_CreateJob_new mem_abs_def Let_def)
qed

lemma mem_MarkStaleWorkers_abs:
  assumes x: "ext_ok x" and s: "mem_inv s" and d: "0 \<le> d1" "0 \<le> d2" "d1 + d2 < 2 ^ 63"
    and eq: "mem_MarkStaleWorkers x d1 d2 s = (r, s')"
  shows "(\<exists>sus una. r = Inr (sus, una) \<and> distinct una \<and> distinct sus \<and>
            set una = {i. \<exists>w. map_of (st_workers s) i = Some w \<and> lost (x_now x 0) d1 d2 w} \<and>
            set sus = {i. \<exists>w. map_of (st_workers s) i = Some w \<and> suspect (x_now x 0) d1 d2 w}) \<and>
         mem_abs s' = (mem_abs s)\<lparr>a_workers := map_option (after_scan (x_now x 0) d1 d2) \<circ> map_of (st_workers s)\<rparr>"
    (is "?lists \<and> ?map")
proof
  let ?ws = "range_map (x_order x) (st_workers s)"
  let ?r = "stale_loop (x_now x 0 + wrap64 (- wrap64 (d1 + d2))) (x_now x 0 + wrap64 (- d1)) ?ws (st_workers s, [], [])"
  have o: "order_ok (x_order x)" and wf: "gomap_wf (st_workers s)"
    using x s by (simp_all add: ext_ok_def mem_inv_def)
  have dist: "distinct (map fst ?ws)" by (rule distinct_range_map [OF o wf])
  have rs: "r = Inr (snd ?r)" "s' = s\<lparr>st_workers := fst ?r\<rparr>"
    using eq by (simp_all add: mem_MarkStaleWorkers_eq Let_def)
  show ?lists
    unfolding rs stale_loop_lists stale_status_eq [OF d]
    using dist set_range_map [OF o, of "st_workers s"]
    by (auto simp: distinct_map_filter suspect_def image_iff split: if_splits)
  have "map_of (fst ?r) i = map_option (after_scan (x_now x 0) d1 d2) (map_of (st_workers s) i)" for i
    unfolding stale_loop_map [OF dist] stale_status_eq [OF d] map_of_range_map [OF o wf]
    by (simp add: after_scan_def split: option.splits)
  then show ?map by (auto simp: rs mem_abs_def)
qed

lemma mem_inv_MarkStaleWorkers:
  "mem_inv s \<Longrightarrow> mem_MarkStaleWorkers x d1 d2 s = (r, s') \<Longrightarrow> mem_inv s'"
  by (auto simp: mem_MarkStaleWorkers_eq Let_def mem_inv_def stale_loop_wf)

lemma due_iff: "due now j \<longleftrightarrow> is_due now j"
  by (cases "job_State j") (auto simp: due_def is_due_def not_less split: option.splits)

lemma timed_out_iff: "timed_out now j \<longleftrightarrow> is_overdue now j"
  by (auto simp: timed_out_def is_overdue_def Let_def split: option.splits)

lemma mem_abs_sel [simp]:
  "a_jobs (mem_abs s) = map_of (st_jobs s)" "a_keys (mem_abs s) = map_of (st_byIdem s)"
  "a_execs (mem_abs s) = map_of (st_executions s)" "a_workers (mem_abs s) = map_of (st_workers s)"
  by (simp_all add: mem_abs_def)

lemma list_loop_listing:
  assumes "ext_ok x" "mem_inv s"
  shows "listing (map_of (st_jobs s)) p limit (list_loop (x_order x) p limit [] (jobs_in_order x s))"
proof -
  obtain n where n: "list_loop (x_order x) p limit [] (jobs_in_order x s) =
      map (clone (x_order x)) (take n (filter p (jobs_in_order x s)))"
    "int (length (list_loop (x_order x) p limit [] (jobs_in_order x s))) < limit \<longrightarrow>
      length (filter p (jobs_in_order x s)) \<le> n"
    using list_loop_take [of "x_order x" p limit "[]" "jobs_in_order x s"] unfolding append_Nil by blast
  have b: "int (length (list_loop (x_order x) p limit [] (jobs_in_order x s))) \<le> max 1 limit"
    by (rule list_loop_bound) simp
  show ?thesis
    unfolding n(1) by (rule listing_take [OF assms]) (use n(2) [unfolded n(1) length_map] b [unfolded n(1) length_map] in blast)+
qed

lemma due_loop_listing:
  assumes "ext_ok x" "mem_inv s"
  shows "listing (map_of (st_jobs s)) p limit (due_loop (x_order x) p limit [] (jobs_in_order x s))"
proof -
  obtain n where n: "due_loop (x_order x) p limit [] (jobs_in_order x s) =
      map (clone (x_order x)) (take n (filter p (jobs_in_order x s)))"
    "int (length (due_loop (x_order x) p limit [] (jobs_in_order x s))) < limit \<longrightarrow>
      length (filter p (jobs_in_order x s)) \<le> n"
    using due_loop_take [of "x_order x" p limit "[]" "jobs_in_order x s"] unfolding append_Nil by blast
  have b: "int (length (due_loop (x_order x) p limit [] (jobs_in_order x s))) \<le> max 1 limit"
    by (rule due_loop_bound) simp
  show ?thesis
    unfolding n(1) by (rule listing_take [OF assms]) (use n(2) [unfolded n(1) length_map] b [unfolded n(1) length_map] in blast)+
qed

section \<open>The memory store meets the store contract\<close>

lemma memory_store_sel [simp]:
  "js_CreateJob memory_store = mem_CreateJob" "js_GetJob memory_store = mem_GetJob"
  "js_UpdateJobStateIf memory_store = mem_UpdateJobStateIf"
  "js_ListJobs memory_store = mem_ListJobs"
  "js_ListDueScheduled memory_store = mem_ListDueScheduled"
  "js_ListCancelRequested memory_store = mem_ListCancelRequested"
  "js_ListTimedOutRunning memory_store = mem_ListTimedOutRunning"
  "js_CreateExecution memory_store = mem_CreateExecution"
  "js_FinishExecution memory_store = mem_FinishExecution"
  "js_UpsertWorker memory_store = mem_UpsertWorker"
  "js_MarkStaleWorkers memory_store = mem_MarkStaleWorkers"
  "js_InsertOutbox memory_store = mem_InsertOutbox"
  by (simp_all add: memory_store_def)

lemma mem_CreateExecution_abs:
  assumes "mem_CreateExecution x ex s = (r, s')" "ex_ID ex \<noteq> ''''"
  shows "r = Inr (ex\<lparr>ex_CreatedAt := x_now x 0\<rparr>)"
    "mem_abs s' = (mem_abs s)\<lparr>a_execs := (map_of (st_executions s))(ex_ID ex \<mapsto> ex\<lparr>ex_CreatedAt := x_now x 0\<rparr>)\<rparr>"
  using assms by (auto simp: mem_CreateExecution_def mem_abs_def Let_def)

lemma mem_FinishExecution_abs:
  assumes "mem_FinishExecution x xid est res s = (e, s')"
  shows "mem_abs s' = (mem_abs s)\<lparr>a_execs :=
           (\<lambda>i. if i = xid then map_option (finished (x_now x 0) est res) (map_of (st_executions s) i)
                else map_of (st_executions s) i)\<rparr>"
  using assms
  by (auto simp: mem_FinishExecution_def mem_abs_def finish_def finished_def split: option.splits)

lemma mem_inv_upd [simp]:
  "mem_inv (s\<lparr>st_outbox := ob\<rparr>) = mem_inv s"
  "mem_inv s \<Longrightarrow> mem_inv (s\<lparr>st_executions := gput xid ex (st_executions s)\<rparr>)"
  "mem_inv s \<Longrightarrow> mem_inv (s\<lparr>st_workers := gput wid wk (st_workers s)\<rparr>)"
  by (simp_all add: mem_inv_def)

lemma mem_inv_frame:
  "mem_inv s \<Longrightarrow> mem_CreateExecution x ex s = (r, s') \<Longrightarrow> mem_inv s'"
  "mem_inv s \<Longrightarrow> mem_FinishExecution x xid est res s = (e, s') \<Longrightarrow> mem_inv s'"
  "mem_inv s \<Longrightarrow> mem_UpsertWorker x wk s = (e, s') \<Longrightarrow> mem_inv s'"
  by (auto simp: mem_CreateExecution_def mem_FinishExecution_def mem_UpsertWorker_def Let_def
      split: option.splits)

lemma mem_jobs_frame:
  "mem_CreateExecution x ex s = (r, s') \<Longrightarrow> st_jobs s' = st_jobs s"
  "mem_FinishExecution x xid est res s = (e, s') \<Longrightarrow> st_jobs s' = st_jobs s"
  "mem_UpsertWorker x wk s = (e, s') \<Longrightarrow> st_jobs s' = st_jobs s"
  "mem_MarkStaleWorkers x d1 d2 s = (r2, s') \<Longrightarrow> st_jobs s' = st_jobs s"
  by (auto simp: mem_CreateExecution_def mem_FinishExecution_def mem_UpsertWorker_def
      mem_MarkStaleWorkers_eq Let_def split: option.splits)

lemma mem_keys_frame:
  "mem_CreateExecution x ex s = (r, s') \<Longrightarrow> st_byIdem s' = st_byIdem s"
  "mem_FinishExecution x xid est res s = (e, s') \<Longrightarrow> st_byIdem s' = st_byIdem s"
  "mem_UpsertWorker x wk s = (e, s') \<Longrightarrow> st_byIdem s' = st_byIdem s"
  "mem_MarkStaleWorkers x d1 d2 s = (r2, s') \<Longrightarrow> st_byIdem s' = st_byIdem s"
  by (auto simp: mem_CreateExecution_def mem_FinishExecution_def mem_UpsertWorker_def
      mem_MarkStaleWorkers_eq Let_def split: option.splits)

interpretation mem: job_store memory_store mem_abs mem_inv
proof (unfold_locales, unfold memory_store_sel mem_abs_sel, goal_cases)
  case (1 x s jid k)
  then show ?case using mem_GetJob_cases [of x jid s] by (auto split: option.splits)
next
  case (2 s jid j)
  then show ?case by (simp add: mem_inv_def)
next
  case (3 x s jid st f onlyFrom e s')
  then show ?case
    using mem_inv_UpdateJobStateIf [OF 3(2,3)] mem_UpdateJobStateIf_abs [OF 3(3)]
    by (fastforce simp: mem_abs_def intro: moved_set_state split: option.splits if_splits)
next
  case (4 x s job r s')
  note abs = mem_CreateJob_abs [OF 4] and s' = mem_inv_CreateJob [OF 4(2,3)]
  show ?case
  proof (cases "job_IdempotencyKey job \<noteq> '''' \<and> map_of (st_byIdem s) (job_IdempotencyKey job) \<noteq> None")
    case True
    with abs s' 4(2) show ?thesis by (auto simp: mem_abs_def mem_inv_def)
  next
    case False
    with abs obtain md where "r = Inr (stored job (new_id x job) (x_now x 0) (job_Metadata job))"
      "map_of (st_jobs s') = (map_of (st_jobs s))(new_id x job \<mapsto> stored job (new_id x job) (x_now x 0) md)"
      "map_of (st_byIdem s') = (if job_IdempotencyKey job = '''' then map_of (st_byIdem s)
         else (map_of (st_byIdem s))(job_IdempotencyKey job \<mapsto> new_id x job))"
      by (auto simp: mem_abs_def Let_def)
    with s' show ?thesis
      by (intro conjI disjI2 exI [of _ "stored job (new_id x job) (x_now x 0) md"]) simp_all
  qed
next
  case (5 x s ex r' s')
  then show ?case using mem_inv_frame(1) [OF 5(2,3)] mem_jobs_frame(1) [OF 5(3)] mem_keys_frame(1) [OF 5(3)] by simp
next
  case (6 x s xid est res e s')
  then show ?case using mem_inv_frame(2) [OF 6(2,3)] mem_jobs_frame(2) [OF 6(3)] mem_keys_frame(2) [OF 6(3)] by simp
next
  case (7 x s wk e s')
  then show ?case using mem_inv_frame(3) [OF 7(2,3)] mem_jobs_frame(3) [OF 7(3)] mem_keys_frame(3) [OF 7(3)] by simp
next
  case (8 x s d1 d2 r'' s')
  then show ?case using mem_inv_MarkStaleWorkers [OF 8(2,3)] mem_jobs_frame(4) [OF 8(3)] mem_keys_frame(4) [OF 8(3)] by simp
next
  case (9 x s st' limit js)
  then show ?case
    using listing_listed [OF list_loop_listing [OF 9(1,2), of "\<lambda>j. \<not> (st' \<noteq> '''' \<and> JobState_string (job_State j) \<noteq> st')"]]
    by (auto simp: mem_ListJobs_def Let_def)
next
  case (10 x s limit js)
  then show ?case
    using listing_listed [OF list_loop_listing [OF 10(1,2)]] by (auto simp: mem_ListCancelRequested_def Let_def)
next
  case (11 x s now limit js)
  have "listed (map_of (st_jobs s)) (timed_out now) js"
    using listing_listed [OF list_loop_listing [OF 11(1,2)]] 11(3) by (auto simp: mem_ListTimedOutRunning_def Let_def)
  then show ?case by (rule listed_mono) (auto simp: timed_out_def split: if_splits)
qed

interpretation mem: job_store_total memory_store mem_abs mem_inv
proof (unfold_locales, unfold memory_store_sel mem_abs_sel, goal_cases)
  case (1 x s jid)
  then show ?case by (intro mem_GetJob_cases)
next
  case (2 x s jid st f onlyFrom e s')
  then show ?case by (intro mem_UpdateJobStateIf_abs)
next
  case (3 x s job r s')
  then show ?case using mem_CreateJob_abs [OF 3] by (simp only: mem_abs_sel)
next
  case (4 x s ex r' s')
  then show ?case using mem_CreateExecution_abs [OF 4(3,4)] by (simp only: simp_thms)
next
  case (5 x s xid est res e s')
  then show ?case by (intro mem_FinishExecution_abs)
next
  case (6 x s wk e s')
  then show ?case by (auto simp: mem_UpsertWorker_def mem_abs_def)
next
  case (7 x s d1 d2 r'' s')
  then show ?case by (rule mem_MarkStaleWorkers_abs)
next
  case (8 x s st' limit)
  then show ?case
    using list_loop_listing [OF 8, of "\<lambda>j. \<not> (st' \<noteq> '''' \<and> JobState_string (job_State j) \<noteq> st')"]
    by (simp add: mem_ListJobs_def default_limit_def Let_def)
next
  case (9 x s limit)
  then show ?case
    using due_loop_listing [OF 9, of "due (x_now x 0)" limit]
    by (simp add: mem_ListDueScheduled_def due_iff [abs_def])
next
  case (10 x s limit)
  then show ?case
    using list_loop_listing [OF 10] by (simp add: mem_ListCancelRequested_def default_limit_def)
next
  case (11 x s now limit)
  then show ?case
    using list_loop_listing [OF 11]
    by (simp add: mem_ListTimedOutRunning_def default_limit_def timed_out_iff [abs_def])
qed

end
