(* ===== verification/MemQueue.thy ===== *)
theory MemQueue
  imports Contracts
begin

text \<open>
  The in-process priority queue, \<^verbatim>\<open>internal/queue/memory/memory.go\<close>: higher priority first, and
  within a priority by enqueue time. Every method runs under the queue's mutex; one tick of
  \<open>releaseDelayed\<close> and one take of \<open>StartConsumer\<close> are one step each.
\<close>

section \<open>Definitions\<close>

record delayedItem =
  di_job :: QueuedJob
  di_available :: time

record MemQueue =
  mq_items :: "QueuedJob list"
  mq_closed :: bool
  mq_delayed :: "delayedItem list"

definition mq_New :: MemQueue where
  "mq_New = \<lparr>mq_items = [], mq_closed = False, mq_delayed = []\<rparr>"

definition zeroQueuedJob :: QueuedJob where
  "zeroQueuedJob =
     \<lparr>qj_JobID = '''', qj_ExecutionID = '''', qj_Name = '''', qj_Type = JobTypeOther '''',
      qj_Payload = None, qj_Priority = 0, qj_Attempt = 0, qj_Timeout = 0, qj_EnqueuedAt = 0,
      qj_TraceID = ''''\<rparr>"

text \<open>The scan for the insertion index, and the append / copy / assign that opens the gap.\<close>

fun insert_pos :: "QueuedJob \<Rightarrow> QueuedJob list \<Rightarrow> nat" where
  "insert_pos job [] = 0"
| "insert_pos job (y # ys) =
     (if qj_Priority job > qj_Priority y then 0
      else if qj_Priority job = qj_Priority y \<and> qj_EnqueuedAt job < qj_EnqueuedAt y then 0
      else Suc (insert_pos job ys))"

definition copy_up :: "nat \<Rightarrow> 'a list \<Rightarrow> 'a list" where
  "copy_up i xs = take (i + 1) xs @ take (length xs - (i + 1)) (drop i xs)"

definition insertLocked :: "QueuedJob \<Rightarrow> QueuedJob list \<Rightarrow> QueuedJob list" where
  "insertLocked job items =
     (let i = insert_pos job items;
          items = items @ [zeroQueuedJob];
          items = copy_up i items
      in items[i := job])"

definition mq_Enqueue :: "ext \<Rightarrow> QueuedJob \<Rightarrow> MemQueue \<Rightarrow> Error option \<times> MemQueue" where
  "mq_Enqueue x job q =
     (if mq_closed q then (Some ErrCanceled, q)
      else let job = (if qj_EnqueuedAt job = 0 then job\<lparr>qj_EnqueuedAt := x_now x 0\<rparr> else job)
           in (None, q\<lparr>mq_items := insertLocked job (mq_items q)\<rparr>))"

definition mq_EnqueueDelay ::
    "ext \<Rightarrow> QueuedJob \<Rightarrow> duration \<Rightarrow> MemQueue \<Rightarrow> Error option \<times> MemQueue" where
  "mq_EnqueueDelay x job delay q =
     (if mq_closed q then (Some ErrCanceled, q)
      else if delay \<le> 0 then (None, q\<lparr>mq_items := insertLocked job (mq_items q)\<rparr>)
      else (None, q\<lparr>mq_delayed := mq_delayed q @
                      [\<lparr>di_job = job, di_available = x_now x 0 + delay\<rparr>]\<rparr>))"

fun release_loop ::
    "time \<Rightarrow> delayedItem list \<Rightarrow> QueuedJob list \<times> delayedItem list \<Rightarrow>
     QueuedJob list \<times> delayedItem list" where
  "release_loop now [] acc = acc"
| "release_loop now (d # ds) (items, remaining) =
     (if \<not> now < di_available d then release_loop now ds (insertLocked (di_job d) items, remaining)
      else release_loop now ds (items, remaining @ [d]))"

definition releaseDelayed :: "ext \<Rightarrow> MemQueue \<Rightarrow> MemQueue" where
  "releaseDelayed x q =
     (if mq_closed q then q
      else case release_loop (x_now x 0) (mq_delayed q) (mq_items q, []) of
             (items, remaining) \<Rightarrow> q\<lparr>mq_items := items, mq_delayed := remaining\<rparr>)"

text \<open>What \<open>StartConsumer\<close> does between acquiring the lock and calling the handler.\<close>

datatype Taken = TakeWait | TakeClosed | TakeJob QueuedJob

definition mq_take :: "MemQueue \<Rightarrow> Taken \<times> MemQueue" where
  "mq_take q =
     (if mq_items q = [] \<and> \<not> mq_closed q then (TakeWait, q)
      else if mq_closed q then (TakeClosed, q)
      else (TakeJob (hd (mq_items q)), q\<lparr>mq_items := tl (mq_items q)\<rparr>))"

definition mq_Close :: "MemQueue \<Rightarrow> MemQueue" where
  "mq_Close q = q\<lparr>mq_closed := True\<rparr>"

definition memory_queue :: "MemQueue Queue" where
  "memory_queue =
     \<lparr>q_Enqueue = mq_Enqueue, q_EnqueueDelay = mq_EnqueueDelay, q_Name = ''memory''\<rparr>"

text \<open>
  The queue as a state machine: the calls of producers, the ticks of the goroutine that releases
  delayed jobs, the consumer's takes and the shutdown, in any order. A label records the message
  that went in or came out.
\<close>

datatype mq_label = QIn QueuedJob | QTick | QOut QueuedJob | QClose

definition stamp :: "ext \<Rightarrow> QueuedJob \<Rightarrow> QueuedJob" where
  "stamp x job = (if qj_EnqueuedAt job = 0 then job\<lparr>qj_EnqueuedAt := x_now x 0\<rparr> else job)"

inductive mq_step :: "MemQueue \<Rightarrow> mq_label \<Rightarrow> MemQueue \<Rightarrow> bool" where
  step_Enqueue: "mq_Enqueue x job q = (None, q') \<Longrightarrow> mq_step q (QIn (stamp x job)) q'"
| step_EnqueueDelay: "mq_EnqueueDelay x job delay q = (None, q') \<Longrightarrow> mq_step q (QIn job) q'"
| step_release: "mq_step q QTick (releaseDelayed x q)"
| step_take: "mq_take q = (TakeJob job, q') \<Longrightarrow> mq_step q (QOut job) q'"
| step_Close: "mq_step q QClose (mq_Close q)"

inductive mq_run :: "MemQueue \<Rightarrow> mq_label list \<Rightarrow> MemQueue \<Rightarrow> bool" where
  run_Nil: "mq_run q [] q"
| run_snoc: "mq_run q ls q' \<Longrightarrow> mq_step q' l q'' \<Longrightarrow> mq_run q (ls @ [l]) q''"

inductive_cases mq_stepE: "mq_step q l q'"

fun label_in :: "mq_label \<Rightarrow> QueuedJob multiset" where
  "label_in (QIn j) = {#j#}" | "label_in _ = {#}"

fun label_out :: "mq_label \<Rightarrow> QueuedJob multiset" where
  "label_out (QOut j) = {#j#}" | "label_out _ = {#}"

text \<open>The order the queue keeps, and its representation invariant.\<close>

definition before :: "QueuedJob \<Rightarrow> QueuedJob \<Rightarrow> bool" where
  "before a b \<longleftrightarrow>
     qj_Priority a > qj_Priority b \<or>
     (qj_Priority a = qj_Priority b \<and> qj_EnqueuedAt a \<le> qj_EnqueuedAt b)"

definition same_rank :: "QueuedJob \<Rightarrow> QueuedJob \<Rightarrow> bool" where
  "same_rank a b \<longleftrightarrow> qj_Priority b = qj_Priority a \<and> qj_EnqueuedAt b = qj_EnqueuedAt a"

definition mq_inv :: "MemQueue \<Rightarrow> bool" where
  "mq_inv q \<longleftrightarrow> sorted_wrt before (mq_items q)"

definition pending :: "MemQueue \<Rightarrow> QueuedJob multiset" where
  "pending q = mset (mq_items q) + mset (map di_job (mq_delayed q))"


section \<open>Insertion\<close>

lemma insert_pos_le: "insert_pos job xs \<le> length xs"
  by (induction xs) auto

lemma insertLocked_eq:
  "insertLocked job items =
     take (insert_pos job items) items @ job # drop (insert_pos job items) items"
proof -
  let ?i = "insert_pos job items"
  have i: "?i \<le> length items" by (rule insert_pos_le)
  have "copy_up ?i (items @ [zeroQueuedJob]) =
        take ?i items @ (items @ [zeroQueuedJob]) ! ?i # drop ?i items"
    using i by (cases "?i < length items")
      (auto simp: copy_up_def take_Suc_conv_app_nth nth_append)
  then show ?thesis
    using i by (simp add: insertLocked_def Let_def list_update_append)
qed

lemma insertLocked_Nil [simp]: "insertLocked job [] = [job]"
  by (simp add: insertLocked_eq)

lemma insertLocked_Cons:
  "insertLocked job (y # ys) =
     (if before y job then y # insertLocked job ys else job # y # ys)"
  by (auto simp: insertLocked_eq before_def)

lemma mset_insertLocked [simp]: "mset (insertLocked job items) = add_mset job (mset items)"
  by (induction items) (auto simp: insertLocked_Cons)

lemma set_insertLocked [simp]: "set (insertLocked job items) = insert job (set items)"
  by (metis mset_insertLocked set_mset_add_mset_insert set_mset_mset)

lemma before_total: "before a b \<or> before b a"
  by (auto simp: before_def)

lemma before_trans: "before a b \<Longrightarrow> before b c \<Longrightarrow> before a c"
  by (auto simp: before_def)

lemma sorted_insertLocked:
  "sorted_wrt before items \<Longrightarrow> sorted_wrt before (insertLocked job items)"
proof (induction items)
  case Nil
  then show ?case by simp
next
  case (Cons y ys)
  then show ?case
    using before_total [of y job] by (auto simp: insertLocked_Cons intro: before_trans)
qed

text \<open>Jobs of the same priority and enqueue time leave in the order they came.\<close>

lemma insertLocked_fifo:
  "sorted_wrt before items \<Longrightarrow>
   filter (same_rank job) (insertLocked job items) = filter (same_rank job) items @ [job]"
proof (induction items)
  case Nil
  then show ?case by (simp add: same_rank_def)
next
  case (Cons y ys)
  show ?case
  proof (cases "before y job")
    case True
    with Cons show ?thesis by (auto simp: insertLocked_Cons)
  next
    case False
    with Cons.prems have "filter (same_rank job) (y # ys) = []"
      by (auto simp: filter_empty_conv same_rank_def before_def)
    moreover have "same_rank job job" by (simp add: same_rank_def)
    ultimately show ?thesis using False by (simp add: insertLocked_Cons split: if_splits)
  qed
qed


section \<open>Operations keep the order and lose nothing\<close>

lemma mq_inv_New [simp]: "mq_inv mq_New"
  by (simp add: mq_inv_def mq_New_def)

lemma mq_Enqueue_cases:
  "mq_Enqueue x job q = (e, q') \<Longrightarrow>
     (mq_closed q \<and> e = Some ErrCanceled \<and> q' = q) \<or>
     (\<not> mq_closed q \<and> e = None \<and>
      (\<exists>t. q' = q\<lparr>mq_items := insertLocked (job\<lparr>qj_EnqueuedAt := t\<rparr>) (mq_items q)\<rparr> \<and>
           (qj_EnqueuedAt job \<noteq> 0 \<longrightarrow> t = qj_EnqueuedAt job)))"
  by (cases "qj_EnqueuedAt job = 0")
    (auto simp: mq_Enqueue_def Let_def split: if_splits intro: exI [of _ "qj_EnqueuedAt job"])

lemma mq_inv_Enqueue: "mq_inv q \<Longrightarrow> mq_Enqueue x job q = (e, q') \<Longrightarrow> mq_inv q'"
  by (auto simp: mq_inv_def dest!: mq_Enqueue_cases intro: sorted_insertLocked)

lemma mq_inv_EnqueueDelay:
  "mq_inv q \<Longrightarrow> mq_EnqueueDelay x job delay q = (e, q') \<Longrightarrow> mq_inv q'"
  by (auto simp: mq_inv_def mq_EnqueueDelay_def intro: sorted_insertLocked split: if_splits)

lemma release_loop_spec:
  "release_loop now ds (items, rem) = (items', rem') \<Longrightarrow>
     rem' = rem @ filter (\<lambda>d. now < di_available d) ds \<and>
     mset items' = mset items + mset (map di_job (filter (\<lambda>d. \<not> now < di_available d) ds)) \<and>
     (sorted_wrt before items \<longrightarrow> sorted_wrt before items')"
proof (induction ds arbitrary: items rem)
  case Nil
  then show ?case by simp
next
  case (Cons d ds)
  show ?case
  proof (cases "now < di_available d")
    case True
    with Cons.prems show ?thesis by (auto dest!: Cons.IH)
  next
    case False
    with Cons.prems show ?thesis by (auto dest!: Cons.IH simp: sorted_insertLocked)
  qed
qed

lemma releaseDelayed_spec:
  "mq_closed (releaseDelayed x q) = mq_closed q \<and>
   (\<not> mq_closed q \<longrightarrow>
      mq_delayed (releaseDelayed x q) = filter (\<lambda>d. x_now x 0 < di_available d) (mq_delayed q)) \<and>
   pending (releaseDelayed x q) = pending q \<and>
   (mq_inv q \<longrightarrow> mq_inv (releaseDelayed x q))"
proof (cases "mq_closed q")
  case True
  then show ?thesis by (simp add: releaseDelayed_def)
next
  case False
  obtain items' rem' where r: "release_loop (x_now x 0) (mq_delayed q) (mq_items q, []) = (items', rem')"
    by (metis surj_pair)
  from release_loop_spec [OF r] False r show ?thesis
    by (auto simp: releaseDelayed_def pending_def mq_inv_def)
qed

section \<open>The queue meets the queue contract\<close>

lemma memory_queue_sel [simp]:
  "q_Enqueue memory_queue = mq_Enqueue" "q_EnqueueDelay memory_queue = mq_EnqueueDelay"
  by (simp_all add: memory_queue_def)

interpretation mq: job_queue memory_queue pending "\<lambda>q. \<not> mq_closed q"
proof (unfold_locales, unfold memory_queue_sel, goal_cases)
  case (1 q x job e q')
  then obtain t where "e = None"
    "q' = q\<lparr>mq_items := insertLocked (job\<lparr>qj_EnqueuedAt := t\<rparr>) (mq_items q)\<rparr>"
    "qj_EnqueuedAt job \<noteq> 0 \<longrightarrow> t = qj_EnqueuedAt job"
    using mq_Enqueue_cases [OF 1(2)] by blast
  with 1 show ?case by (intro conjI exI [of _ t]) (simp_all add: pending_def)
next
  case (2 q x job e q')
  then show ?case by (auto dest!: mq_Enqueue_cases)
next
  case (3 q x job d e q')
  then show ?case by (auto simp: mq_EnqueueDelay_def pending_def split: if_splits)
qed


section \<open>Runs of the queue\<close>

lemma mq_Enqueue_stamp:
  "mq_Enqueue x job q = (None, q') \<longleftrightarrow>
   \<not> mq_closed q \<and> q' = q\<lparr>mq_items := insertLocked (stamp x job) (mq_items q)\<rparr>"
  by (auto simp: mq_Enqueue_def stamp_def Let_def)

lemma mq_take_job:
  "mq_take q = (TakeJob job, q') \<longleftrightarrow>
   \<not> mq_closed q \<and> (\<exists>rest. mq_items q = job # rest \<and> q' = q\<lparr>mq_items := rest\<rparr>)"
  by (cases "mq_items q") (auto simp: mq_take_def)

lemma mq_step_inv: "mq_step q l q' \<Longrightarrow> mq_inv q \<Longrightarrow> mq_inv q'"
proof (induction rule: mq_step.induct)
  case (step_release q x)
  then show ?case by (simp add: releaseDelayed_spec)
qed (auto simp: mq_take_job mq_Close_def mq_inv_def dest: mq_inv_Enqueue mq_inv_EnqueueDelay
      intro: mq_inv_Enqueue [unfolded mq_inv_def] mq_inv_EnqueueDelay [unfolded mq_inv_def])

lemma mq_step_pending: "mq_step q l q' \<Longrightarrow> pending q' + label_out l = pending q + label_in l"
proof (induction rule: mq_step.induct)
  case (step_release q x)
  then show ?case by (simp add: releaseDelayed_spec)
qed (auto simp: mq_Enqueue_stamp mq_take_job mq_Close_def mq_EnqueueDelay_def pending_def
      split: if_splits)

lemma mq_run_inv: "mq_run q ls q' \<Longrightarrow> mq_inv q \<Longrightarrow> mq_inv q'"
  by (induction rule: mq_run.induct) (auto intro: mq_step_inv)

lemma mq_run_pending:
  "mq_run q ls q' \<Longrightarrow>
   pending q' + sum_list (map label_out ls) = pending q + sum_list (map label_in ls)"
proof (induction rule: mq_run.induct)
  case (run_snoc q ls q' l q'')
  from run_snoc.IH mq_step_pending [OF run_snoc.hyps(2)] show ?case
    by (simp add: add.assoc [symmetric]) (metis add.commute add.left_commute)
qed simp

text \<open>A run used by the witnesses: a low and a high priority message, one delivery.\<close>



definition demo_msg :: "string \<Rightarrow> int \<Rightarrow> time \<Rightarrow> QueuedJob" where
  "demo_msg jid prio t = zeroQueuedJob\<lparr>qj_JobID := jid, qj_Priority := prio, qj_EnqueuedAt := t\<rparr>"

definition demo_queue :: MemQueue where
  "demo_queue = mq_New\<lparr>mq_items := [demo_msg ''b'' 9 20, demo_msg ''a'' 5 10]\<rparr>"

lemma demo_run:
  "mq_run mq_New [QIn (demo_msg ''a'' 5 10), QIn (demo_msg ''b'' 9 20)] demo_queue"
proof -
  let ?a = "demo_msg ''a'' 5 10" and ?b = "demo_msg ''b'' 9 20"
  let ?q = "mq_New\<lparr>mq_items := [?a]\<rparr>"
  have "mq_step mq_New (QIn (stamp ext0 ?a)) ?q"
    by (rule step_Enqueue) (simp add: mq_Enqueue_def mq_New_def demo_msg_def)
  moreover have "mq_step ?q (QIn (stamp ext0 ?b)) demo_queue"
    by (rule step_Enqueue)
      (simp add: mq_Enqueue_def mq_New_def demo_msg_def demo_queue_def insertLocked_Cons before_def)
  moreover have "stamp ext0 ?a = ?a" "stamp ext0 ?b = ?b" by (simp_all add: stamp_def demo_msg_def)
  ultimately show ?thesis using run_snoc [OF run_snoc [OF run_Nil]] by force
qed

lemma demo_take:
  "mq_step demo_queue (QOut (demo_msg ''b'' 9 20)) (demo_queue\<lparr>mq_items := [demo_msg ''a'' 5 10]\<rparr>)"
  by (rule step_take) (simp add: mq_take_def demo_queue_def mq_New_def)


section \<open>Properties\<close>

text \<open>
  C8 (nothing lost, nothing invented): whatever the interleaving of producers, release ticks,
  takes and shutdown, the messages delivered together with the messages still waiting (ready or
  delayed) are exactly the messages accepted, as multisets.
\<close>

theorem mq_conservation:
  assumes "mq_run mq_New ls q"
  shows "pending q + sum_list (map label_out ls) = sum_list (map label_in ls)"
  using mq_run_pending [OF assms] by (simp add: mq_New_def pending_def)

theorem mq_conservation_witness:
  "pending demo_queue + sum_list (map label_out [QIn (demo_msg ''a'' 5 10), QIn (demo_msg ''b'' 9 20)]) =
   {#demo_msg ''a'' 5 10, demo_msg ''b'' 9 20#}"
  using mq_conservation [OF demo_run] by simp

text \<open>
  C26 (delivery order): in every reachable queue state, the message the consumer takes is at
  least as urgent as every ready message: none has a higher priority, and none of the same
  priority was enqueued earlier.
\<close>

theorem mq_delivery_order:
  assumes "mq_run mq_New ls q" "mq_step q (QOut job) q'" "m \<in> set (mq_items q)"
  shows "qj_Priority m < qj_Priority job \<or>
         (qj_Priority m = qj_Priority job \<and> qj_EnqueuedAt job \<le> qj_EnqueuedAt m)"
proof -
  have "mq_inv q" using mq_run_inv [OF assms(1)] by simp
  moreover obtain rest where "mq_items q = job # rest"
    using assms(2) by (auto elim!: mq_stepE simp: mq_take_job)
  ultimately show ?thesis using assms(3) by (auto simp: mq_inv_def before_def)
qed

theorem mq_delivery_order_witness:
  "qj_Priority (demo_msg ''a'' 5 10) < qj_Priority (demo_msg ''b'' 9 20)"
  using mq_delivery_order [OF demo_run demo_take, of "demo_msg ''a'' 5 10"]
  by (simp add: demo_queue_def demo_msg_def)

text \<open>
  Stability: a message enqueued with the priority and time of messages already waiting
  is delivered after them; the relative order of the waiting messages of that rank is kept.
\<close>

theorem mq_fifo:
  assumes "mq_run mq_New ls q" "mq_Enqueue x job q = (None, q')" "qj_EnqueuedAt job \<noteq> 0"
  shows "filter (same_rank job) (mq_items q') = filter (same_rank job) (mq_items q) @ [job]"
proof -
  have "sorted_wrt before (mq_items q)"
    using mq_run_inv [OF assms(1) mq_inv_New] by (simp add: mq_inv_def)
  then show ?thesis using assms(2,3) by (simp add: mq_Enqueue_stamp stamp_def insertLocked_fifo)
qed

theorem mq_fifo_witness:
  "filter (same_rank (demo_msg ''c'' 5 10))
     (mq_items (snd (mq_Enqueue ext0 (demo_msg ''c'' 5 10) demo_queue))) =
   [demo_msg ''a'' 5 10, demo_msg ''c'' 5 10]"
proof -
  let ?c = "demo_msg ''c'' 5 10"
  have "mq_Enqueue ext0 ?c demo_queue = (None, snd (mq_Enqueue ext0 ?c demo_queue))"
    by (simp add: mq_Enqueue_def demo_queue_def mq_New_def demo_msg_def)
  moreover have "filter (same_rank ?c) (mq_items demo_queue) = [demo_msg ''a'' 5 10]"
    by (simp add: demo_queue_def same_rank_def demo_msg_def)
  ultimately show ?thesis using mq_fifo [OF demo_run, of ext0 ?c] by (simp add: demo_msg_def)
qed

text \<open>
  C27 (delayed messages): a release tick of an open queue makes exactly the delayed messages
  ready whose time has come, keeps the others delayed, and keeps the delivery order.
\<close>

theorem releaseDelayed_exact:
  assumes "\<not> mq_closed q" "mq_inv q"
  shows "mq_delayed (releaseDelayed x q) = filter (\<lambda>d. x_now x 0 < di_available d) (mq_delayed q) \<and>
         mset (mq_items (releaseDelayed x q)) =
           mset (mq_items q) + mset (map di_job (filter (\<lambda>d. di_available d \<le> x_now x 0) (mq_delayed q))) \<and>
         mq_inv (releaseDelayed x q)"
proof -
  obtain items' rem' where r: "release_loop (x_now x 0) (mq_delayed q) (mq_items q, []) = (items', rem')"
    by (metis surj_pair)
  from release_loop_spec [OF r] assms r show ?thesis
    by (simp add: releaseDelayed_def mq_inv_def not_less)
qed

theorem releaseDelayed_exact_witness:
  "mset (mq_items (releaseDelayed ext0 (demo_queue\<lparr>mq_delayed :=
       [\<lparr>di_job = demo_msg ''c'' 1 5, di_available = 900\<rparr>,
        \<lparr>di_job = demo_msg ''d'' 1 5, di_available = 2000\<rparr>]\<rparr>))) =
   {#demo_msg ''b'' 9 20, demo_msg ''a'' 5 10, demo_msg ''c'' 1 5#}"
  using releaseDelayed_exact [of "demo_queue\<lparr>mq_delayed :=
       [\<lparr>di_job = demo_msg ''c'' 1 5, di_available = 900\<rparr>,
        \<lparr>di_job = demo_msg ''d'' 1 5, di_available = 2000\<rparr>]\<rparr>" ext0]
  by (simp add: demo_queue_def mq_New_def mq_inv_def before_def demo_msg_def ext0_def)

end
