(* ===== verification/Events.thy ===== *)
theory Events
  imports MemStore
begin

text \<open>
  Domain events: the publishers of \<^verbatim>\<open>internal/events\<close> that write them to the store's outbox, and the
  drain of the outbox to Kafka, \<^verbatim>\<open>internal/outbox/publisher.go\<close>. The Kafka writer is a parameter:
  a function on the log of messages of the cluster.
\<close>

section \<open>Publishers\<close>

text \<open>
  \<open>json.Marshal\<close> of a payload cannot fail here: every caller passes a map of strings, integers,
  booleans and instants, which the model passes as its JSON value. A nil publisher or store is
  \<open>None\<close>.
\<close>

definition new_event ::
    "string \<Rightarrow> ext \<Rightarrow> EventType \<Rightarrow> string \<Rightarrow> string \<Rightarrow> string \<Rightarrow> int \<Rightarrow> rawmsg \<Rightarrow> Event" where
  "new_event schedulerID x et jobID executionID workerID attempt raw =
     \<lparr>ev_EventID = x_uuid x 0, ev_EventType = et, ev_EventVersion = 1, ev_EventTime = x_now x 0,
      ev_IngestedAt = None, ev_JobID = jobID, ev_ExecutionID = executionID, ev_WorkerID = workerID,
      ev_SchedulerID = schedulerID, ev_Attempt = attempt, ev_TraceID = '''', ev_Payload = raw\<rparr>"

definition Emit ::
    "'s JobStore option \<Rightarrow> string \<Rightarrow> ext \<Rightarrow> EventType \<Rightarrow> string \<Rightarrow> string \<Rightarrow> string \<Rightarrow> int \<Rightarrow> rawmsg \<Rightarrow> 's \<Rightarrow>
     Error option \<times> 's" where
  "Emit store schedulerID x et jobID executionID workerID attempt payload s =
     (case store of
        None \<Rightarrow> (None, s)
      | Some S \<Rightarrow>
          js_InsertOutbox S x (new_event schedulerID x et jobID executionID workerID attempt payload) s)"

definition NewPublisher :: "'s JobStore option \<Rightarrow> string \<Rightarrow> 's EventPublisher" where
  "NewPublisher store schedulerID = \<lparr>ep_Emit = Emit store schedulerID\<rparr>"

definition NoopPublisher :: "'s EventPublisher" where
  "NoopPublisher = \<lparr>ep_Emit = (\<lambda>x et jobID executionID workerID attempt payload s. (None, s))\<rparr>"


section \<open>The outbox drain\<close>

record KafkaConfig =
  kc_Brokers :: "string list"
  kc_JobEventsTopic :: string
  kc_WorkerEventsTopic :: string
  kc_SchedulerEventsTopic :: string
  kc_ConsumerGroup :: string

record Message =
  km_Topic :: string
  km_Key :: string
  km_Value :: rawmsg
  km_Time :: time

type_synonym kafka_log = "Message list"
type_synonym writer = "Message list \<Rightarrow> kafka_log \<Rightarrow> Error option \<times> kafka_log"

definition topicFor :: "KafkaConfig \<Rightarrow> string \<Rightarrow> string" where
  "topicFor cfg eventType =
     (if 4 \<le> length eventType \<and> take 4 eventType = ''JOB_'' then kc_JobEventsTopic cfg
      else if 7 \<le> length eventType \<and> take 7 eventType = ''WORKER_'' then kc_WorkerEventsTopic cfg
      else if 10 \<le> length eventType \<and> take 10 eventType = ''SCHEDULER_'' then kc_SchedulerEventsTopic cfg
      else kc_JobEventsTopic cfg)"

definition message_of :: "KafkaConfig \<Rightarrow> OutboxRow \<Rightarrow> Message" where
  "message_of cfg r =
     (let topic = topicFor cfg (or_EventType r);
          key = or_AggregateID r;
          key = (if key = '''' then or_ID r else key)
      in \<lparr>km_Topic = topic, km_Key = key, km_Value = or_Payload r, km_Time = or_CreatedAt r\<rparr>)"

fun batch_loop ::
    "KafkaConfig \<Rightarrow> OutboxRow list \<Rightarrow> Message list \<times> string list \<Rightarrow> Message list \<times> string list" where
  "batch_loop cfg [] acc = acc"
| "batch_loop cfg (r # rs) (msgs, ids) = batch_loop cfg rs (msgs @ [message_of cfg r], ids @ [or_ID r])"

definition flush ::
    "KafkaConfig \<Rightarrow> 's JobStore \<Rightarrow> writer \<Rightarrow> ext \<Rightarrow> 's \<times> kafka_log \<Rightarrow> Error option \<times> 's \<times> kafka_log" where
  "flush cfg S wr x st =
     (case st of (s, klog) \<Rightarrow>
        case js_FetchOutboxBatch S x 100 s of
          Inl e \<Rightarrow> (Some e, s, klog)
        | Inr rows \<Rightarrow>
            if rows = [] then (None, s, klog)
            else case batch_loop cfg rows ([], []) of (msgs, ids) \<Rightarrow>
              (case wr msgs klog of
                 (Some e, klog') \<Rightarrow> (Some e, s, klog')
               | (None, klog') \<Rightarrow>
                   (case js_MarkOutboxPublished S x ids s of (e, s') \<Rightarrow> (e, s', klog'))))"

text \<open>
  \<open>Run\<close>: one flush per tick; its errors are logged and the next tick tries again. The writer may
  behave differently on every tick.
\<close>

fun drain ::
    "KafkaConfig \<Rightarrow> 's JobStore \<Rightarrow> (writer \<times> ext) list \<Rightarrow> 's \<times> kafka_log \<Rightarrow> 's \<times> kafka_log" where
  "drain cfg S [] st = st"
| "drain cfg S ((wr, x) # ticks) st = drain cfg S ticks (snd (flush cfg S wr x st))"

text \<open>
  What the Kafka client documents: \<open>WriteMessages\<close> returns nil only when every message has been
  written; messages that were written stay written, also when it reports an error.
\<close>

definition writer_ok :: "writer \<Rightarrow> bool" where
  "writer_ok wr \<longleftrightarrow>
     (\<forall>ms klog e klog'. wr ms klog = (e, klog') \<longrightarrow>
        set klog \<subseteq> set klog' \<and> (e = None \<longrightarrow> set ms \<subseteq> set klog'))"


section \<open>The outbox contract\<close>

locale outbox =
  fixes S :: "'s JobStore"
    and rows :: "'s \<Rightarrow> OutboxRow list"
    and oinv :: "'s \<Rightarrow> bool"
  assumes fetch_rows:
      "js_FetchOutboxBatch S x n s = Inr rs \<Longrightarrow> set rs \<subseteq> set (rows s)"
    and mark_rows:
      "oinv s \<Longrightarrow> js_MarkOutboxPublished S x ids s = (e, s') \<Longrightarrow>
       oinv s' \<and> (\<exists>marked. set marked \<subseteq> set ids \<and> rows s' = filter (\<lambda>r. or_ID r \<notin> set marked) (rows s))"

lemma batch_loop_eq:
  "batch_loop cfg rs (msgs, ids) = (msgs @ map (message_of cfg) rs, ids @ map or_ID rs)"
  by (induction rs arbitrary: msgs ids) simp_all

text \<open>A row is safe in a state of store and log: still in the outbox or already published.\<close>

definition row_safe :: "KafkaConfig \<Rightarrow> OutboxRow list \<Rightarrow> kafka_log \<Rightarrow> OutboxRow \<Rightarrow> bool" where
  "row_safe cfg rs klog r \<longleftrightarrow> r \<in> set rs \<or> message_of cfg r \<in> set klog"

lemma distinct_ids_part:
  assumes "distinct (map or_ID rs)" "r \<in> set rs" "set qs \<subseteq> set rs" "or_ID r \<in> or_ID ` set qs"
  shows "r \<in> set qs"
  using assms by (auto simp: distinct_map inj_on_def)

context outbox
begin

lemma flush_cases:
  assumes wr: "writer_ok wr" and d: "distinct (map or_ID (rows s))" and o: "oinv s"
    and f: "flush cfg S wr x (s, klog) = (e, s', klog')"
  shows "set klog \<subseteq> set klog' \<and> distinct (map or_ID (rows s')) \<and> oinv s' \<and> set (rows s') \<subseteq> set (rows s) \<and>
         (\<forall>r\<in>set (rows s). row_safe cfg (rows s') klog' r)"
proof (cases "js_FetchOutboxBatch S x 100 s")
  case (Inl e')
  with f d o show ?thesis by (auto simp: flush_def row_safe_def)
next
  case (Inr rs)
  then have rs: "set rs \<subseteq> set (rows s)" by (rule fetch_rows)
  show ?thesis
  proof (cases "rs = []")
    case True
    with f d o Inr show ?thesis by (auto simp: flush_def row_safe_def)
  next
    case False
    obtain we l where w: "wr (map (message_of cfg) rs) klog = (we, l)" by (metis surj_pair)
    with wr have l: "set klog \<subseteq> set l" "we = None \<Longrightarrow> message_of cfg ` set rs \<subseteq> set l"
      unfolding writer_ok_def by (metis, metis set_map)
    show ?thesis
    proof (cases we)
      case (Some e')
      with f Inr False w d o l show ?thesis by (auto simp: flush_def batch_loop_eq row_safe_def)
    next
      case None
      obtain e2 s2 where m: "js_MarkOutboxPublished S x (map or_ID rs) s = (e2, s2)" by (metis surj_pair)
      with f Inr False w None have e: "s' = s2" "klog' = l" by (auto simp: flush_def batch_loop_eq)
      have kept: "message_of cfg r \<in> set l" if "r \<in> set (rows s)" "or_ID r \<in> or_ID ` set rs" for r
        using distinct_ids_part [OF d that(1) rs that(2)] l(2) [OF None] by auto
      obtain marked where s2: "set marked \<subseteq> or_ID ` set rs" "oinv s2"
        "rows s2 = filter (\<lambda>r. or_ID r \<notin> set marked) (rows s)"
        using mark_rows [OF o m] by auto
      then have "distinct (map or_ID (rows s2))" using d by (simp add: distinct_map_filter)
      then show ?thesis using s2 kept l(1) by (auto simp: e row_safe_def)
    qed
  qed
qed

lemma drain_safe:
  assumes "\<forall>(wr, x)\<in>set ticks. writer_ok wr" "distinct (map or_ID (rows s))" "oinv s"
    and "drain cfg S ticks (s, klog) = (s', klog')" "r \<in> set (rows s)"
  shows "row_safe cfg (rows s') klog' r"
proof -
  have "set klog \<subseteq> set klog' \<and> (\<forall>r. row_safe cfg (rows s) klog r \<longrightarrow> row_safe cfg (rows s') klog' r)"
    using assms(1-4)
  proof (induction ticks arbitrary: s klog)
    case (Cons t ticks)
    obtain wr x where t: "t = (wr, x)" by (cases t)
    obtain e s1 l1 where f: "flush cfg S wr x (s, klog) = (e, s1, l1)" by (metis surj_pair)
    have c: "set klog \<subseteq> set l1 \<and> distinct (map or_ID (rows s1)) \<and> oinv s1 \<and> set (rows s1) \<subseteq> set (rows s) \<and>
         (\<forall>r\<in>set (rows s). row_safe cfg (rows s1) l1 r)"
      by (rule flush_cases [OF _ Cons.prems(2,3) f]) (use Cons.prems(1) t in simp)
    have "set l1 \<subseteq> set klog' \<and> (\<forall>r. row_safe cfg (rows s1) l1 r \<longrightarrow> row_safe cfg (rows s') klog' r)"
      by (rule Cons.IH) (use Cons.prems t f c in simp_all)
    with c show ?case unfolding row_safe_def by blast
  qed simp
  with assms(5) show ?thesis by (simp add: row_safe_def)
qed

end

section \<open>The memory store as outbox and the publishers as event sinks\<close>

interpretation mem_outbox: outbox memory_store st_outbox "\<lambda>s. True"
  by unfold_locales
    (auto simp: memory_store_def mem_FetchOutboxBatch_def mem_MarkOutboxPublished_def Let_def
      dest: in_set_takeD split: if_splits)

lemma mem_abs_outbox [simp]: "mem_abs (s\<lparr>st_outbox := ob\<rparr>) = mem_abs s"
  by (simp add: mem_abs_def)

interpretation mem_publisher: event_sink "NewPublisher (Some memory_store) schedulerID" mem_abs mem_inv
  by unfold_locales (auto simp: NewPublisher_def Emit_def mem_InsertOutbox_def)

interpretation noop: event_sink NoopPublisher av sinv
  by unfold_locales (simp_all add: NoopPublisher_def)


section \<open>Topics and keys\<close>

definition demo_kafka :: KafkaConfig where
  "demo_kafka = \<lparr>kc_Brokers = [], kc_JobEventsTopic = ''jobs'', kc_WorkerEventsTopic = ''workers'',
     kc_SchedulerEventsTopic = ''schedulers'', kc_ConsumerGroup = ''g''\<rparr>"

definition demo_row :: OutboxRow where
  "demo_row = \<lparr>or_ID = ''e1'', or_EventType = ''JOB_CREATED'', or_AggregateID = ''j1'', or_Payload = None,
     or_CreatedAt = 5\<rparr>"

definition failing_writer :: writer where
  "failing_writer ms klog = (Some ErrDeadlineExceeded, klog @ take 1 ms)"

definition appending_writer :: writer where
  "appending_writer ms klog = (None, klog @ ms)"

text \<open>
  Every event type the program declares is published on the topic of its family: job events on the
  job topic, worker events on the worker topic, scheduler events on the scheduler topic.
\<close>

lemma topicFor_family:
  "et \<in> set EventType_all \<Longrightarrow> topicFor cfg (EventType_string et) =
     (if et \<in> {EventWorkerRegistered, EventWorkerHeartbeat, EventWorkerCapacityChanged,
               EventWorkerUnavailable, EventWorkerRecovered, EventWorkerDeregistered}
      then kc_WorkerEventsTopic cfg
      else if et \<in> {EventSchedulerStarted, EventSchedulerStopped, EventSchedulerLeaderAcquired,
                    EventSchedulerLeaderLost, EventSchedulerRebalanced}
      then kc_SchedulerEventsTopic cfg
      else kc_JobEventsTopic cfg)"
  by (cases et) (simp_all add: topicFor_def EventType_all_def)

text \<open>
  The key of a worker or scheduler event is the event's own identifier, not the worker's or the
  scheduler's: the row keeps only the job identifier, which such events leave empty.
\<close>

lemma worker_event_key:
  assumes "Emit (Some memory_store) schedulerID x et '''' '''' workerID 0 payload s = (e, s')"
  shows "km_Key (message_of cfg (last (st_outbox s'))) = x_uuid x 0"
  using assms by (auto simp: Emit_def mem_InsertOutbox_def new_event_def message_of_def)

end
