(* ===== verification/Backoff.thy ===== *)
theory Backoff
  imports Domain "HOL-Library.Log_Nat"
begin

text \<open>
  The retry delay of \<^verbatim>\<open>internal/scheduler/scheduler.go\<close> (\<open>computeBackoff\<close>) over an executable model
  of \<open>float64\<close>: finite values are rationals, an operation is the exact one followed by
  \<open>round64\<close> (round to 53 significant bits, ties to even), \<open>math.Pow\<close> follows the repeated
  squaring of Go's library. Values beyond the largest double keep their exact magnitude; the
  only consumer is the conversion to \<open>int64\<close>, for which they are out of range either way. The
  result of an out-of-range conversion is implementation-defined in Go and an argument here.
\<close>

section \<open>Floating-point numbers\<close>

definition ilog2 :: "rat \<Rightarrow> int" where
  "ilog2 x =
     (let p = fst (quotient_of x); q = snd (quotient_of x);
          k = bitlen p - bitlen q
      in if 2 powi k \<le> x then k else k - 1)"

definition round_even :: "rat \<Rightarrow> int" where
  "round_even y =
     (let f = \<lfloor>y\<rfloor>; d = y - of_int f in
      if d < 1 / 2 then f
      else if 1 / 2 < d then f + 1
      else if even f then f else f + 1)"

definition round64 :: "rat \<Rightarrow> rat" where
  "round64 x =
     (if x = 0 then 0
      else if 0 < x
      then let e = ilog2 x - 52 in of_int (round_even (x / 2 powi e)) * 2 powi e
      else let e = ilog2 (- x) - 52 in - (of_int (round_even (- x / 2 powi e)) * 2 powi e))"

definition fmul :: "rat \<Rightarrow> rat \<Rightarrow> rat" where
  "fmul x y = round64 (x * y)"

definition fadd :: "rat \<Rightarrow> rat \<Rightarrow> rat" where
  "fadd x y = round64 (x + y)"

definition float64 :: "int \<Rightarrow> rat" where
  "float64 n = round64 (of_int n)"

definition toInt64 :: "(rat \<Rightarrow> int) \<Rightarrow> rat \<Rightarrow> int" where
  "toInt64 conv x =
     (let t = (if x < 0 then - \<lfloor>- x\<rfloor> else \<lfloor>x\<rfloor>) in
      if - (2 ^ 63) \<le> t \<and> t < 2 ^ 63 then t else conv x)"

function pow_loop :: "nat \<Rightarrow> rat \<Rightarrow> int \<Rightarrow> rat \<Rightarrow> int \<Rightarrow> rat \<times> int" where
  "pow_loop i x1 xe a1 ae =
     (if i = 0 then (a1, ae)
      else if xe < - 4096 \<or> 4096 < xe then (a1, ae + xe)
      else let a1' = (if odd i then fmul a1 x1 else a1);
               ae' = (if odd i then ae + xe else ae);
               x2 = fmul x1 x1
           in if x2 < 1 / 2 then pow_loop (i div 2) (x2 + x2) (2 * xe - 1) a1' ae'
              else pow_loop (i div 2) x2 (2 * xe) a1' ae')"
  by pat_completeness auto
termination
  by (relation "measure (\<lambda>(i, _). i)") auto

declare pow_loop.simps [simp del]

text \<open>\<open>math.Pow\<close> for a positive base and a whole-numbered exponent.\<close>

definition Pow :: "rat \<Rightarrow> int \<Rightarrow> rat" where
  "Pow x y =
     (if y = 0 \<or> x = 1 then 1
      else if y = 1 then x
      else let xe = ilog2 x + 1;
               (a1, ae) = pow_loop (nat \<bar>y\<bar>) (x / 2 powi xe) xe 1 0
           in if y < 0 then round64 (1 / a1) * 2 powi (- ae) else a1 * 2 powi ae)"


section \<open>The delay before a retry\<close>

definition computeBackoff :: "(rat \<Rightarrow> int) \<Rightarrow> rat \<Rightarrow> RetryPolicy \<Rightarrow> int \<Rightarrow> duration" where
  "computeBackoff conv rnd p attempt =
     (let delay = rp_InitialDelay p;
          delay = (if delay \<le> 0 then Second else delay);
          delay = (if rp_BackoffStrategy p = ''exponential''
                   then let mult = rp_Multiplier p;
                            mult = (if mult < 1 then 2 else mult)
                        in toInt64 conv (fmul (float64 delay) (Pow mult (attempt - 1)))
                   else delay);
          delay = (if rp_MaxDelay p > 0 \<and> delay > rp_MaxDelay p then rp_MaxDelay p else delay)
      in if rp_Jitter p
         then let j = fadd (1 / 2) rnd in toInt64 conv (fmul (float64 delay) j)
         else delay)"

section \<open>Rounding\<close>

lemma bitlen_powi: "0 < p \<Longrightarrow> 2 powi (bitlen p - 1) \<le> (of_int p :: rat) \<and> (of_int p :: rat) < 2 powi bitlen p"
proof -
  assume p: "0 < p"
  define k where "k = nat (bitlen p - 1)"
  have b: "bitlen p = int k + 1"
    using bitlen_nonneg [of p] bitlen_eq_zero_iff [of p] p by (simp add: k_def)
  have "(2 :: int) ^ k \<le> p \<and> p < 2 ^ Suc k"
    using bitlen_bounds [OF p] b by (simp add: nat_add_distrib)
  then have "of_int (2 ^ k) \<le> (of_int p :: rat) \<and> of_int p < (of_int (2 ^ Suc k) :: rat)"
    by (simp only: of_int_le_iff of_int_less_iff)
  then show ?thesis by (simp add: b power_int_def nat_add_distrib)
qed

lemma ilog2_bounds:
  assumes "0 < x"
  shows "2 powi ilog2 x \<le> x" "x < 2 powi (ilog2 x + 1)"
proof -
  obtain p q where pq: "quotient_of x = (p, q)" by (metis surj_pair)
  have q: "0 < q" and x: "x = of_int p / of_int q"
    using quotient_of_denom_pos [OF pq] quotient_of_div [OF pq] by simp_all
  have p: "0 < p" using assms q by (simp add: x zero_less_divide_iff)
  let ?k = "bitlen p - bitlen q"
  note bp = bitlen_powi [OF p] and bq = bitlen_powi [OF q]
  have hi: "x < 2 powi (?k + 1)"
  proof -
    have "of_int p < (2 :: rat) powi (?k + 1) * 2 powi (bitlen q - 1)"
      using bp by (simp add: power_int_add [symmetric])
    also have "\<dots> \<le> 2 powi (?k + 1) * of_int q" using bq by (intro mult_left_mono) auto
    finally show ?thesis using q by (simp add: x pos_divide_less_eq)
  qed
  have lo: "2 powi (?k - 1) \<le> x"
  proof -
    have "(2 :: rat) powi (?k - 1) * of_int q \<le> 2 powi (?k - 1) * 2 powi bitlen q"
      using bq by (intro mult_left_mono) auto
    also have "\<dots> \<le> of_int p" using bp by (simp add: power_int_add [symmetric])
    finally show ?thesis using q by (simp add: x pos_le_divide_eq)
  qed
  show "2 powi ilog2 x \<le> x" "x < 2 powi (ilog2 x + 1)"
    using lo hi by (auto simp: ilog2_def pq Let_def)
qed

lemma ilog2_unique:
  assumes "2 powi k \<le> x" "x < 2 powi (k + 1)"
  shows "ilog2 x = k"
proof -
  have "0 < x" using assms(1) by (meson less_le_trans zero_less_power_int zero_less_numeral)
  note b = ilog2_bounds [OF this]
  have "2 powi ilog2 x < (2 :: rat) powi (k + 1)" "(2 :: rat) powi k < 2 powi (ilog2 x + 1)"
    using b assms by linarith+
  then have "\<not> k + 1 \<le> ilog2 x" "\<not> ilog2 x + 1 \<le> k"
    using power_int_increasing [of "k + 1" "ilog2 x" "2 :: rat"]
      power_int_increasing [of "ilog2 x + 1" k "2 :: rat"] by auto
  then show ?thesis by simp
qed

lemma round_even_of_int [simp]: "round_even (of_int n) = n"
  by (simp add: round_even_def)

lemma round_even_mono: "x \<le> y \<Longrightarrow> round_even x \<le> round_even y"
proof -
  assume xy: "x \<le> y"
  show ?thesis
  proof (cases "\<lfloor>x\<rfloor> = \<lfloor>y\<rfloor>")
    case True
    with xy show ?thesis by (simp add: round_even_def Let_def)
  next
    case False
    with floor_mono [OF xy] have "\<lfloor>x\<rfloor> + 1 \<le> \<lfloor>y\<rfloor>" by simp
    then show ?thesis by (simp add: round_even_def Let_def)
  qed
qed

lemma round64_pos_eq:
  "0 < x \<Longrightarrow> round64 x = of_int (round_even (x / 2 powi (ilog2 x - 52))) * 2 powi (ilog2 x - 52)"
  by (simp add: round64_def Let_def)

lemma ilog2_mono:
  assumes "0 < x" "x \<le> y"
  shows "ilog2 x \<le> ilog2 y"
proof (rule ccontr)
  assume "\<not> ilog2 x \<le> ilog2 y"
  then have "(2 :: rat) powi (ilog2 y + 1) \<le> 2 powi ilog2 x" by (intro power_int_increasing) auto
  with ilog2_bounds [of x] ilog2_bounds [of y] assms show False by linarith
qed

text \<open>A rational with at most 53 significant bits is its own double.\<close>

lemma round64_exact:
  assumes "0 \<le> m" "m < 2 ^ 53"
  shows "round64 (of_int m * 2 powi e) = of_int m * 2 powi e"
proof (cases "m = 0")
  case False
  let ?x = "of_int m * 2 powi e :: rat" and ?k = "ilog2 (of_int m * 2 powi e)"
  have x: "0 < ?x" using assms(1) False by simp
  have "(2 :: rat) powi (?k - e) * 2 powi e \<le> of_int m * 2 powi e"
    using ilog2_bounds(1) [OF x] by (simp add: power_int_add [symmetric])
  then have "(2 :: rat) powi (?k - e) \<le> of_int m" by simp
  also have "of_int m < (of_int (2 ^ 53) :: rat)" using assms(2) by (simp only: of_int_less_iff)
  finally have "(2 :: rat) powi (?k - e) < 2 powi 53" by simp
  then have "\<not> 53 \<le> ?k - e" using power_int_increasing [of 53 "?k - e" "2 :: rat"] by auto
  then have ke: "?k - e \<le> 52" by simp
  define d where "d = nat (52 - (?k - e))"
  have e: "e = int d + (?k - 52)" using ke by (simp add: d_def)
  have xe: "?x = of_int (m * 2 ^ d) * 2 powi (?k - 52)"
    by (subst e) (simp add: power_int_add del: power_int_diff)
  then have "?x / 2 powi (?k - 52) = of_int (m * 2 ^ d)"
    by (metis nonzero_mult_div_cancel_right power_int_eq_0_iff zero_neq_numeral)
  then show ?thesis using xe by (simp only: round64_pos_eq [OF x] round_even_of_int)
qed (simp add: round64_def)

lemma round64_mono:
  assumes "0 \<le> x" "x \<le> y"
  shows "round64 x \<le> round64 y"
proof -
  have nonneg: "0 \<le> round64 z" if "0 \<le> z" for z
  proof (cases "z = 0")
    case False
    have "0 \<le> round_even (z / 2 powi (ilog2 z - 52))"
      using round_even_mono [of 0 "z / 2 powi (ilog2 z - 52)"] that round_even_of_int [of 0] by simp
    then show ?thesis using that False by (simp add: round64_pos_eq)
  qed (simp add: round64_def)
  show ?thesis
  proof (cases "x = 0")
    case True
    with assms nonneg show ?thesis by (simp add: round64_def)
  next
    case False
    with assms have x: "0 < x" and y: "0 < y" by linarith+
    show ?thesis
    proof (cases "ilog2 x = ilog2 y")
      case True
      have "round_even (x / 2 powi (ilog2 y - 52)) \<le> round_even (y / 2 powi (ilog2 y - 52))"
        by (intro round_even_mono divide_right_mono assms(2)) simp
      then show ?thesis by (simp add: round64_pos_eq x y True)
    next
      case False
      then have lt: "ilog2 x + 1 \<le> ilog2 y" using ilog2_mono [OF x assms(2)] by simp
      have *: "(2 :: rat) powi k = of_int (2 ^ 53) * 2 powi (k - 53)"
        "(2 :: rat) powi k = of_int (2 ^ 52) * 2 powi (k - 52)" for k
        by (simp_all add: power_int_diff)
      have "x / 2 powi (ilog2 x - 52) \<le> of_int (2 ^ 53)"
        using ilog2_bounds(2) [OF x] *(1) [of "ilog2 x + 1"] by (simp add: pos_divide_le_eq)
      then have "round_even (x / 2 powi (ilog2 x - 52)) \<le> 2 ^ 53"
        using round_even_mono round_even_of_int by metis
      then have "round64 x \<le> of_int (2 ^ 53) * 2 powi (ilog2 x - 52)"
        unfolding round64_pos_eq [OF x] by (intro mult_right_mono) (simp_all only: of_int_le_iff, simp)
      also have "\<dots> = 2 powi (ilog2 x + 1)" using *(1) [of "ilog2 x + 1"] by simp
      also have "\<dots> \<le> 2 powi ilog2 y" by (rule power_int_increasing [OF lt]) simp
      also have "\<dots> \<le> round64 y"
      proof -
        have "of_int (2 ^ 52) \<le> y / 2 powi (ilog2 y - 52)"
          using ilog2_bounds(1) [OF y] *(2) [of "ilog2 y"] by (simp add: pos_le_divide_eq)
        then have "2 ^ 52 \<le> round_even (y / 2 powi (ilog2 y - 52))"
          using round_even_mono round_even_of_int by metis
        then have "of_int (2 ^ 52) * 2 powi (ilog2 y - 52) \<le> round64 y"
          unfolding round64_pos_eq [OF y] by (intro mult_right_mono) (simp_all only: of_int_le_iff, simp)
        then show ?thesis using *(2) [of "ilog2 y"] by simp
      qed
      finally show ?thesis .
    qed
  qed
qed

section \<open>Powers of two\<close>

lemma round64_powi [simp]: "round64 (2 powi e) = 2 powi e"
  using round64_exact [of 1 e] by simp

lemma ilog2_two [simp]: "ilog2 2 = 1"
  by (rule ilog2_unique) (simp_all add: power_int_def)

lemma pow_loop_half:
  assumes "int i * (xe - 1) \<le> 4095" "1 \<le> xe"
  shows "\<exists>r. pow_loop i (1 / 2) xe (2 powi p) ae = (2 powi r, p + ae + int i * (xe - 1) - r)"
  using assms
proof (induction i arbitrary: xe p ae rule: less_induct)
  case (less i)
  show ?case
  proof (cases "i = 0")
    case False
    then have "1 * (xe - 1) \<le> int i * (xe - 1)" using less.prems by (intro mult_right_mono) auto
    then have xe: "\<not> (xe < - 4096 \<or> 4096 < xe)" using less.prems by simp
    have half: "int (i div 2) * (2 * xe - 1 - 1) \<le> 4095"
    proof -
      have "int (i div 2) * 2 * (xe - 1) \<le> int i * (xe - 1)"
        using less.prems(2) by (intro mult_right_mono) auto
      then show ?thesis using less.prems(1) by (simp add: algebra_simps)
    qed
    have sq: "fmul (1 / 2) (1 / 2) = 1 / 4"
      using round64_powi [of "- 2"] by (simp add: fmul_def power_int_def power2_eq_square)
    define p' where "p' = (if odd i then p - 1 else p)"
    define ae' where "ae' = (if odd i then ae + xe else ae)"
    have a1: "(if odd i then fmul (2 powi p) (1 / 2) else 2 powi p) = 2 powi p'"
    proof -
      have "(2 :: rat) powi p * (1 / 2) = 2 powi (p - 1)" by (simp add: power_int_diff)
      then show ?thesis by (simp only: fmul_def p'_def round64_powi if_cancel split: if_split) simp
    qed
    have eq: "pow_loop i (1 / 2) xe (2 powi p) ae = pow_loop (i div 2) (1 / 2) (2 * xe - 1) (2 powi p') ae'"
      using False xe by (subst pow_loop.simps) (simp add: sq a1 ae'_def [symmetric] Let_def)
    obtain r where r: "pow_loop (i div 2) (1 / 2) (2 * xe - 1) (2 powi p') ae' =
        (2 powi r, p' + ae' + int (i div 2) * (2 * xe - 1 - 1) - r)"
      using less.IH [of "i div 2" "2 * xe - 1" p' ae'] half less.prems(2) False by auto
    have "p' + ae' + int (i div 2) * (2 * xe - 1 - 1) = p + ae + int i * (xe - 1)"
    proof (cases "odd i")
      case True
      then obtain k where "i = 2 * k + 1" by (elim oddE)
      then show ?thesis using True by (simp add: p'_def ae'_def algebra_simps)
    next
      case False
      then obtain k where "i = 2 * k" by (auto elim: evenE)
      then show ?thesis using False by (simp add: p'_def ae'_def algebra_simps)
    qed
    with eq r show ?thesis by auto
  qed (auto simp: pow_loop.simps [of 0])
qed

lemma Pow_two:
  assumes "0 \<le> n" "n \<le> 4095"
  shows "Pow 2 n = 2 powi n"
proof (cases "n = 0 \<or> n = 1")
  case False
  obtain r where r: "pow_loop (nat n) (1 / 2) 2 (2 powi 0) 0 = (2 powi r, 0 + 0 + int (nat n) * (2 - 1) - r)"
    using pow_loop_half [of "nat n" 2 0 0] assms by auto
  have "(2 :: rat) powi r * 2 powi (n - r) = 2 powi n" by (simp add: power_int_add [symmetric])
  with False assms r show ?thesis by (simp add: Pow_def Let_def power_int_def)
qed (auto simp: Pow_def)

section \<open>The delay over whole numbers\<close>

text \<open>
  The delay as the retry policy describes it, over unbounded integers: the initial delay,
  doubled with every attempt under the exponential strategy, and capped.
\<close>

definition base_delay :: "RetryPolicy \<Rightarrow> duration" where
  "base_delay p = (if rp_InitialDelay p \<le> 0 then Second else rp_InitialDelay p)"

definition grown_delay :: "RetryPolicy \<Rightarrow> int \<Rightarrow> duration" where
  "grown_delay p attempt =
     (if rp_BackoffStrategy p = ''exponential'' then base_delay p * 2 ^ nat (attempt - 1) else base_delay p)"

definition cap_delay :: "RetryPolicy \<Rightarrow> duration \<Rightarrow> duration" where
  "cap_delay p d = (if rp_MaxDelay p > 0 \<and> d > rp_MaxDelay p then rp_MaxDelay p else d)"

definition doubling :: "RetryPolicy \<Rightarrow> int \<Rightarrow> bool" where
  "doubling p attempt \<longleftrightarrow>
     (rp_Multiplier p < 1 \<or> rp_Multiplier p = 2) \<and> 1 \<le> attempt \<and>
     base_delay p < 2 ^ 53 \<and> grown_delay p attempt < 2 ^ 63"

lemma base_delay_pos [simp]: "0 < base_delay p"
  by (simp add: base_delay_def Second_def)

lemma grown_delay_nonneg [simp]: "0 \<le> grown_delay p attempt"
  by (simp add: grown_delay_def less_imp_le)

lemma float64_exact: "0 \<le> n \<Longrightarrow> n < 2 ^ 53 \<Longrightarrow> float64 n = of_int n"
  using round64_exact [of n 0] by (simp add: float64_def)

lemma toInt64_of_int: "- (2 ^ 63) \<le> n \<Longrightarrow> n < 2 ^ 63 \<Longrightarrow> toInt64 conv (of_int n) = n"
  by (simp add: toInt64_def)

lemma grown_exact:
  assumes "doubling p attempt" "rp_BackoffStrategy p = ''exponential''"
  shows "toInt64 conv (fmul (float64 (base_delay p))
           (Pow (if rp_Multiplier p < 1 then 2 else rp_Multiplier p) (attempt - 1))) = grown_delay p attempt"
proof -
  define n where "n = nat (attempt - 1)"
  have n: "attempt - 1 = int n" using assms(1) by (simp add: doubling_def n_def)
  have g: "grown_delay p attempt = base_delay p * 2 ^ n" using assms(2) by (simp add: grown_delay_def n_def)
  have "(2 :: int) ^ n \<le> base_delay p * 2 ^ n" by (simp add: int_one_le_iff_zero_less)
  also have "\<dots> < 2 ^ 63" using assms(1) g by (simp add: doubling_def)
  finally have "n < 63" by (simp only: power_strict_increasing_iff one_less_numeral_iff semiring_norm)
  then have "Pow 2 (int n) = 2 powi int n" by (intro Pow_two) auto
  moreover have "(if rp_Multiplier p < 1 then 2 else rp_Multiplier p) = 2"
    using assms(1) by (auto simp: doubling_def)
  moreover have "float64 (base_delay p) = of_int (base_delay p)"
    using assms(1) base_delay_pos [of p] by (intro float64_exact) (auto simp: doubling_def less_imp_le)
  moreover have "round64 (of_int (base_delay p) * 2 powi int n) = of_int (base_delay p) * 2 powi int n"
    using assms(1) base_delay_pos [of p] by (intro round64_exact) (auto simp: doubling_def less_imp_le)
  moreover have "of_int (base_delay p) * 2 powi int n = (of_int (grown_delay p attempt) :: rat)"
    by (simp add: g power_int_def)
  moreover have "- (2 ^ 63) \<le> grown_delay p attempt" by (rule order_trans [OF _ grown_delay_nonneg]) simp
  ultimately show ?thesis
    using assms(1) by (simp add: n fmul_def toInt64_of_int doubling_def)
qed

lemma computeBackoff_split:
  assumes "rp_BackoffStrategy p = ''exponential'' \<Longrightarrow> doubling p attempt"
  shows "computeBackoff conv rnd p attempt =
     (let d = cap_delay p (grown_delay p attempt) in
      if rp_Jitter p then toInt64 conv (fmul (float64 d) (fadd (1 / 2) rnd)) else d)"
  using grown_exact [OF assms, of conv]
  by (auto simp: computeBackoff_def cap_delay_def base_delay_def grown_delay_def Let_def)

lemma jitter_bounds:
  assumes d: "0 \<le> d" "d \<le> 2 ^ 51" and r: "0 \<le> rnd" "rnd < 1"
  shows "d div 2 \<le> toInt64 conv (fmul (float64 d) (fadd (1 / 2) rnd)) \<and>
         toInt64 conv (fmul (float64 d) (fadd (1 / 2) rnd)) \<le> 3 * d div 2"
proof -
  have half: "round64 (of_int m / 2) = of_int m / 2" if "0 \<le> m" "m < 2 ^ 53" for m
    using round64_exact [OF that, of "- 1"] by (simp add: power_int_def)
  have j: "1 / 2 \<le> fadd (1 / 2) rnd" "fadd (1 / 2) rnd \<le> 3 / 2"
    using round64_mono [of "1 / 2" "1 / 2 + rnd"] round64_mono [of "1 / 2 + rnd" "3 / 2"] half [of 1] half [of 3] r
    by (simp_all add: fadd_def)
  let ?x = "of_int d * fadd (1 / 2) rnd"
  have x: "of_int d / 2 \<le> ?x" "?x \<le> of_int (3 * d) / 2" "0 \<le> ?x"
    using mult_left_mono [OF j(1), of "of_int d"] mult_left_mono [OF j(2), of "of_int d"] d(1) j(1) by simp_all
  have "round64 (of_int d / 2) \<le> round64 ?x" "round64 ?x \<le> round64 (of_int (3 * d) / 2)"
    using d(1) by (intro round64_mono x; simp)+
  then have y: "of_int d / 2 \<le> round64 ?x" "round64 ?x \<le> of_int (3 * d) / 2"
    using half [of d] half [of "3 * d"] d by auto
  define f where "f = \<lfloor>round64 ?x\<rfloor>"
  have f: "d div 2 \<le> f" "f \<le> 3 * d div 2"
    using floor_mono [OF y(1)] floor_mono [OF y(2)] floor_divide_of_int_eq [where 'a = rat, of d 2]
      floor_divide_of_int_eq [where 'a = rat, of "3 * d" 2] by (simp_all add: f_def)
  have y0: "0 \<le> round64 ?x" using y(1) d(1) by (meson divide_nonneg_nonneg of_int_0_le_iff order_trans zero_le_numeral)
  have "float64 d = of_int d" using d by (intro float64_exact) auto
  moreover have "- (2 ^ 63) \<le> f" "f < 2 ^ 63" using f d by simp_all
  ultimately have "toInt64 conv (fmul (float64 d) (fadd (1 / 2) rnd)) = f"
    using y0 by (simp only: fmul_def toInt64_def f_def [symmetric] Let_def not_less [symmetric] if_False if_True simp_thms)
  with f show ?thesis by simp
qed


lemma backoff_range:
  assumes "rp_BackoffStrategy p = ''exponential'' \<Longrightarrow> doubling p attempt"
    and "cap_delay p (grown_delay p attempt) \<le> 2 ^ 51" "0 \<le> rnd" "rnd < 1"
  shows "cap_delay p (grown_delay p attempt) div 2 \<le> computeBackoff conv rnd p attempt \<and>
         computeBackoff conv rnd p attempt \<le> 3 * cap_delay p (grown_delay p attempt) div 2"
proof -
  have "0 \<le> cap_delay p (grown_delay p attempt)"
    by (simp add: cap_delay_def)
  with jitter_bounds [OF this assms(2-4)] show ?thesis
    by (auto simp: computeBackoff_split [OF assms(1)] Let_def)
qed


section \<open>Properties\<close>







end
