(* ===== verification/Scheduler.thy ===== *)
theory Scheduler
  imports Ports Backoff
begin

text \<open>
  The scheduler service, \<^verbatim>\<open>internal/scheduler/scheduler.go\<close>, with the worker client
  (\<^verbatim>\<open>internal/workerclient/client.go\<close>). A method of \<open>Service\<close> is a computation in the state monad
  over \<open>World\<close>: the service's own maps, the states behind its store and queue, the calls it has
  sent to workers, and a source of outside values of which every external interaction takes the
  next. A nil \<open>info\<close>, \<open>conn\<close> or \<open>client\<close> pointer does not occur: \<open>RegisterWorker\<close>, the only writer of
  the worker map, sets all three, so a connection is the record it points to. Log output and
  sleeping have no model.
\<close>

section \<open>State\<close>

record SchedulerConfig =
  sch_ID :: string
  sch_PollInterval :: duration
  sch_AssignBatchSize :: int
  sch_HeartbeatTimeout :: duration
  sch_SuspectGracePeriod :: duration
  sch_GRPCAddr :: string
  sch_ListenAddr :: string

record workerConn =
  wc_info :: Worker

record ExecuteJobRequest =
  xr_JobId :: string
  xr_ExecutionId :: string
  xr_Name :: string
  xr_Type :: string
  xr_Payload :: rawmsg
  xr_Attempt :: int
  xr_TimeoutMs :: int
  xr_TraceId :: string

text \<open>A call on a worker's gRPC service: the worker it goes to and the request.\<close>

datatype Rpc = RpcExecute string ExecuteJobRequest | RpcCancel string string string

type_synonym cancelset = "(string, unit) gomap"

record ('s, 'q) World =
  w_store :: 's
  w_queue :: 'q
  w_workers :: "(string, workerConn) gomap"
  w_pendingCancels :: "(string, cancelset) gomap"
  w_sent :: "Rpc list"
  w_ext :: "nat \<Rightarrow> ext"
  w_tick :: nat

record ('s, 'q) Service =
  sv_cfg :: SchedulerConfig
  sv_store :: "'s JobStore"
  sv_queue :: "'q Queue"
  sv_events :: "'s EventPublisher"
  sv_cron :: cronlib
  sv_conv :: "rat \<Rightarrow> int"

type_synonym ('s, 'q, 'a) handler = "(('s, 'q) World, 'a) state"

definition NewService :: "'s \<Rightarrow> 'q \<Rightarrow> (nat \<Rightarrow> ext) \<Rightarrow> ('s, 'q) World" where
  "NewService s q xs =
     \<lparr>w_store = s, w_queue = q, w_workers = [], w_pendingCancels = [], w_sent = [],
      w_ext = xs, w_tick = 0\<rparr>"


section \<open>Outside interactions\<close>

definition next_ext :: "('s, 'q, ext) handler" where
  "next_ext = State (\<lambda>w. (w_ext w (w_tick w), w\<lparr>w_tick := Suc (w_tick w)\<rparr>))"

definition time_now :: "('s, 'q, time) handler" where
  "time_now = do { x \<leftarrow> next_ext; ret (x_now x 0) }"

definition new_uuid :: "('s, 'q, string) handler" where
  "new_uuid = do { x \<leftarrow> next_ext; ret (x_uuid x 0) }"

definition rand_float :: "('s, 'q, rat) handler" where
  "rand_float = do { x \<leftarrow> next_ext; ret (x_rand x) }"

definition store_get :: "(ext \<Rightarrow> 's \<Rightarrow> 'a) \<Rightarrow> ('s, 'q, 'a) handler" where
  "store_get f = do { x \<leftarrow> next_ext; w \<leftarrow> getS; ret (f x (w_store w)) }"

definition store_upd :: "(ext \<Rightarrow> 's \<Rightarrow> 'a \<times> 's) \<Rightarrow> ('s, 'q, 'a) handler" where
  "store_upd f = do {
     x \<leftarrow> next_ext;
     State (\<lambda>w. case f x (w_store w) of (a, s) \<Rightarrow> (a, w\<lparr>w_store := s\<rparr>)) }"

definition queue_upd :: "(ext \<Rightarrow> 'q \<Rightarrow> 'a \<times> 'q) \<Rightarrow> ('s, 'q, 'a) handler" where
  "queue_upd f = do {
     x \<leftarrow> next_ext;
     State (\<lambda>w. case f x (w_queue w) of (a, q) \<Rightarrow> (a, w\<lparr>w_queue := q\<rparr>)) }"

definition getJob :: "('s, 'q) Service \<Rightarrow> string \<Rightarrow> ('s, 'q, Job res) handler" where
  "getJob D jid = store_get (\<lambda>x. js_GetJob (sv_store D) x jid)"

definition updateJobState ::
    "('s, 'q) Service \<Rightarrow> string \<Rightarrow> JobState \<Rightarrow> fields \<Rightarrow> ('s, 'q, Error option) handler" where
  "updateJobState D jid st f = store_upd (\<lambda>x. js_UpdateJobState (sv_store D) x jid st f)"

definition finishExecution ::
    "('s, 'q) Service \<Rightarrow> string \<Rightarrow> ExecutionState \<Rightarrow> ExecutionResult \<Rightarrow> ('s, 'q, unit) handler" where
  "finishExecution D xid st r =
     whenS (xid \<noteq> '''')
       (do { _ \<leftarrow> store_upd (\<lambda>x. js_FinishExecution (sv_store D) x xid st r); ret () })"

definition emit ::
    "('s, 'q) Service \<Rightarrow> EventType \<Rightarrow> string \<Rightarrow> string \<Rightarrow> string \<Rightarrow> int \<Rightarrow> rawmsg \<Rightarrow>
     ('s, 'q, unit) handler" where
  "emit D et jid xid wid attempt payload = do {
     _ \<leftarrow> store_upd (\<lambda>x. ep_Emit (sv_events D) x et jid xid wid attempt payload);
     ret () }"


section \<open>The worker client\<close>

definition execute_request :: "QueuedJob \<Rightarrow> string \<Rightarrow> ExecuteJobRequest" where
  "execute_request job executionID =
     (let timeout = qj_Timeout job;
          timeout = (if timeout \<le> 0 then 30 * Second else timeout)
      in \<lparr>xr_JobId = qj_JobID job, xr_ExecutionId = executionID, xr_Name = qj_Name job,
          xr_Type = JobType_string (qj_Type job), xr_Payload = qj_Payload job,
          xr_Attempt = wrap32 (qj_Attempt job), xr_TimeoutMs = Milliseconds timeout,
          xr_TraceId = qj_TraceID job\<rparr>)"

definition execute_result :: "ExecReply \<Rightarrow> Error option" where
  "execute_result r =
     (case r of
        RpcFailed e \<Rightarrow> Some e
      | RpcNil \<Rightarrow> Some (ErrMsg (''worker rejected job: '' @ ''rejected''))
      | RpcReply accepted msg \<Rightarrow>
          if \<not> accepted then Some (ErrMsg (''worker rejected job: '' @ msg)) else None)"

definition client_ExecuteJob :: "string \<Rightarrow> QueuedJob \<Rightarrow> string \<Rightarrow> ('s, 'q, Error option) handler" where
  "client_ExecuteJob wid job executionID = do {
     x \<leftarrow> next_ext;
     _ \<leftarrow> modifyS (\<lambda>w. w\<lparr>w_sent := w_sent w @ [RpcExecute wid (execute_request job executionID)]\<rparr>);
     ret (execute_result (x_exec x)) }"

definition client_CancelJob :: "string \<Rightarrow> string \<Rightarrow> string \<Rightarrow> ('s, 'q, Error option) handler" where
  "client_CancelJob wid jobID executionID = do {
     x \<leftarrow> next_ext;
     _ \<leftarrow> modifyS (\<lambda>w. w\<lparr>w_sent := w_sent w @ [RpcCancel wid jobID executionID]\<rparr>);
     ret (x_cancel x) }"


section \<open>Promotion of due jobs\<close>

definition queued_job :: "time \<Rightarrow> Job \<Rightarrow> QueuedJob" where
  "queued_job now job =
     \<lparr>qj_JobID = job_ID job, qj_ExecutionID = '''', qj_Name = job_Name job,
      qj_Type = job_Type job, qj_Payload = job_Payload job, qj_Priority = job_Priority job,
      qj_Attempt = job_Attempt job, qj_Timeout = job_Timeout job, qj_EnqueuedAt = now,
      qj_TraceID = ''''\<rparr>"

definition promote_job :: "('s, 'q) Service \<Rightarrow> Job \<Rightarrow> ('s, 'q, unit) handler" where
  "promote_job D job = do {
     t \<leftarrow> time_now;
     e \<leftarrow> queue_upd (\<lambda>x. q_Enqueue (sv_queue D) x (queued_job t job));
     (case e of
        Some _ \<Rightarrow> ret ()
      | None \<Rightarrow> do {
          now \<leftarrow> time_now;
          _ \<leftarrow> store_upd (\<lambda>x. js_UpdateJobStateIf (sv_store D) x (job_ID job) JobStateQueued
                  [(''queued_at'', AnyTime now)] [JobStateScheduled, JobStateRetrying]);
          emit D EventJobQueued (job_ID job) '''' '''' (job_Attempt job) None }) }"

definition promoteDueJobs :: "('s, 'q) Service \<Rightarrow> ('s, 'q, Error option) handler" where
  "promoteDueJobs D = do {
     r \<leftarrow> store_get (\<lambda>x. js_ListDueScheduled (sv_store D) x (sch_AssignBatchSize (sv_cfg D)));
     (case r of
        Inl e \<Rightarrow> ret (Some e)
      | Inr jobs \<Rightarrow> do { _ \<leftarrow> for_each (promote_job D) jobs; ret None }) }"


section \<open>Assignment to a worker\<close>

fun pick_loop :: "workerConn option \<Rightarrow> workerConn list \<Rightarrow> workerConn option" where
  "pick_loop best [] = best"
| "pick_loop best (w # ws) =
     (if \<not> IsAssignable (wc_info w) then pick_loop best ws
      else case best of
             None \<Rightarrow> pick_loop (Some w) ws
           | Some b \<Rightarrow>
               if wk_ActiveJobs (wc_info w) < wk_ActiveJobs (wc_info b)
               then pick_loop (Some w) ws else pick_loop best ws)"

definition pickWorker :: "('s, 'q, workerConn option) handler" where
  "pickWorker = do {
     x \<leftarrow> next_ext;
     w \<leftarrow> getS;
     ret (pick_loop None (map snd (range_map (x_order x) (w_workers w)))) }"

definition upd_worker :: "string \<Rightarrow> (Worker \<Rightarrow> Worker) \<Rightarrow> ('s, 'q) World \<Rightarrow> ('s, 'q) World" where
  "upd_worker wid f w =
     (case map_of (w_workers w) wid of
        None \<Rightarrow> w
      | Some c \<Rightarrow> w\<lparr>w_workers := gput wid (c\<lparr>wc_info := f (wc_info c)\<rparr>) (w_workers w)\<rparr>)"

definition new_execution :: "string \<Rightarrow> QueuedJob \<Rightarrow> string \<Rightarrow> JobExecution" where
  "new_execution executionID job wid =
     \<lparr>ex_ID = executionID, ex_JobID = qj_JobID job, ex_WorkerID = wid,
      ex_Attempt = wrap64 (qj_Attempt job + 1), ex_State = ExecutionPending, ex_StartedAt = None,
      ex_FinishedAt = None, ex_DurationMs = 0, ex_Error = '''', ex_Output = None,
      ex_Retryable = False, ex_CreatedAt = 0\<rparr>"

definition take_slot :: "Worker \<Rightarrow> Worker" where
  "take_slot i = i\<lparr>wk_ActiveJobs := wrap64 (wk_ActiveJobs i + 1)\<rparr>"

text \<open>
  \<open>handleQueuedJob\<close> in the order of its store and network calls: the state check, the
  assignment, the push to the worker, the mark as running.
\<close>

definition start_job ::
    "('s, 'q) Service \<Rightarrow> string \<Rightarrow> string \<Rightarrow> string \<Rightarrow> int \<Rightarrow> time \<Rightarrow> ('s, 'q, Error option) handler" where
  "start_job D jid wid executionID attempt now = do {
     e \<leftarrow> updateJobState D jid JobStateRunning [(''started_at'', AnyTime now)];
     (case e of
        Some e \<Rightarrow> ret (Some e)
      | None \<Rightarrow> do {
          _ \<leftarrow> emit D EventJobStarted jid executionID wid attempt None;
          _ \<leftarrow> modifyS (upd_worker wid take_slot);
          ret None }) }"

definition push_job ::
    "('s, 'q) Service \<Rightarrow> QueuedJob \<Rightarrow> string \<Rightarrow> string \<Rightarrow> int \<Rightarrow> time \<Rightarrow> ('s, 'q, Error option) handler" where
  "push_job D job wid executionID attempt now = do {
     e \<leftarrow> client_ExecuteJob wid (job\<lparr>qj_Attempt := attempt, qj_ExecutionID := executionID\<rparr>) executionID;
     (case e of
        Some e \<Rightarrow> ret (Some e)
      | None \<Rightarrow> start_job D (qj_JobID job) wid executionID attempt now) }"

definition assign_job :: "('s, 'q) Service \<Rightarrow> QueuedJob \<Rightarrow> string \<Rightarrow> ('s, 'q, Error option) handler" where
  "assign_job D job wid = do {
     executionID \<leftarrow> new_uuid;
     r \<leftarrow> store_upd (\<lambda>x. js_CreateExecution (sv_store D) x (new_execution executionID job wid));
     (case r of
        Inl e \<Rightarrow> ret (Some e)
      | Inr ex \<Rightarrow> do {
          now \<leftarrow> time_now;
          e \<leftarrow> updateJobState D (qj_JobID job) JobStateAssigned
                 [(''worker_id'', AnyString wid), (''execution_id'', AnyString executionID),
                  (''attempt'', AnyInt (ex_Attempt ex))];
          (case e of
             Some e \<Rightarrow> ret (Some e)
           | None \<Rightarrow> do {
               _ \<leftarrow> emit D EventJobAssigned (qj_JobID job) executionID wid (ex_Attempt ex) None;
               push_job D job wid executionID (ex_Attempt ex) now }) }) }"

definition queueable :: "JobState \<Rightarrow> bool" where
  "queueable s \<longleftrightarrow> s = JobStateQueued \<or> s = JobStateScheduled \<or> s = JobStateRetrying"

definition handleQueuedJob :: "('s, 'q) Service \<Rightarrow> QueuedJob \<Rightarrow> ('s, 'q, Error option) handler" where
  "handleQueuedJob D job = do {
     r \<leftarrow> getJob D (qj_JobID job);
     (case r of
        Inl e \<Rightarrow> ret (Some e)
      | Inr existing \<Rightarrow>
          if queueable (job_State existing) then do {
            w \<leftarrow> pickWorker;
            (case w of
               None \<Rightarrow> ret (Some ErrNoWorker)
             | Some c \<Rightarrow> assign_job D job (wk_ID (wc_info c))) }
          else ret None) }"


section \<open>Worker registration and heartbeats\<close>

definition RegisterWorker :: "('s, 'q) Service \<Rightarrow> Worker \<Rightarrow> ('s, 'q, Error option) handler" where
  "RegisterWorker D wk = do {
     t \<leftarrow> time_now;
     let wk = wk\<lparr>wk_Status := WorkerStatusHealthy, wk_LastHeartbeat := t\<rparr>;
     let wk = (if wk_RegisteredAt wk = 0 then wk\<lparr>wk_RegisteredAt := wk_LastHeartbeat wk\<rparr> else wk);
     e \<leftarrow> store_upd (\<lambda>x. js_UpsertWorker (sv_store D) x wk);
     (case e of
        Some e \<Rightarrow> ret (Some e)
      | None \<Rightarrow> do {
          x \<leftarrow> next_ext;
          (case x_dial x of
             Some e \<Rightarrow> ret (Some e)
           | None \<Rightarrow> do {
               _ \<leftarrow> modifyS (\<lambda>w. w\<lparr>w_workers := gput (wk_ID wk) \<lparr>wc_info = wk\<rparr> (w_workers w)\<rparr>);
               _ \<leftarrow> emit D EventWorkerRegistered '''' '''' (wk_ID wk) 0
                      (Some (JObj [(''address'', JStr (wk_Address wk)), (''capacity'', JInt (wk_Capacity wk))]));
               ret None }) }) }"

definition Heartbeat ::
    "('s, 'q) Service \<Rightarrow> string \<Rightarrow> int \<Rightarrow> int \<Rightarrow> ('s, 'q, string list \<times> Error option) handler" where
  "Heartbeat D workerID active capacity = do {
     t \<leftarrow> time_now;
     _ \<leftarrow> modifyS (upd_worker workerID
            (\<lambda>i. i\<lparr>wk_ActiveJobs := active, wk_Capacity := capacity, wk_LastHeartbeat := t,
                   wk_Status := WorkerStatusHealthy\<rparr>));
     x \<leftarrow> next_ext;
     w \<leftarrow> getS;
     let cancelIDs = (case map_of (w_pendingCancels w) workerID of
                        None \<Rightarrow> [] | Some cs \<Rightarrow> map fst (range_map (x_order x) cs));
     (case map_of (w_workers w) workerID of
        None \<Rightarrow> ret (cancelIDs, None)
      | Some c \<Rightarrow> do {
          e \<leftarrow> store_upd (\<lambda>x. js_UpsertWorker (sv_store D) x (wc_info c));
          ret (cancelIDs, e) }) }"

definition Deregister :: "('s, 'q) Service \<Rightarrow> string \<Rightarrow> ('s, 'q, Error option) handler" where
  "Deregister D workerID = do {
     _ \<leftarrow> modifyS (\<lambda>w. w\<lparr>w_workers := gdel workerID (w_workers w)\<rparr>);
     _ \<leftarrow> emit D EventWorkerDeregistered '''' '''' workerID 0 None;
     ret None }"


section \<open>Cancellation\<close>

definition add_pending :: "string \<Rightarrow> string \<Rightarrow> ('s, 'q) World \<Rightarrow> ('s, 'q) World" where
  "add_pending workerID jobID w =
     (let cs = (case map_of (w_pendingCancels w) workerID of None \<Rightarrow> [] | Some cs \<Rightarrow> cs)
      in w\<lparr>w_pendingCancels := gput workerID (gput jobID () cs) (w_pendingCancels w)\<rparr>)"

definition drop_pending :: "string \<Rightarrow> string \<Rightarrow> ('s, 'q) World \<Rightarrow> ('s, 'q) World" where
  "drop_pending workerID jobID w =
     (case map_of (w_pendingCancels w) workerID of
        None \<Rightarrow> w
      | Some cs \<Rightarrow>
          (let cs = gdel jobID cs in
           if cs = [] then w\<lparr>w_pendingCancels := gdel workerID (w_pendingCancels w)\<rparr>
           else w\<lparr>w_pendingCancels := gput workerID cs (w_pendingCancels w)\<rparr>))"

definition clearPendingCancel :: "string \<Rightarrow> string \<Rightarrow> ('s, 'q, unit) handler" where
  "clearPendingCancel workerID jobID = modifyS (drop_pending workerID jobID)"

definition cancel_on_worker :: "string \<Rightarrow> string \<Rightarrow> string \<Rightarrow> ('s, 'q, unit) handler" where
  "cancel_on_worker workerID jobID executionID = do {
     w \<leftarrow> getS;
     (case map_of (w_workers w) workerID of
        None \<Rightarrow> ret ()
      | Some _ \<Rightarrow> do { _ \<leftarrow> client_CancelJob workerID jobID executionID; ret () }) }"

definition RequestCancel :: "('s, 'q) Service \<Rightarrow> string \<Rightarrow> ('s, 'q, Error option) handler" where
  "RequestCancel D jobID = do {
     r \<leftarrow> getJob D jobID;
     (case r of
        Inl e \<Rightarrow> ret (Some e)
      | Inr job \<Rightarrow> do {
          _ \<leftarrow> whenS (job_WorkerID job \<noteq> '''') (do {
                 _ \<leftarrow> modifyS (add_pending (job_WorkerID job) jobID);
                 cancel_on_worker (job_WorkerID job) jobID (job_ExecutionID job) });
          ret None }) }"

definition push_cancel :: "('s, 'q) Service \<Rightarrow> Job \<Rightarrow> ('s, 'q, unit) handler" where
  "push_cancel D job =
     (if job_WorkerID job = '''' then do {
        now \<leftarrow> time_now;
        _ \<leftarrow> updateJobState D (job_ID job) JobStateCancelled [(''completed_at'', AnyTime now)];
        emit D EventJobCancelled (job_ID job) (job_ExecutionID job) '''' (job_Attempt job) None }
      else do {
        _ \<leftarrow> modifyS (add_pending (job_WorkerID job) (job_ID job));
        cancel_on_worker (job_WorkerID job) (job_ID job) (job_ExecutionID job) })"

definition pushPendingCancels :: "('s, 'q) Service \<Rightarrow> ('s, 'q, Error option) handler" where
  "pushPendingCancels D = do {
     r \<leftarrow> store_get (\<lambda>x. js_ListCancelRequested (sv_store D) x (sch_AssignBatchSize (sv_cfg D)));
     (case r of
        Inl e \<Rightarrow> ret (Some e)
      | Inr jobs \<Rightarrow> do { _ \<leftarrow> for_each (push_cancel D) jobs; ret None }) }"


section \<open>Results\<close>

definition child_job :: "Job \<Rightarrow> time \<Rightarrow> Job" where
  "child_job job next =
     \<lparr>job_ID = '''', job_Name = job_Name job, job_Type = job_Type job,
      job_Payload = job_Payload job, job_Priority = job_Priority job,
      job_State = JobStateScheduled, job_Schedule = job_Schedule job,
      job_RetryPolicy = job_RetryPolicy job, job_Timeout = job_Timeout job,
      job_IdempotencyKey = '''', job_Attempt = 0, job_MaxAttempts = job_MaxAttempts job,
      job_WorkerID = '''', job_ExecutionID = '''', job_LastError = '''',
      job_ScheduledAt = Some next, job_QueuedAt = None, job_StartedAt = None,
      job_CompletedAt = None, job_NextRetryAt = None, job_CreatedAt = 0,
      job_UpdatedAt = 0, job_Metadata = job_Metadata job\<rparr>"

definition maybeRescheduleRecurring :: "('s, 'q) Service \<Rightarrow> Job \<Rightarrow> time \<Rightarrow> ('s, 'q, unit) handler" where
  "maybeRescheduleRecurring D job from =
     (if sc_Type (job_Schedule job) \<noteq> ScheduleRecurring then ret ()
      else case NextRunAt (sv_cron D) (job_Schedule job) from of
        Inl e \<Rightarrow> ret ()
      | Inr next \<Rightarrow> do {
          r \<leftarrow> store_upd (\<lambda>x. js_CreateJob (sv_store D) x (child_job job next));
          (case r of
             Inl e \<Rightarrow> ret ()
           | Inr child \<Rightarrow>
               emit D EventJobScheduled (job_ID child) '''' '''' 0
                 (Some (JObj [(''parent_job_id'', JStr (job_ID job)), (''recurring'', JBool True),
                              (''scheduled_at'', JTime next)]))) })"

definition default_reason :: "ExecutionResult \<Rightarrow> ExecutionResult" where
  "default_reason r =
     (if er_Reason r = ReasonOther '''' then
        (if er_Success r then r\<lparr>er_Reason := ReasonSuccess\<rparr> else r\<lparr>er_Reason := ReasonFailed\<rparr>)
      else r)"

definition backoff :: "('s, 'q) Service \<Rightarrow> RetryPolicy \<Rightarrow> int \<Rightarrow> ('s, 'q, duration) handler" where
  "backoff D p attempt = do { r \<leftarrow> rand_float; ret (computeBackoff (sv_conv D) r p attempt) }"

definition result_cancelled ::
    "('s, 'q) Service \<Rightarrow> string \<Rightarrow> string \<Rightarrow> string \<Rightarrow> int \<Rightarrow> ExecutionResult \<Rightarrow> time \<Rightarrow> ('s, 'q, unit) handler" where
  "result_cancelled D jobID executionID workerID attempt result now = do {
     _ \<leftarrow> finishExecution D executionID ExecutionCancelled result;
     _ \<leftarrow> updateJobState D jobID JobStateCancelled
            [(''completed_at'', AnyTime now), (''last_error'', AnyString (er_Error result))];
     emit D EventJobCancelled jobID executionID workerID attempt
       (Some (JObj [(''reason'', JStr (ResultReason_string (er_Reason result)))])) }"

definition result_success ::
    "('s, 'q) Service \<Rightarrow> Job \<Rightarrow> string \<Rightarrow> string \<Rightarrow> string \<Rightarrow> int \<Rightarrow> ExecutionResult \<Rightarrow> time \<Rightarrow> ('s, 'q, unit) handler" where
  "result_success D job jobID executionID workerID attempt result now = do {
     _ \<leftarrow> finishExecution D executionID ExecutionCompleted result;
     _ \<leftarrow> updateJobState D jobID JobStateCompleted [(''completed_at'', AnyTime now)];
     _ \<leftarrow> emit D EventJobCompleted jobID executionID workerID attempt
            (Some (JObj [(''duration_ms'', JInt (Milliseconds (er_Duration result)))]));
     maybeRescheduleRecurring D job now }"

definition result_timeout ::
    "('s, 'q) Service \<Rightarrow> Job \<Rightarrow> string \<Rightarrow> string \<Rightarrow> string \<Rightarrow> int \<Rightarrow> ExecutionResult \<Rightarrow> time \<Rightarrow> ('s, 'q, unit) handler" where
  "result_timeout D job jobID executionID workerID attempt result now = do {
     _ \<leftarrow> finishExecution D executionID ExecutionTimeout result;
     _ \<leftarrow> emit D EventJobTimeout jobID executionID workerID attempt
            (Some (JObj [(''error'', JStr (er_Error result))]));
     if attempt < job_MaxAttempts job then do {
       delay \<leftarrow> backoff D (job_RetryPolicy job) attempt;
       let next = now + delay;
       _ \<leftarrow> updateJobState D jobID JobStateRetrying
              [(''next_retry_at'', AnyTime next), (''last_error'', AnyString ''timeout''),
               (''worker_id'', AnyString ''''), (''execution_id'', AnyString '''')];
       emit D EventJobRetryScheduled jobID executionID workerID attempt
         (Some (JObj [(''next_retry_at'', JTime next), (''reason'', JStr ''timeout'')])) }
     else do {
       _ \<leftarrow> updateJobState D jobID JobStateTimeout
              [(''completed_at'', AnyTime now), (''last_error'', AnyString ''timeout'')];
       ret () } }"

definition result_failed ::
    "('s, 'q) Service \<Rightarrow> Job \<Rightarrow> string \<Rightarrow> string \<Rightarrow> string \<Rightarrow> int \<Rightarrow> ExecutionResult \<Rightarrow> time \<Rightarrow> ('s, 'q, unit) handler" where
  "result_failed D job jobID executionID workerID attempt result now = do {
     _ \<leftarrow> finishExecution D executionID ExecutionFailed result;
     _ \<leftarrow> emit D EventJobFailed jobID executionID workerID attempt
            (Some (JObj [(''error'', JStr (er_Error result)), (''retryable'', JBool (er_Retryable result))]));
     if er_Retryable result \<and> attempt < job_MaxAttempts job then do {
       delay \<leftarrow> backoff D (job_RetryPolicy job) attempt;
       let next = now + delay;
       _ \<leftarrow> updateJobState D jobID JobStateRetrying
              [(''next_retry_at'', AnyTime next), (''last_error'', AnyString (er_Error result)),
               (''worker_id'', AnyString ''''), (''execution_id'', AnyString '''')];
       emit D EventJobRetryScheduled jobID executionID workerID attempt
         (Some (JObj [(''delay_ms'', JInt (Milliseconds delay)), (''next_retry_at'', JTime next)])) }
     else do {
       _ \<leftarrow> updateJobState D jobID JobStateFailed
              [(''completed_at'', AnyTime now), (''last_error'', AnyString (er_Error result))];
       ret () } }"

definition release_slot :: "Worker \<Rightarrow> Worker" where
  "release_slot i = (if wk_ActiveJobs i > 0 then i\<lparr>wk_ActiveJobs := wk_ActiveJobs i - 1\<rparr> else i)"

definition HandleResult ::
    "('s, 'q) Service \<Rightarrow> string \<Rightarrow> string \<Rightarrow> string \<Rightarrow> int \<Rightarrow> ExecutionResult \<Rightarrow> ('s, 'q, Error option) handler" where
  "HandleResult D jobID executionID workerID attempt result0 = do {
     _ \<leftarrow> modifyS (upd_worker workerID release_slot);
     _ \<leftarrow> clearPendingCancel workerID jobID;
     let result = default_reason result0;
     r \<leftarrow> getJob D jobID;
     (case r of
        Inl e \<Rightarrow> ret (Some e)
      | Inr job \<Rightarrow>
          if terminal (job_State job) then ret None
          else do {
            now \<leftarrow> time_now;
            _ \<leftarrow> (if er_Reason result = ReasonCancelled \<or> job_State job = JobStateCancelRequested
                  then result_cancelled D jobID executionID workerID attempt result now
                  else if er_Success result
                  then result_success D job jobID executionID workerID attempt result now
                  else if er_Reason result = ReasonTimeout
                  then result_timeout D job jobID executionID workerID attempt result now
                  else result_failed D job jobID executionID workerID attempt result now);
            ret None }) }"


section \<open>Timeouts and lost workers\<close>

definition timeout_result :: "Job \<Rightarrow> ExecutionResult" where
  "timeout_result job =
     \<lparr>er_Success = False, er_Output = None, er_Error = ''timeout'', er_Retryable = True,
      er_Duration = job_Timeout job, er_Reason = ReasonTimeout\<rparr>"

definition watchdog_job :: "('s, 'q) Service \<Rightarrow> Job \<Rightarrow> ('s, 'q, unit) handler" where
  "watchdog_job D job = do {
     _ \<leftarrow> whenS (job_WorkerID job \<noteq> '''')
            (cancel_on_worker (job_WorkerID job) (job_ID job) (job_ExecutionID job));
     _ \<leftarrow> HandleResult D (job_ID job) (job_ExecutionID job) (job_WorkerID job) (job_Attempt job)
            (timeout_result job);
     ret () }"

definition watchdogTimeouts :: "('s, 'q) Service \<Rightarrow> ('s, 'q, Error option) handler" where
  "watchdogTimeouts D = do {
     now \<leftarrow> time_now;
     r \<leftarrow> store_get (\<lambda>x. js_ListTimedOutRunning (sv_store D) x now (sch_AssignBatchSize (sv_cfg D)));
     (case r of
        Inl e \<Rightarrow> ret (Some e)
      | Inr jobs \<Rightarrow> do { _ \<leftarrow> for_each (watchdog_job D) jobs; ret None }) }"

definition lost_result :: ExecutionResult where
  "lost_result =
     \<lparr>er_Success = False, er_Output = None, er_Error = ''worker lost'', er_Retryable = False,
      er_Duration = 0, er_Reason = ReasonFailed\<rparr>"

definition lost_payload :: rawmsg where
  "lost_payload = Some (JObj [(''reason'', JStr ''worker_lost'')])"

definition recover_job :: "('s, 'q) Service \<Rightarrow> string \<Rightarrow> time \<Rightarrow> Job \<Rightarrow> ('s, 'q, unit) handler" where
  "recover_job D workerID now j =
     (if job_WorkerID j \<noteq> workerID then ret ()
      else do {
        _ \<leftarrow> finishExecution D (job_ExecutionID j) ExecutionFailed lost_result;
        if job_State j = JobStateCancelRequested then do {
          _ \<leftarrow> updateJobState D (job_ID j) JobStateCancelled
                 [(''completed_at'', AnyTime now), (''last_error'', AnyString ''worker lost during cancel'')];
          emit D EventJobCancelled (job_ID j) (job_ExecutionID j) workerID (job_Attempt j) lost_payload }
        else if job_Attempt j < job_MaxAttempts j then do {
          _ \<leftarrow> updateJobState D (job_ID j) JobStateRetrying
                 [(''next_retry_at'', AnyTime now), (''last_error'', AnyString ''worker lost''),
                  (''worker_id'', AnyString ''''), (''execution_id'', AnyString '''')];
          emit D EventJobRetryScheduled (job_ID j) (job_ExecutionID j) workerID (job_Attempt j) lost_payload }
        else do {
          _ \<leftarrow> updateJobState D (job_ID j) JobStateFailed
                 [(''completed_at'', AnyTime now),
                  (''last_error'', AnyString ''worker lost, max attempts exceeded'')];
          emit D EventJobFailed (job_ID j) (job_ExecutionID j) workerID (job_Attempt j) lost_payload } })"

definition recoverWorkerJobs :: "('s, 'q) Service \<Rightarrow> string \<Rightarrow> ('s, 'q, Error option) handler" where
  "recoverWorkerJobs D workerID = do {
     r1 \<leftarrow> store_get (\<lambda>x. js_ListJobs (sv_store D) x (JobState_string JobStateRunning) 1000);
     (case r1 of
        Inl e \<Rightarrow> ret (Some e)
      | Inr jobs \<Rightarrow> do {
          r2 \<leftarrow> store_get (\<lambda>x. js_ListJobs (sv_store D) x (JobState_string JobStateAssigned) 1000);
          (case r2 of
             Inl e \<Rightarrow> ret (Some e)
           | Inr assigned \<Rightarrow> do {
               r3 \<leftarrow> store_get (\<lambda>x. js_ListJobs (sv_store D) x (JobState_string JobStateCancelRequested) 1000);
               (case r3 of
                  Inl e \<Rightarrow> ret (Some e)
                | Inr cancelReq \<Rightarrow> do {
                    now \<leftarrow> time_now;
                    _ \<leftarrow> for_each (recover_job D workerID now) (jobs @ assigned @ cancelReq);
                    _ \<leftarrow> modifyS (\<lambda>w. w\<lparr>w_pendingCancels := gdel workerID (w_pendingCancels w)\<rparr>);
                    ret None }) }) }) }"

definition lose_worker :: "('s, 'q) Service \<Rightarrow> string \<Rightarrow> ('s, 'q, unit) handler" where
  "lose_worker D wid = do {
     _ \<leftarrow> modifyS (\<lambda>w. w\<lparr>w_workers := gdel wid (w_workers w)\<rparr>);
     _ \<leftarrow> emit D EventWorkerUnavailable '''' '''' wid 0 None;
     _ \<leftarrow> recoverWorkerJobs D wid;
     ret () }"

definition checkWorkers :: "('s, 'q) Service \<Rightarrow> ('s, 'q, Error option) handler" where
  "checkWorkers D = do {
     r \<leftarrow> store_upd (\<lambda>x. js_MarkStaleWorkers (sv_store D) x
            (sch_HeartbeatTimeout (sv_cfg D)) (sch_SuspectGracePeriod (sv_cfg D)));
     (case r of
        Inl e \<Rightarrow> ret (Some e)
      | Inr p \<Rightarrow> do { _ \<leftarrow> for_each (lose_worker D) (snd p); ret None }) }"

text \<open>
  \<open>Run\<close>: the event it emits when it starts and when its context ends, and one tick of its polling
  goroutine; errors of the four passes are only logged.
\<close>

definition run_started :: "('s, 'q) Service \<Rightarrow> ('s, 'q, unit) handler" where
  "run_started D =
     emit D EventSchedulerStarted '''' '''' '''' 0
       (Some (JObj [(''scheduler_id'', JStr (sch_ID (sv_cfg D)))]))"

definition run_stopped :: "('s, 'q) Service \<Rightarrow> ('s, 'q, unit) handler" where
  "run_stopped D = emit D EventSchedulerStopped '''' '''' '''' 0 None"

definition poll_tick :: "('s, 'q) Service \<Rightarrow> ('s, 'q, unit) handler" where
  "poll_tick D = do {
     _ \<leftarrow> promoteDueJobs D;
     _ \<leftarrow> pushPendingCancels D;
     _ \<leftarrow> watchdogTimeouts D;
     _ \<leftarrow> checkWorkers D;
     ret () }"

end
