(* ===== verification/Auth.thy ===== *)
theory Auth
  imports Prelude
begin

text \<open>
  API keys and worker tokens, \<^verbatim>\<open>internal/auth/apikey.go\<close>. An HTTP header is the map of
  \<open>net/http\<close>, from canonical names to the list of values; \<open>strings.ToLower\<close> and \<open>TrimSpace\<close> are
  modelled on ASCII. The wrapped handler is any function on requests and states.
\<close>

section \<open>Standard library\<close>

definition to_lower :: "char \<Rightarrow> char" where
  "to_lower c = (let n = (of_char c :: nat) in if 65 \<le> n \<and> n \<le> 90 then char_of (n + 32) else c)"

definition to_upper :: "char \<Rightarrow> char" where
  "to_upper c = (let n = (of_char c :: nat) in if 97 \<le> n \<and> n \<le> 122 then char_of (n - 32) else c)"

definition ToLower :: "string \<Rightarrow> string" where
  "ToLower s = map to_lower s"

definition is_space :: "char \<Rightarrow> bool" where
  "is_space c \<longleftrightarrow> (let n = (of_char c :: nat) in n = 32 \<or> 9 \<le> n \<and> n \<le> 13)"

definition TrimSpace :: "string \<Rightarrow> string" where
  "TrimSpace s = rev (dropWhile is_space (rev (dropWhile is_space s)))"

definition HasPrefix :: "string \<Rightarrow> string \<Rightarrow> bool" where
  "HasPrefix s p \<longleftrightarrow> take (length p) s = p"

text \<open>The canonical form of a header name: upper case at the start and after a hyphen.\<close>

fun canonical :: "bool \<Rightarrow> string \<Rightarrow> string" where
  "canonical up [] = []"
| "canonical up (c # cs) = (if up then to_upper c else to_lower c) # canonical (c = CHR ''-'') cs"

text \<open>A name with a byte that no header name may have is left as it is.\<close>

definition token_char :: "char \<Rightarrow> bool" where
  "token_char c \<longleftrightarrow>
     (let n = (of_char c :: nat) in
      48 \<le> n \<and> n \<le> 57 \<or> 65 \<le> n \<and> n \<le> 90 \<or> 97 \<le> n \<and> n \<le> 122 \<or>
      c \<in> set [CHR ''!'', CHR ''#'', CHR ''$'', CHR ''%'', CHR ''&'', char_of (39 :: nat), CHR ''*'', CHR ''+'',
               CHR ''-'', CHR ''.'', CHR ''^'', CHR ''_'', char_of (96 :: nat), CHR ''|'', CHR ''~''])"

definition CanonicalHeaderKey :: "string \<Rightarrow> string" where
  "CanonicalHeaderKey k = (if list_all token_char k then canonical True k else k)"

type_synonym header = "(string, string list) gomap"

definition header_Set :: "string \<Rightarrow> string \<Rightarrow> header \<Rightarrow> header" where
  "header_Set k v h = gput (CanonicalHeaderKey k) [v] h"

definition header_Get :: "header \<Rightarrow> string \<Rightarrow> string" where
  "header_Get h k =
     (case map_of h (CanonicalHeaderKey k) of
        None \<Rightarrow> ''''
      | Some [] \<Rightarrow> ''''
      | Some (v # vs) \<Rightarrow> v)"


section \<open>The authenticator\<close>

definition HeaderAPIKey :: string where "HeaderAPIKey = ''X-API-Key''"

record Authenticator =
  au_apiKeys :: "(string, unit) gomap"
  au_workerTokens :: "(string, unit) gomap"
  au_disabled :: bool

fun add_keys :: "string list \<Rightarrow> (string, unit) gomap \<Rightarrow> (string, unit) gomap" where
  "add_keys [] m = m"
| "add_keys (k # ks) m = add_keys ks (if k \<noteq> '''' then gput k () m else m)"

definition auth_New :: "string list \<Rightarrow> string list \<Rightarrow> bool \<Rightarrow> Authenticator" where
  "auth_New apiKeys workerTokens disabled =
     \<lparr>au_apiKeys = add_keys apiKeys [], au_workerTokens = add_keys workerTokens [], au_disabled = disabled\<rparr>"

definition ValidAPIKey :: "Authenticator \<Rightarrow> string \<Rightarrow> bool" where
  "ValidAPIKey a key = (if au_disabled a then True else map_of (au_apiKeys a) key \<noteq> None)"

definition ValidWorkerToken :: "Authenticator \<Rightarrow> string \<Rightarrow> bool" where
  "ValidWorkerToken a token = (if au_disabled a then True else map_of (au_workerTokens a) token \<noteq> None)"

definition request_key :: "header \<Rightarrow> string" where
  "request_key h =
     (let key = header_Get h HeaderAPIKey in
      if key = '''' then
        (let authz = header_Get h ''Authorization'' in
         if HasPrefix (ToLower authz) ''apikey '' then TrimSpace (drop 7 authz) else key)
      else key)"

definition HTTPMiddleware ::
    "Authenticator \<Rightarrow> 'a \<Rightarrow> ('s, 'a) state \<Rightarrow> header \<Rightarrow> ('s, 'a) state" where
  "HTTPMiddleware a unauthorized next h =
     (if au_disabled a then next
      else if \<not> ValidAPIKey a (request_key h) then ret unauthorized
      else next)"

fun SecureCompare_loop :: "string \<Rightarrow> string \<Rightarrow> bool \<Rightarrow> bool" where
  "SecureCompare_loop (x # xs) (y # ys) eq = SecureCompare_loop xs ys (eq \<and> x = y)"
| "SecureCompare_loop _ _ eq = eq"

definition SecureCompare :: "string \<Rightarrow> string \<Rightarrow> bool" where
  "SecureCompare a b = (if length a \<noteq> length b then False else SecureCompare_loop a b True)"


section \<open>Lemmas\<close>

text \<open>
  What it means for a request to carry a key: the first value of \<open>X-API-Key\<close>, if there is one and it is not
  empty; otherwise the text after the scheme \<open>ApiKey\<close> of the first value of \<open>Authorization\<close>, up to white space
  around it. Header names are in their canonical form, as the server files them.
\<close>

definition carries_key :: "header \<Rightarrow> string \<Rightarrow> bool" where
  "carries_key h k \<longleftrightarrow>
     (case map_of h ''X-Api-Key'' of
        Some (v # vs) \<Rightarrow> v
      | _ \<Rightarrow> '''') = k \<and> k \<noteq> '''' \<or>
     (\<forall>v vs. map_of h ''X-Api-Key'' = Some (v # vs) \<longrightarrow> v = '''') \<and>
     (\<exists>p a b vs. map_of h ''Authorization'' = Some ((p @ a @ k @ b) # vs) \<and> ToLower p = ''apikey '' \<and>
        list_all is_space a \<and> list_all is_space b \<and> k \<noteq> '''' \<and> \<not> is_space (hd k) \<and> \<not> is_space (last k))"

lemma dropWhile_exact:
  "dropWhile P s = k \<and> k \<noteq> [] \<longleftrightarrow> (\<exists>a. s = a @ k \<and> list_all P a \<and> k \<noteq> [] \<and> \<not> P (hd k))"
proof
  assume l: "dropWhile P s = k \<and> k \<noteq> []"
  then have "s = takeWhile P s @ k" using takeWhile_dropWhile_id [of P s] by simp
  moreover have "list_all P (takeWhile P s)" by (auto simp: list_all_iff dest: set_takeWhileD)
  moreover have "\<not> P (hd k)" using l hd_dropWhile by blast
  ultimately show "\<exists>a. s = a @ k \<and> list_all P a \<and> k \<noteq> [] \<and> \<not> P (hd k)" using l by blast
next
  assume "\<exists>a. s = a @ k \<and> list_all P a \<and> k \<noteq> [] \<and> \<not> P (hd k)"
  then show "dropWhile P s = k \<and> k \<noteq> []"
    by (auto simp: list_all_iff dropWhile_append dropWhile_eq_self_iff dropWhile_eq_Nil_conv)
qed

lemma TrimSpace_exact:
  "TrimSpace s = k \<and> k \<noteq> [] \<longleftrightarrow>
     (\<exists>a b. s = a @ k @ b \<and> list_all is_space a \<and> list_all is_space b \<and> k \<noteq> [] \<and> \<not> is_space (hd k) \<and> \<not> is_space (last k))"
  (is "?l \<longleftrightarrow> ?r")
proof
  assume l: ?l
  let ?d = "dropWhile is_space s"
  have "dropWhile is_space (rev ?d) = rev k \<and> rev k \<noteq> []" using l by (auto simp: TrimSpace_def)
  then obtain b where b: "rev ?d = b @ rev k" "list_all is_space b" "\<not> is_space (last k)"
    unfolding dropWhile_exact by (auto simp: hd_rev)
  then have d: "?d = k @ rev b" by (metis rev_append rev_rev_ident)
  then have "?d = k @ rev b \<and> k @ rev b \<noteq> []" using l by simp
  then obtain a where "s = a @ k @ rev b" "list_all is_space a" "\<not> is_space (hd (k @ rev b))"
    unfolding dropWhile_exact by auto
  moreover have "hd (k @ rev b) = hd k" "list_all is_space (rev b)" using l b(2) by simp_all
  ultimately show ?r using l b(3) by (intro exI [of _ a] exI [of _ "rev b"]) simp
next
  assume ?r
  then obtain a b where s: "s = a @ k @ b" "list_all is_space a" "list_all is_space b" "k \<noteq> []"
    "\<not> is_space (hd k)" "\<not> is_space (last k)" by blast
  have "dropWhile is_space s = k @ b \<and> k @ b \<noteq> []" unfolding dropWhile_exact using s by auto
  moreover have "dropWhile is_space (rev (k @ b)) = rev k \<and> rev k \<noteq> []"
    unfolding dropWhile_exact using s by (intro exI [of _ "rev b"]) (simp add: hd_rev)
  ultimately show ?l using s(4) by (simp add: TrimSpace_def)
qed

lemma canonical_names [simp]:
  "CanonicalHeaderKey ''X-API-Key'' = ''X-Api-Key''" "CanonicalHeaderKey ''Authorization'' = ''Authorization''"
  by code_simp+

lemma request_key_carries: "request_key h = k \<and> k \<noteq> '''' \<longleftrightarrow> carries_key h k"
proof -
  have p: "HasPrefix (ToLower s) ''apikey '' \<longleftrightarrow> (\<exists>p r. s = p @ r \<and> ToLower p = ''apikey '' \<and> drop 7 s = r)" for s
  proof
    assume "HasPrefix (ToLower s) ''apikey ''"
    then have "ToLower (take 7 s) = ''apikey ''" by (simp add: HasPrefix_def ToLower_def take_map numeral_eq_Suc)
    then show "\<exists>p r. s = p @ r \<and> ToLower p = ''apikey '' \<and> drop 7 s = r"
      by (intro exI [of _ "take 7 s"] exI [of _ "drop 7 s"]) simp
  next
    assume "\<exists>p r. s = p @ r \<and> ToLower p = ''apikey '' \<and> drop 7 s = r"
    then obtain p r where s: "s = p @ r" "ToLower p = ''apikey ''" by blast
    have "length p = length ''apikey ''" using arg_cong [OF s(2), of length] by (simp only: ToLower_def length_map)
    then have "take (length ''apikey '') (ToLower s) = ToLower p" by (simp only: s(1) ToLower_def map_append take_append) simp
    then show "HasPrefix (ToLower s) ''apikey ''" by (simp only: HasPrefix_def s(2))
  qed
  have d: "drop 7 (p @ r) = r" if "ToLower p = ''apikey ''" for p r
    using arg_cong [OF that, of length] by (simp add: ToLower_def)
  let ?trim = "\<lambda>r. \<exists>a b. r = a @ k @ b \<and> list_all is_space a \<and> list_all is_space b \<and>
      k \<noteq> '''' \<and> \<not> is_space (hd k) \<and> \<not> is_space (last k)"
  have t: "(if HasPrefix (ToLower s) ''apikey '' then TrimSpace (drop 7 s) else '''') = k \<and> k \<noteq> '''' \<longleftrightarrow>
      (\<exists>p r. s = p @ r \<and> ToLower p = ''apikey '' \<and> ?trim r)" for s
  proof (cases "HasPrefix (ToLower s) ''apikey ''")
    case True
    then have "\<exists>p0. s = p0 @ drop 7 s \<and> ToLower p0 = ''apikey ''" unfolding p by (elim exE conjE) (simp only:, blast)
    then obtain p0 where s: "s = p0 @ drop 7 s" "ToLower p0 = ''apikey ''" by blast
    have "(\<exists>p r. s = p @ r \<and> ToLower p = ''apikey '' \<and> ?trim r) \<longleftrightarrow> ?trim (drop 7 s)"
    proof
      assume "\<exists>p r. s = p @ r \<and> ToLower p = ''apikey '' \<and> ?trim r"
      then obtain p r where r: "s = p @ r" "ToLower p = ''apikey ''" "?trim r" by blast
      with d [OF r(2), of r] show "?trim (drop 7 s)" by (simp only:)
    qed (use s in blast)
    with True show ?thesis by (simp only: if_True TrimSpace_exact)
  next
    case False
    then have "\<not> (\<exists>p r. s = p @ r \<and> ToLower p = ''apikey '')" unfolding p using d by metis
    with False show ?thesis by (simp only: if_False) blast
  qed
  let ?x = "header_Get h ''X-API-Key''" and ?a = "header_Get h ''Authorization''"
  have x: "?x = (case map_of h ''X-Api-Key'' of Some (v # vs) \<Rightarrow> v | _ \<Rightarrow> '''')"
    "?x = '''' \<longleftrightarrow> (\<forall>v vs. map_of h ''X-Api-Key'' = Some (v # vs) \<longrightarrow> v = '''')"
    unfolding header_Get_def canonical_names by (simp_all split: option.split list.split)
  have a: "?a = s \<and> s \<noteq> '''' \<longleftrightarrow> (\<exists>vs. map_of h ''Authorization'' = Some (s # vs)) \<and> s \<noteq> ''''" for s
    unfolding header_Get_def canonical_names by (auto split: option.split list.split)
  have b: "(\<exists>p r. ?a = p @ r \<and> ToLower p = ''apikey '' \<and> ?trim r) \<longleftrightarrow>
      (\<exists>p a b vs. map_of h ''Authorization'' = Some ((p @ a @ k @ b) # vs) \<and> ToLower p = ''apikey '' \<and>
        list_all is_space a \<and> list_all is_space b \<and> k \<noteq> '''' \<and> \<not> is_space (hd k) \<and> \<not> is_space (last k))"
    using a by (smt (verit) append_is_Nil_conv)
  show ?thesis
    unfolding carries_key_def x(1) [symmetric] x(2) [symmetric] b [symmetric] t [symmetric] request_key_def HeaderAPIKey_def Let_def
    by (cases "?x = ''''") auto
qed

lemma map_of_add_keys: "map_of (add_keys ks m) k = (if k \<in> set ks \<and> k \<noteq> '''' then Some () else map_of m k)"
  by (induction ks arbitrary: m) auto

lemma ValidAPIKey_New:
  "ValidAPIKey (auth_New ks ts d) key \<longleftrightarrow> d \<or> key \<in> set ks \<and> key \<noteq> ''''"
  by (simp add: ValidAPIKey_def auth_New_def map_of_add_keys)

lemma ValidWorkerToken_New:
  "ValidWorkerToken (auth_New ks ts d) token \<longleftrightarrow> d \<or> token \<in> set ts \<and> token \<noteq> ''''"
  by (simp add: ValidWorkerToken_def auth_New_def map_of_add_keys)

lemma SecureCompare_loop_eq:
  "length a = length b \<Longrightarrow> SecureCompare_loop a b eq \<longleftrightarrow> eq \<and> a = b"
  by (induction a b eq rule: SecureCompare_loop.induct) auto

lemma SecureCompare_eq: "SecureCompare a b \<longleftrightarrow> a = b"
  by (auto simp: SecureCompare_def SecureCompare_loop_eq)

lemma HasPrefix_ToLower:
  "HasPrefix (ToLower (p @ s)) q \<longleftrightarrow> ToLower p = q" if "length p = length q"
  using that by (simp add: HasPrefix_def ToLower_def)


text \<open>With authentication enabled, a request reaches the handler exactly when it carries a configured, non-empty key.\<close>

lemma HTTPMiddleware_run:
  "run_state (HTTPMiddleware (auth_New ks ts False) unauthorized next h) s =
     (if request_key h \<in> set ks \<and> request_key h \<noteq> '''' then run_state next s else (unauthorized, s))"
  by (simp add: HTTPMiddleware_def ValidAPIKey_New) (simp add: auth_New_def)

end
