(* ===== verification/Durations.thy ===== *)
theory Durations
  imports Prelude
begin

text \<open>
  \<open>time.ParseDuration\<close> of Go's library, which the configuration and the analytics endpoints use. Strings are
  byte strings; the fraction of a duration is computed exactly, where Go rounds to float64.
\<close>

definition is_digit :: "char \<Rightarrow> bool" where
  "is_digit c \<longleftrightarrow> (let n = (of_char c :: nat) in 48 \<le> n \<and> n \<le> 57)"

definition digit_val :: "char \<Rightarrow> int" where
  "digit_val c = int ((of_char c :: nat) - 48)"

text \<open>\<open>time.ParseDuration\<close> with its two helpers; None is an error.\<close>

fun leadingInt :: "int \<Rightarrow> string \<Rightarrow> (int \<times> string) option" where
  "leadingInt x [] = Some (x, [])"
| "leadingInt x (c # s) =
     (if \<not> is_digit c then Some (x, c # s)
      else if 2 ^ 63 div 10 < x then None
      else let x = x * 10 + digit_val c in
           if 2 ^ 63 < x then None else leadingInt x s)"

fun leadingFraction :: "bool \<Rightarrow> int \<Rightarrow> int \<Rightarrow> string \<Rightarrow> int \<times> int \<times> string" where
  "leadingFraction ovf x scale [] = (x, scale, [])"
| "leadingFraction ovf x scale (c # s) =
     (if \<not> is_digit c then (x, scale, c # s)
      else if ovf then leadingFraction ovf x scale s
      else if (2 ^ 63 - 1) div 10 < x then leadingFraction True x scale s
      else let y = x * 10 + digit_val c in
           if 2 ^ 63 < y then leadingFraction True x scale s
           else leadingFraction ovf y (scale * 10) s)"

definition unitMap :: "string \<Rightarrow> int option" where
  "unitMap u = map_of
     [(''ns'', 1), (''us'', 1000), ([CHR 0xC2, CHR 0xB5, CHR ''s''], 1000),
      ([CHR 0xCE, CHR 0xBC, CHR ''s''], 1000), (''ms'', Millisecond), (''s'', Second),
      (''m'', 60 * Second), (''h'', 3600 * Second)] u"

definition unit_char :: "char \<Rightarrow> bool" where
  "unit_char c \<longleftrightarrow> \<not> (c = CHR ''.'' \<or> is_digit c)"

text \<open>One number with its unit: its value and the rest of the string.\<close>

definition duration_part :: "string \<Rightarrow> (int \<times> string) option" where
  "duration_part s =
     (case leadingInt 0 s of
        None \<Rightarrow> None
      | Some (v, s1) \<Rightarrow>
          (let pre = (length s1 \<noteq> length s);
               dot = (s1 \<noteq> [] \<and> hd s1 = CHR ''.'');
               (f, scale, s2) = (if dot then leadingFraction False 0 1 (tl s1) else (0, 1, s1));
               post = (dot \<and> length s2 \<noteq> length (tl s1));
               u = takeWhile unit_char s2
           in if \<not> pre \<and> \<not> post then None
              else if u = [] then None
              else case unitMap u of
                None \<Rightarrow> None
              | Some unit \<Rightarrow>
                  if 2 ^ 63 div unit < v then None
                  else let v = v * unit + (if 0 < f then f * unit div scale else 0) in
                       if 2 ^ 63 < v then None else Some (v, dropWhile unit_char s2)))"

lemma leadingInt_length: "leadingInt x s = Some (v, s') \<Longrightarrow> length s' \<le> length s"
  by (induction x s rule: leadingInt.induct) (auto simp: Let_def split: if_splits)

lemma leadingFraction_length: "leadingFraction ovf x scale s = (f, sc, s') \<Longrightarrow> length s' \<le> length s"
  by (induction ovf x scale s rule: leadingFraction.induct) (auto simp: Let_def split: if_splits)

lemma dropWhile_shorter: "takeWhile P s \<noteq> [] \<Longrightarrow> length (dropWhile P s) < length s"
  by (metis append_eq_append_conv append_self_conv2 length_dropWhile_le order_le_neq_trans takeWhile_dropWhile_id)

lemma duration_part_shorter:
  assumes "duration_part s = Some (v, s')"
  shows "length s' < length s"
proof -
  obtain v1 s1 where a: "leadingInt 0 s = Some (v1, s1)"
    using assms by (auto simp: duration_part_def split: option.splits)
  obtain f sc s2 where b: "(if s1 \<noteq> [] \<and> hd s1 = CHR ''.'' then leadingFraction False 0 1 (tl s1) else (0, 1, s1)) = (f, sc, s2)"
    by (metis prod_cases3)
  have "length s2 \<le> length s1"
    using b leadingFraction_length [of False 0 1 "tl s1"] by (auto split: if_splits)
  moreover have "takeWhile unit_char s2 \<noteq> [] \<and> s' = dropWhile unit_char s2"
    using assms by (auto simp: duration_part_def a b Let_def split: if_splits option.splits)
  ultimately show ?thesis using dropWhile_shorter [of unit_char s2] leadingInt_length [OF a] by simp
qed

function duration_loop :: "int \<Rightarrow> string \<Rightarrow> int option" where
  "duration_loop d s =
     (if s = [] then Some d
      else if \<not> (hd s = CHR ''.'' \<or> is_digit (hd s)) then None
      else case duration_part s of
        None \<Rightarrow> None
      | Some (v, s') \<Rightarrow>
          (let d = (d + v) mod 2 ^ 64 in if 2 ^ 63 < d then None else duration_loop d s'))"
  by pat_completeness auto

termination duration_loop
  by (relation "measure (\<lambda>(d, s). length s)") (auto dest: duration_part_shorter)

declare duration_loop.simps [simp del]

definition ParseDuration :: "string \<Rightarrow> duration option" where
  "ParseDuration s =
     (let neg = (s \<noteq> [] \<and> hd s = CHR ''-'');
          s = (if s \<noteq> [] \<and> (hd s = CHR ''-'' \<or> hd s = CHR ''+'') then tl s else s)
      in if s = ''0'' then Some 0
         else if s = '''' then None
         else case duration_loop 0 s of
           None \<Rightarrow> None
         | Some d \<Rightarrow> if neg then Some (- d) else if 2 ^ 63 - 1 < d then None else Some d)"

end
