(* ===== verification/Json.thy ===== *)
theory Json
  imports Domain Auth "HOL-Library.List_Lexorder" "HOL-Library.Char_ord"
begin

text \<open>
  \<open>encoding/json\<close> on the struct types the program encodes and decodes: payloads, the JSON columns of
  the database, queue messages and events. In decoding, fields are matched up to case, a later key
  overwrites an earlier one, a value of the wrong type leaves its field alone and makes the decoding
  fail in the end. In encoding, map keys are sorted and empty fields tagged \<open>omitempty\<close> left out.
\<close>

section \<open>Decoding\<close>

text \<open>The decoder of one field: whether the value fits, and the struct afterwards.\<close>

type_synonym 'p setter = "json \<Rightarrow> 'p \<Rightarrow> bool \<times> 'p"

definition set_string :: "(string \<Rightarrow> 'p \<Rightarrow> 'p) \<Rightarrow> 'p setter" where
  "set_string f v p = (case v of JStr s \<Rightarrow> (True, f s p) | JNull \<Rightarrow> (True, p) | _ \<Rightarrow> (False, p))"

definition set_int :: "(int \<Rightarrow> 'p \<Rightarrow> 'p) \<Rightarrow> 'p setter" where
  "set_int f v p =
     (case v of
        JInt n \<Rightarrow> if - (2 ^ 63) \<le> n \<and> n < 2 ^ 63 then (True, f n p) else (False, p)
      | JNull \<Rightarrow> (True, p)
      | _ \<Rightarrow> (False, p))"

definition set_bool :: "(bool \<Rightarrow> 'p \<Rightarrow> 'p) \<Rightarrow> 'p setter" where
  "set_bool f v p = (case v of JBool b \<Rightarrow> (True, f b p) | JNull \<Rightarrow> (True, p) | _ \<Rightarrow> (False, p))"

definition set_raw :: "(rawmsg \<Rightarrow> 'p \<Rightarrow> 'p) \<Rightarrow> 'p setter" where
  "set_raw f v p = (True, f (Some v) p)"

fun string_map :: "(string \<times> json) list \<Rightarrow> (string, string) gomap \<Rightarrow> bool \<times> (string, string) gomap" where
  "string_map [] m = (True, m)"
| "string_map ((k, v) # kvs) m =
     (case v of
        JStr s \<Rightarrow> string_map kvs (gput k s m)
      | JNull \<Rightarrow> string_map kvs (gput k '''' m)
      | _ \<Rightarrow> (False, snd (string_map kvs (gput k '''' m))))"

definition set_string_map :: "(metadata \<Rightarrow> 'p \<Rightarrow> 'p) \<Rightarrow> 'p setter" where
  "set_string_map f v p =
     (case v of
        JObj kvs \<Rightarrow> (case string_map kvs [] of (ok, m) \<Rightarrow> (ok, f (Some m) p))
      | JNull \<Rightarrow> (True, f None p)
      | _ \<Rightarrow> (False, p))"

fun decode_fields :: "(string \<times> 'p setter) list \<Rightarrow> (string \<times> json) list \<Rightarrow> 'p \<Rightarrow> bool \<times> 'p" where
  "decode_fields fs [] p = (True, p)"
| "decode_fields fs ((k, v) # kvs) p =
     (case map_of fs (ToLower k) of
        None \<Rightarrow> decode_fields fs kvs p
      | Some f \<Rightarrow>
          (case f v p of (ok, p') \<Rightarrow>
             (case decode_fields fs kvs p' of (ok', p'') \<Rightarrow> (ok \<and> ok', p''))))"

text \<open>
  \<open>json.Unmarshal\<close> into a struct with its zero value: whether it succeeds, and the struct. The
  input is a document or, for a nil \<open>RawMessage\<close>, empty.
\<close>

definition Unmarshal :: "(string \<times> 'p setter) list \<Rightarrow> 'p \<Rightarrow> rawmsg \<Rightarrow> bool \<times> 'p" where
  "Unmarshal fs zero raw =
     (case raw of
        None \<Rightarrow> (False, zero)
      | Some (JObj kvs) \<Rightarrow> decode_fields fs kvs zero
      | Some JNull \<Rightarrow> (True, zero)
      | Some _ \<Rightarrow> (False, zero))"


section \<open>Decoders of further types\<close>

definition set_time :: "(time \<Rightarrow> 'p \<Rightarrow> 'p) \<Rightarrow> 'p setter" where
  "set_time f v p = (case v of JTime t \<Rightarrow> (True, f t p) | JNull \<Rightarrow> (True, p) | _ \<Rightarrow> (False, p))"

definition set_time_ptr :: "(time option \<Rightarrow> 'p \<Rightarrow> 'p) \<Rightarrow> 'p setter" where
  "set_time_ptr f v p =
     (case v of JTime t \<Rightarrow> (True, f (Some t) p) | JNull \<Rightarrow> (True, f None p) | _ \<Rightarrow> (False, p))"

definition set_float :: "(rat \<Rightarrow> 'p \<Rightarrow> 'p) \<Rightarrow> 'p setter" where
  "set_float f v p =
     (case v of JInt n \<Rightarrow> (True, f (of_int n) p) | JFloat r \<Rightarrow> (True, f r p) | JNull \<Rightarrow> (True, p) | _ \<Rightarrow> (False, p))"

definition set_bytes :: "(rawmsg \<Rightarrow> 'p \<Rightarrow> 'p) \<Rightarrow> 'p setter" where
  "set_bytes f v p =
     (case v of JBase64 d \<Rightarrow> (True, f (Some d) p) | JNull \<Rightarrow> (True, f None p) | _ \<Rightarrow> (False, p))"


section \<open>Encoders\<close>

definition omitempty :: "bool \<Rightarrow> string \<Rightarrow> json \<Rightarrow> (string \<times> json) list" where
  "omitempty b k v = (if b then [] else [(k, v)])"

text \<open>A float is written without fraction and exponent when it is integral and below 1e21.\<close>

definition float_json :: "rat \<Rightarrow> json" where
  "float_json r = (if of_int \<lfloor>r\<rfloor> = r \<and> \<bar>r\<bar> < 10 ^ 21 then JInt \<lfloor>r\<rfloor> else JFloat r)"

definition time_ptr_json :: "time option \<Rightarrow> json" where
  "time_ptr_json t = (case t of None \<Rightarrow> JNull | Some t \<Rightarrow> JTime t)"

definition map_json :: "metadata \<Rightarrow> json" where
  "map_json m = (case m of None \<Rightarrow> JNull | Some m \<Rightarrow> JObj (map (\<lambda>(k, v). (k, JStr v)) (sort_key fst m)))"

definition bytes_json :: "rawmsg \<Rightarrow> json" where
  "bytes_json b = (case b of None \<Rightarrow> JNull | Some d \<Rightarrow> JBase64 d)"

definition ScheduleType_of :: "string \<Rightarrow> ScheduleType" where
  "ScheduleType_of s =
     (if s = ''immediate'' then ScheduleImmediate
      else if s = ''delayed'' then ScheduleDelayed
      else if s = ''one_time'' then ScheduleOneTime
      else if s = ''recurring'' then ScheduleRecurring
      else ScheduleOther s)"

definition Schedule_json :: "Schedule \<Rightarrow> json" where
  "Schedule_json s =
     JObj ([(''type'', JStr (ScheduleType_string (sc_Type s)))] @
           omitempty (sc_RunAt s = None) ''run_at'' (time_ptr_json (sc_RunAt s)) @
           omitempty (sc_Delay s = 0) ''delay'' (JInt (sc_Delay s)) @
           omitempty (sc_CronExpr s = '''') ''cron_expr'' (JStr (sc_CronExpr s)) @
           omitempty (sc_Timezone s = '''') ''timezone'' (JStr (sc_Timezone s)))"

definition zeroSchedule :: Schedule where
  "zeroSchedule =
     \<lparr>sc_Type = ScheduleOther '''', sc_RunAt = None, sc_Delay = 0, sc_CronExpr = '''', sc_Timezone = ''''\<rparr>"

definition Schedule_fields :: "(string \<times> Schedule setter) list" where
  "Schedule_fields =
     [(''type'', set_string (\<lambda>v s. s\<lparr>sc_Type := ScheduleType_of v\<rparr>)),
      (''run_at'', set_time_ptr (\<lambda>v s. s\<lparr>sc_RunAt := v\<rparr>)),
      (''delay'', set_int (\<lambda>v s. s\<lparr>sc_Delay := v\<rparr>)),
      (''cron_expr'', set_string (\<lambda>v s. s\<lparr>sc_CronExpr := v\<rparr>)),
      (''timezone'', set_string (\<lambda>v s. s\<lparr>sc_Timezone := v\<rparr>))]"

definition RetryPolicy_json :: "RetryPolicy \<Rightarrow> json" where
  "RetryPolicy_json p =
     JObj [(''max_attempts'', JInt (rp_MaxAttempts p)), (''backoff_strategy'', JStr (rp_BackoffStrategy p)),
           (''initial_delay'', JInt (rp_InitialDelay p)), (''max_delay'', JInt (rp_MaxDelay p)),
           (''multiplier'', float_json (rp_Multiplier p)), (''jitter'', JBool (rp_Jitter p))]"

definition zeroRetryPolicy :: RetryPolicy where
  "zeroRetryPolicy =
     \<lparr>rp_MaxAttempts = 0, rp_BackoffStrategy = '''', rp_InitialDelay = 0, rp_MaxDelay = 0,
      rp_Multiplier = 0, rp_Jitter = False\<rparr>"

definition RetryPolicy_fields :: "(string \<times> RetryPolicy setter) list" where
  "RetryPolicy_fields =
     [(''max_attempts'', set_int (\<lambda>v p. p\<lparr>rp_MaxAttempts := v\<rparr>)),
      (''backoff_strategy'', set_string (\<lambda>v p. p\<lparr>rp_BackoffStrategy := v\<rparr>)),
      (''initial_delay'', set_int (\<lambda>v p. p\<lparr>rp_InitialDelay := v\<rparr>)),
      (''max_delay'', set_int (\<lambda>v p. p\<lparr>rp_MaxDelay := v\<rparr>)),
      (''multiplier'', set_float (\<lambda>v p. p\<lparr>rp_Multiplier := v\<rparr>)),
      (''jitter'', set_bool (\<lambda>v p. p\<lparr>rp_Jitter := v\<rparr>))]"

section \<open>Round trips\<close>

lemma ScheduleType_of_string [simp]: "ScheduleType_string (ScheduleType_of s) = s"
  by (simp add: ScheduleType_of_def)

lemma ScheduleType_string_of:
  "(\<And>s. t = ScheduleOther s \<Longrightarrow> s \<notin> {''immediate'', ''delayed'', ''one_time'', ''recurring''}) \<Longrightarrow>
   ScheduleType_of (ScheduleType_string t) = t"
  by (cases t) (simp_all add: ScheduleType_of_def)

lemmas setter_defs =
  set_string_def set_int_def set_bool_def set_raw_def set_time_def set_time_ptr_def set_float_def set_bytes_def

lemma set_float_json [simp]: "set_float f (float_json r) p = (True, f r p)"
  by (auto simp: set_float_def float_json_def)

definition int64 :: "int \<Rightarrow> bool" where
  "int64 n \<longleftrightarrow> - (2 ^ 63) \<le> n \<and> n < 2 ^ 63"

definition wf_schedule :: "Schedule \<Rightarrow> bool" where
  "wf_schedule s \<longleftrightarrow>
     int64 (sc_Delay s) \<and> ScheduleType_of (ScheduleType_string (sc_Type s)) = sc_Type s"

definition wf_policy :: "RetryPolicy \<Rightarrow> bool" where
  "wf_policy p \<longleftrightarrow> int64 (rp_MaxAttempts p) \<and> int64 (rp_InitialDelay p) \<and> int64 (rp_MaxDelay p)"

lemma Schedule_roundtrip:
  assumes "wf_schedule s"
  shows "Unmarshal Schedule_fields zeroSchedule (Some (Schedule_json s)) = (True, s)"
proof -
  have l: "ToLower ''type'' = ''type''" "ToLower ''run_at'' = ''run_at''" "ToLower ''delay'' = ''delay''"
    "ToLower ''cron_expr'' = ''cron_expr''" "ToLower ''timezone'' = ''timezone''" by code_simp+
  show ?thesis
    using assms
    by (cases s)
      (auto simp: Unmarshal_def Schedule_json_def Schedule_fields_def omitempty_def l setter_defs
        zeroSchedule_def time_ptr_json_def wf_schedule_def int64_def split: option.splits)
qed

lemma RetryPolicy_roundtrip:
  assumes "wf_policy p"
  shows "Unmarshal RetryPolicy_fields zeroRetryPolicy (Some (RetryPolicy_json p)) = (True, p)"
proof -
  have l: "ToLower ''max_attempts'' = ''max_attempts''" "ToLower ''backoff_strategy'' = ''backoff_strategy''"
    "ToLower ''initial_delay'' = ''initial_delay''" "ToLower ''max_delay'' = ''max_delay''"
    "ToLower ''multiplier'' = ''multiplier''" "ToLower ''jitter'' = ''jitter''" by code_simp+
  show ?thesis
    using assms
    by (cases p)
      (simp add: Unmarshal_def RetryPolicy_json_def RetryPolicy_fields_def l set_string_def set_int_def
        set_bool_def zeroRetryPolicy_def wf_policy_def int64_def)
qed

text \<open>Decoding does not depend on the order of members whose keys are distinct up to case.\<close>

definition indep :: "'p setter \<Rightarrow> 'p setter \<Rightarrow> bool" where
  "indep f g \<longleftrightarrow>
     (\<forall>v w p. snd (f v (snd (g w p))) = snd (g w (snd (f v p))) \<and>
              fst (f v (snd (g w p))) = fst (f v p) \<and> fst (g w (snd (f v p))) = fst (g w p))"

definition separate :: "(string \<times> 'p setter) list \<Rightarrow> bool" where
  "separate fs \<longleftrightarrow> pairwise (\<lambda>x y. indep (snd x) (snd y)) (set fs) \<and> distinct (map fst fs)"

lemma decode_Cons:
  "decode_fields fs ((k, v) # kvs) p =
     (case map_of fs (ToLower k) of
        None \<Rightarrow> decode_fields fs kvs p
      | Some f \<Rightarrow> (fst (f v p) \<and> fst (decode_fields fs kvs (snd (f v p))), snd (decode_fields fs kvs (snd (f v p)))))"
  by (simp add: split_beta split: option.splits)

lemma decode_swap:
  assumes "separate fs" "ToLower k \<noteq> ToLower l"
  shows "decode_fields fs ((k, v) # (l, w) # kvs) p = decode_fields fs ((l, w) # (k, v) # kvs) p"
proof (cases "map_of fs (ToLower k)"; cases "map_of fs (ToLower l)")
  fix f g
  assume fg: "map_of fs (ToLower k) = Some f" "map_of fs (ToLower l) = Some g"
  then have "(ToLower k, f) \<in> set fs" "(ToLower l, g) \<in> set fs" by (simp_all add: map_of_SomeD)
  with assms have "indep f g" by (fastforce simp: separate_def pairwise_def)
  with fg show ?thesis unfolding decode_Cons by (auto simp: indep_def)
qed (simp_all add: decode_Cons)

lemma decode_front:
  assumes "separate fs" "ToLower k \<notin> (ToLower \<circ> fst) ` set xs"
  shows "decode_fields fs (xs @ (k, v) # ys) p = decode_fields fs ((k, v) # xs @ ys) p"
  using assms(2)
proof (induction xs arbitrary: p)
  case (Cons x xs)
  obtain l w where x: "x = (l, w)" by (cases x)
  have "decode_fields fs ((l, w) # xs @ (k, v) # ys) p = decode_fields fs ((l, w) # (k, v) # xs @ ys) p"
    unfolding decode_Cons [of fs l] using Cons by (auto split: option.splits simp del: decode_fields.simps)
  also have "\<dots> = decode_fields fs ((k, v) # (l, w) # xs @ ys) p"
    by (rule decode_swap [OF assms(1)]) (use Cons.prems x in auto)
  finally show ?case by (simp add: x del: decode_fields.simps)
qed simp

lemma decode_perm:
  assumes "separate fs" "mset kvs' = mset kvs" "distinct (map (ToLower \<circ> fst) kvs)"
  shows "decode_fields fs kvs' p = decode_fields fs kvs p"
  using assms(2,3)
proof (induction kvs arbitrary: kvs' p)
  case (Cons x kvs)
  obtain k v where x: "x = (k, v)" by (cases x)
  have "x \<in> set kvs'" using Cons.prems(1) by (metis list.set_intros(1) set_mset_mset)
  then obtain xs ys where kvs': "kvs' = xs @ (k, v) # ys" by (metis split_list x)
  then have m: "mset (xs @ ys) = mset kvs" using Cons.prems(1) x by simp
  then have "set xs \<subseteq> set kvs" by (metis Un_iff set_append set_mset_mset subsetI)
  then have "ToLower k \<notin> (ToLower \<circ> fst) ` set xs" using Cons.prems(2) x by auto
  from decode_front [OF assms(1) this] Cons.IH [OF m] Cons.prems(2) show ?case
    unfolding kvs' x by (simp add: split_beta split: option.splits)
qed simp

text \<open>Setters of different fields are independent.\<close>

definition sets :: "('a \<Rightarrow> 'p \<Rightarrow> 'p) \<Rightarrow> 'p setter \<Rightarrow> bool" where
  "sets u f \<longleftrightarrow> (\<forall>v. \<exists>ok. (\<forall>p. f v p = (ok, p)) \<or> (\<exists>a. \<forall>p. f v p = (ok, u a p)))"

lemma sets_rules:
  "sets fs (set_string fs)" "sets fi (set_int fi)" "sets fb (set_bool fb)" "sets fr (set_raw fr)"
  "sets ft (set_time ft)" "sets fp (set_time_ptr fp)" "sets ff (set_float ff)" "sets fy (set_bytes fy)"
proof -
  show "sets fs (set_string fs)" "sets fi (set_int fi)" "sets fb (set_bool fb)" "sets fr (set_raw fr)"
    unfolding sets_def setter_defs by (intro allI; rename_tac v; case_tac v; auto)+
  show "sets ft (set_time ft)" "sets fp (set_time_ptr fp)" "sets ff (set_float ff)" "sets fy (set_bytes fy)"
    unfolding sets_def setter_defs by (intro allI; rename_tac v; case_tac v; auto)+
qed

lemma indep_sets:
  assumes "sets u f" "sets w g" "\<And>a b p. u a (w b p) = w b (u a p)"
  shows "indep f g"
  unfolding indep_def
proof (intro allI)
  fix v w' p
  from assms(1) obtain ok where f: "(\<forall>p. f v p = (ok, p)) \<or> (\<exists>a. \<forall>p. f v p = (ok, u a p))"
    unfolding sets_def by blast
  from assms(2) obtain ok' where g: "(\<forall>p. g w' p = (ok', p)) \<or> (\<exists>a. \<forall>p. g w' p = (ok', w a p))"
    unfolding sets_def by blast
  from f g assms(3) show "snd (f v (snd (g w' p))) = snd (g w' (snd (f v p))) \<and>
      fst (f v (snd (g w' p))) = fst (f v p) \<and> fst (g w' (snd (f v p))) = fst (g w' p)"
    by auto
qed

lemma separate_Nil: "separate []"
  by (simp add: separate_def)

lemma indep_sym: "indep f g \<Longrightarrow> indep g f"
  by (simp add: indep_def)

lemma separate_Cons:
  assumes "list_all (\<lambda>(l, g). k \<noteq> l \<and> indep f g) fs" "separate fs"
  shows "separate ((k, f) # fs)"
  using assms by (auto simp: separate_def pairwise_insert list_all_iff indep_sym)

lemma separate_Schedule: "separate Schedule_fields"
  unfolding Schedule_fields_def
  by (intro separate_Cons separate_Nil; simp; (intro conjI)?; (rule indep_sets, rule sets_rules, rule sets_rules, simp))

lemma separate_RetryPolicy: "separate RetryPolicy_fields"
  unfolding RetryPolicy_fields_def
  by (intro separate_Cons separate_Nil; simp; (intro conjI)?; (rule indep_sets, rule sets_rules, rule sets_rules, simp))

end
