(* ===== verification/Analytics.thy ===== *)
theory Analytics
  imports Backoff Json Ports
begin

text \<open>
  The analytics store, \<^verbatim>\<open>internal/analytics\<close>: the table of events in ClickHouse (\<^verbatim>\<open>schema.go\<close>), its
  writer (\<^verbatim>\<open>clickhouse.go\<close>) and the queries of the dashboards (\<^verbatim>\<open>query.go\<close>). The SQL of a query is a
  function on the rows of the table; a statement may be refused. What ClickHouse and its driver
  compute approximately or on their own terms is a parameter: the precision of instants,
  quantiles, means of floats, the parsing of UUIDs. Floats are those of theory \<open>Backoff\<close>, with
  infinities and NaN where a query may return them. A nil slice is None.
\<close>

section \<open>Time ranges\<close>

record TimeRange =
  tr_From :: time
  tr_To :: time

text \<open>\<open>time.Parse\<close> with the layout RFC 3339: the parser behind it takes one-digit hours and fractions of a second.\<close>

definition is_dec :: "string \<Rightarrow> nat \<Rightarrow> bool" where
  "is_dec s i \<longleftrightarrow> i < length s \<and> (let n = (of_char (s ! i) :: nat) in 48 \<le> n \<and> n \<le> 57)"

definition dec_at :: "string \<Rightarrow> nat \<Rightarrow> int" where
  "dec_at s i = int ((of_char (s ! i) :: nat) - 48)"

definition getnum :: "string \<Rightarrow> bool \<Rightarrow> (int \<times> string) option" where
  "getnum s fixed =
     (if \<not> is_dec s 0 then None
      else if \<not> is_dec s 1 then (if fixed then None else Some (dec_at s 0, drop 1 s))
      else Some (dec_at s 0 * 10 + dec_at s 1, drop 2 s))"

definition getyear :: "string \<Rightarrow> (int \<times> string) option" where
  "getyear s =
     (if is_dec s 0 \<and> is_dec s 1 \<and> is_dec s 2 \<and> is_dec s 3
      then Some (dec_at s 0 * 1000 + dec_at s 1 * 100 + dec_at s 2 * 10 + dec_at s 3, drop 4 s)
      else None)"

definition skip :: "char \<Rightarrow> string \<Rightarrow> string option" where
  "skip c s = (if s \<noteq> [] \<and> hd s = c then Some (tl s) else None)"

definition ranged :: "int \<Rightarrow> int \<Rightarrow> (int \<times> string) option \<Rightarrow> (int \<times> string) option" where
  "ranged lo hi r = (case r of None \<Rightarrow> None | Some (n, s) \<Rightarrow> if lo \<le> n \<and> n < hi then Some (n, s) else None)"

text \<open>Nanoseconds from at most nine digits after the point; further digits are dropped.\<close>

definition nanoseconds :: "string \<Rightarrow> int \<times> string" where
  "nanoseconds s =
     (if s \<noteq> [] \<and> (hd s = CHR ''.'' \<or> hd s = CHR '','') \<and> is_dec s 1
      then let dig = (\<lambda>c. let n = (of_char c :: nat) in 48 \<le> n \<and> n \<le> 57);
               ds = take 9 (takeWhile dig (tl s))
           in (foldl (\<lambda>a c. a * 10 + int ((of_char c :: nat) - 48)) 0 ds * 10 ^ (9 - length ds), dropWhile dig (tl s))
      else (0, s))"

definition zone :: "string \<Rightarrow> (int \<times> string) option" where
  "zone s =
     (if s \<noteq> [] \<and> hd s = CHR ''Z'' then Some (0, tl s)
      else if length s < 6 \<or> s ! 3 \<noteq> CHR '':'' then None
      else case (getnum (take 2 (drop 1 s)) True, getnum (take 2 (drop 4 s)) True) of
        (Some (hr, _), Some (mm, _)) \<Rightarrow>
          if 24 < hr \<or> 60 < mm then None
          else let off = (hr * 60 + mm) * 60 in
               if hd s = CHR ''+'' then Some (off, drop 6 s)
               else if hd s = CHR ''-'' then Some (- off, drop 6 s)
               else None
      | _ \<Rightarrow> None)"

definition leap_year :: "int \<Rightarrow> bool" where
  "leap_year y \<longleftrightarrow> 4 dvd y \<and> (\<not> 100 dvd y \<or> 400 dvd y)"

definition days_in :: "int \<Rightarrow> int \<Rightarrow> int" where
  "days_in m y = (if m = 2 then (if leap_year y then 29 else 28) else if m \<in> {4, 6, 9, 11} then 30 else 31)"

text \<open>Days from the first of January of year 1.\<close>

definition days_before :: "int \<Rightarrow> int \<Rightarrow> int \<Rightarrow> int" where
  "days_before y m d =
     365 * (y - 1) + (y - 1) div 4 - (y - 1) div 100 + (y - 1) div 400 +
     sum_list (map (\<lambda>k. days_in k y) [1..m - 1]) + (d - 1)"

definition Parse_RFC3339 :: "string \<Rightarrow> time option" where
  "Parse_RFC3339 s0 = do {
     (y, s) \<leftarrow> getyear s0;
     s \<leftarrow> skip (CHR ''-'') s;
     (mo, s) \<leftarrow> ranged 1 13 (getnum s True);
     s \<leftarrow> skip (CHR ''-'') s;
     (d, s) \<leftarrow> getnum s True;
     s \<leftarrow> skip (CHR ''T'') s;
     (h, s) \<leftarrow> ranged 0 24 (getnum s False);
     s \<leftarrow> skip (CHR '':'') s;
     (mi, s) \<leftarrow> ranged 0 60 (getnum s True);
     s \<leftarrow> skip (CHR '':'') s;
     (se, s) \<leftarrow> ranged 0 60 (getnum s True);
     let (ns, s) = nanoseconds s;
     (off, s) \<leftarrow> zone s;
     if s \<noteq> [] \<or> d < 1 \<or> days_in mo y < d then None
     else Some ((((days_before y mo d * 24 + h) * 60 + mi) * 60 + se - off) * Second + ns) }"

text \<open>The text of a parse error is what the argument says.\<close>

definition ParseRange :: "(string \<Rightarrow> string) \<Rightarrow> time \<Rightarrow> string \<Rightarrow> string \<Rightarrow> duration \<Rightarrow> TimeRange res" where
  "ParseRange perr now from to defaultWindow =
     (let tr = \<lparr>tr_From = now - defaultWindow, tr_To = now\<rparr> in
      case (if from = '''' then Some (tr_From tr) else Parse_RFC3339 from) of
        None \<Rightarrow> Inl (ErrMsg (''invalid from: '' @ perr from))
      | Some f \<Rightarrow>
          (let tr = tr\<lparr>tr_From := f\<rparr> in
           case (if to = '''' then Some (tr_To tr) else Parse_RFC3339 to) of
             None \<Rightarrow> Inl (ErrMsg (''invalid to: '' @ perr to))
           | Some t \<Rightarrow>
               (let tr = tr\<lparr>tr_To := t\<rparr> in
                if \<not> tr_From tr < tr_To tr then Inl (ErrMsg ''to must be after from'') else Inr tr)))"

text \<open>\<open>Time.Sub\<close> saturates; \<open>Duration.Seconds\<close> adds whole and fractional seconds as floats.\<close>

definition time_Sub :: "time \<Rightarrow> time \<Rightarrow> duration" where
  "time_Sub t u = max (- (2 ^ 63)) (min (2 ^ 63 - 1) (t - u))"

definition fdiv :: "rat \<Rightarrow> rat \<Rightarrow> rat" where
  "fdiv x y = round64 (x / y)"

definition Seconds :: "duration \<Rightarrow> rat" where
  "Seconds d = fadd (float64 (quot_go d Second)) (fdiv (float64 (d - quot_go d Second * Second)) (of_int Second))"

section \<open>The table of events\<close>

record EventRow =
  vr_event_id :: string
  vr_event_type :: string
  vr_event_version :: int
  vr_event_time :: time
  vr_ingested_at :: time
  vr_job_id :: string
  vr_execution_id :: string
  vr_worker_id :: string
  vr_scheduler_id :: string
  vr_attempt :: int
  vr_trace_id :: string
  vr_payload :: json

datatype fl = Fin rat | NaN | PInf | NInf

definition cleanF :: "fl \<Rightarrow> rat" where
  "cleanF f = (case f of Fin r \<Rightarrow> r | _ \<Rightarrow> 0)"

text \<open>
  ClickHouse and its driver: the instant a column of type \<open>DateTime64(3)\<close> keeps, the instant a query
  argument is sent as, \<open>quantileTDigest\<close> of a level and \<open>avg\<close> of a list, \<open>uuid.Parse\<close>, and whether a row can be
  appended to a batch (the driver refuses values its columns cannot hold).
\<close>

record chx =
  ch_time :: "time \<Rightarrow> time"
  ch_arg :: "time \<Rightarrow> time"
  ch_quantile :: "rat \<Rightarrow> rat list \<Rightarrow> fl"
  ch_avg :: "rat list \<Rightarrow> fl"
  ch_uuid :: "string \<Rightarrow> string option"
  ch_Append :: "EventRow \<Rightarrow> Error option"

definition event_row :: "chx \<Rightarrow> time \<Rightarrow> string \<Rightarrow> Event \<Rightarrow> EventRow" where
  "event_row H now fresh e =
     \<lparr>vr_event_id = (case ch_uuid H (ev_EventID e) of None \<Rightarrow> fresh | Some u \<Rightarrow> u),
      vr_event_type = EventType_string (ev_EventType e), vr_event_version = ev_EventVersion e mod 2 ^ 16,
      vr_event_time = ch_time H (if ev_EventTime e = 0 then now else ev_EventTime e), vr_ingested_at = ch_time H now,
      vr_job_id = ev_JobID e, vr_execution_id = ev_ExecutionID e, vr_worker_id = ev_WorkerID e,
      vr_scheduler_id = ev_SchedulerID e, vr_attempt = ev_Attempt e mod 2 ^ 32, vr_trace_id = ev_TraceID e,
      vr_payload = (case ev_Payload e of None \<Rightarrow> JObj [] | Some p \<Rightarrow> p)\<rparr>"

fun batch_rows :: "chx \<Rightarrow> time \<Rightarrow> (nat \<Rightarrow> string) \<Rightarrow> nat \<Rightarrow> Event list \<Rightarrow> EventRow list" where
  "batch_rows H now fresh n [] = []"
| "batch_rows H now fresh n (e # es) = event_row H now (fresh n) e # batch_rows H now fresh (Suc n) es"

fun batch_Append :: "chx \<Rightarrow> EventRow list \<Rightarrow> Error option" where
  "batch_Append H [] = None"
| "batch_Append H (r # rs) = (case ch_Append H r of Some e \<Rightarrow> Some e | None \<Rightarrow> batch_Append H rs)"

text \<open>
  The batch is prepared, which asks the server for the columns, its rows are appended in order, up to the
  first that is refused, and it is sent as a whole: it is stored, refused, or stored with the reply lost.
\<close>

definition InsertEvents :: "chx \<Rightarrow> ext \<Rightarrow> Event list \<Rightarrow> EventRow list \<Rightarrow> Error option \<times> EventRow list" where
  "InsertEvents H x events t =
     (if events = [] then (None, t)
      else case x_db x 0 of
        DbRefused e \<Rightarrow> (Some e, t)
      | DbLost e \<Rightarrow> (Some e, t)
      | DbOk \<Rightarrow>
          (let rows = batch_rows H (x_now x 0) (x_uuid x) 0 events in
           case batch_Append H rows of
             Some e \<Rightarrow> (Some e, t)
           | None \<Rightarrow>
               (case x_db x 1 of
                  DbOk \<Rightarrow> (None, t @ rows)
                | DbRefused e \<Rightarrow> (Some e, t)
                | DbLost e \<Rightarrow> (Some e, t @ rows))))"

text \<open>
  Reading with \<open>FINAL\<close> from a \<open>ReplacingMergeTree\<close>: of the rows with one sorting key it keeps the one with
  the greatest version, the last inserted among equals.
\<close>

definition row_key :: "EventRow \<Rightarrow> string \<times> time \<times> string" where
  "row_key r = (vr_event_type r, vr_event_time r, vr_event_id r)"

fun final_rows :: "EventRow list \<Rightarrow> EventRow list" where
  "final_rows [] = []"
| "final_rows (r # rs) =
     (if \<exists>r'\<in>set rs. row_key r' = row_key r \<and> vr_ingested_at r \<le> vr_ingested_at r' then final_rows rs
      else r # filter (\<lambda>r'. row_key r' \<noteq> row_key r) (final_rows rs))"

definition count_if :: "('a \<Rightarrow> bool) \<Rightarrow> 'a list \<Rightarrow> int" where
  "count_if p xs = int (length (filter p xs))"

definition CountEvents :: "ext \<Rightarrow> EventRow list \<Rightarrow> int res" where
  "CountEvents x t = (case x_db x 0 of DbOk \<Rightarrow> Inr (int (length (final_rows t))) | DbRefused e \<Rightarrow> Inl e | DbLost e \<Rightarrow> Inl e)"

definition CountByType :: "ext \<Rightarrow> string \<Rightarrow> EventRow list \<Rightarrow> int res" where
  "CountByType x et t =
     (case x_db x 0 of
        DbOk \<Rightarrow> Inr (count_if (\<lambda>r. vr_event_type r = et) (final_rows t)) | DbRefused e \<Rightarrow> Inl e | DbLost e \<Rightarrow> Inl e)"

section \<open>The queries\<close>

text \<open>The rows of a window, and the buckets of \<open>GROUP BY bucket ORDER BY bucket\<close>.\<close>

definition window :: "chx \<Rightarrow> TimeRange \<Rightarrow> EventRow list \<Rightarrow> EventRow list" where
  "window H tr t =
     filter (\<lambda>r. ch_arg H (tr_From tr) \<le> vr_event_time r \<and> vr_event_time r < ch_arg H (tr_To tr)) (final_rows t)"

definition is_type :: "string \<Rightarrow> EventRow \<Rightarrow> bool" where
  "is_type et r \<longleftrightarrow> vr_event_type r = et"

definition toStartOf :: "duration \<Rightarrow> time \<Rightarrow> time" where
  "toStartOf unit t = t div unit * unit"

definition bucket_times :: "duration \<Rightarrow> EventRow list \<Rightarrow> time list" where
  "bucket_times unit rs = sorted_list_of_set (set (map (\<lambda>r. toStartOf unit (vr_event_time r)) rs))"

definition in_bucket :: "duration \<Rightarrow> time \<Rightarrow> EventRow list \<Rightarrow> EventRow list" where
  "in_bucket unit b rs = filter (\<lambda>r. toStartOf unit (vr_event_time r) = b) rs"

text \<open>\<open>JSONExtractUInt(payload, 'duration_ms')\<close>.\<close>

definition duration_ms :: "EventRow \<Rightarrow> int" where
  "duration_ms r =
     (case vr_payload r of
        JObj kvs \<Rightarrow>
          (case map_of kvs ''duration_ms'' of
             Some (JInt n) \<Rightarrow> if 0 \<le> n \<and> n < 2 ^ 64 then n else 0
           | _ \<Rightarrow> 0)
      | _ \<Rightarrow> 0)"

definition reply :: "ext \<Rightarrow> nat \<Rightarrow> 'a \<Rightarrow> 'a res" where
  "reply x n a = (case x_db x n of DbOk \<Rightarrow> Inr a | DbRefused e \<Rightarrow> Inl e | DbLost e \<Rightarrow> Inl e)"

definition slice :: "'a list \<Rightarrow> 'a list option" where
  "slice xs = (if xs = [] then None else Some xs)"

record ThroughputPoint =
  tp_Bucket :: time
  tp_Completed :: int
  tp_Failed :: int
  tp_Created :: int
  tp_RatePerSec :: rat

record ThroughputResult =
  th_Range :: TimeRange
  th_Grain :: string
  th_Points :: "ThroughputPoint list"
  th_Completed :: int
  th_Failed :: int
  th_Created :: int
  th_AvgRate :: rat

definition throughput_point :: "duration \<Rightarrow> rat \<Rightarrow> EventRow list \<Rightarrow> time \<Rightarrow> ThroughputPoint" where
  "throughput_point unit sec rs b =
     (let rs = in_bucket unit b rs; c = count_if (is_type ''JOB_COMPLETED'') rs in
      \<lparr>tp_Bucket = b, tp_Completed = c, tp_Failed = count_if (is_type ''JOB_FAILED'') rs,
       tp_Created = count_if (is_type ''JOB_CREATED'') rs, tp_RatePerSec = fdiv (float64 c) sec\<rparr>)"

text \<open>The loop over the points with its \<open>uint64\<close> totals.\<close>

fun throughput_totals :: "ThroughputPoint list \<Rightarrow> int \<times> int \<times> int \<Rightarrow> int \<times> int \<times> int" where
  "throughput_totals [] t = t"
| "throughput_totals (p # ps) (c, f, cr) =
     throughput_totals ps
       ((c + tp_Completed p) mod 2 ^ 64, (f + tp_Failed p) mod 2 ^ 64, (cr + tp_Created p) mod 2 ^ 64)"

definition Throughput :: "chx \<Rightarrow> ext \<Rightarrow> TimeRange \<Rightarrow> string \<Rightarrow> EventRow list \<Rightarrow> ThroughputResult res" where
  "Throughput H x tr grain t =
     (let unit = (if grain = ''hour'' then 3600 * Second else Minute);
          sec = (if grain = ''hour'' then 3600 else 60);
          rs = window H tr t
      in case reply x 0 (map (throughput_point unit sec rs) (bucket_times unit rs)) of
           Inl e \<Rightarrow> Inl e
         | Inr points \<Rightarrow>
             (case throughput_totals points (0, 0, 0) of (c, f, cr) \<Rightarrow>
                let dur = Seconds (time_Sub (tr_To tr) (tr_From tr)) in
                Inr \<lparr>th_Range = tr, th_Grain = grain, th_Points = points, th_Completed = c, th_Failed = f,
                     th_Created = cr, th_AvgRate = (if 0 < dur then fdiv (float64 c) dur else 0)\<rparr>))"

record LatencyPoint =
  lp_Bucket :: time
  lp_P50 :: rat
  lp_P95 :: rat
  lp_P99 :: rat
  lp_Count :: int

record LatencyResult =
  la_Range :: TimeRange
  la_P50 :: rat
  la_P90 :: rat
  la_P95 :: rat
  la_P99 :: rat
  la_Avg :: rat
  la_Count :: int
  la_Series :: "LatencyPoint list option"

definition timed :: "EventRow \<Rightarrow> bool" where
  "timed r \<longleftrightarrow> is_type ''JOB_COMPLETED'' r \<and> 0 < duration_ms r"

definition durations :: "EventRow list \<Rightarrow> rat list" where
  "durations rs = map (\<lambda>r. float64 (duration_ms r)) rs"

definition latency_point :: "chx \<Rightarrow> EventRow list \<Rightarrow> time \<Rightarrow> LatencyPoint" where
  "latency_point H rs b =
     (let ds = durations (in_bucket Minute b rs) in
      \<lparr>lp_Bucket = b, lp_P50 = cleanF (ch_quantile H (1 / 2) ds), lp_P95 = cleanF (ch_quantile H (95 / 100) ds),
       lp_P99 = cleanF (ch_quantile H (99 / 100) ds), lp_Count = int (length ds)\<rparr>)"

definition Latency :: "chx \<Rightarrow> ext \<Rightarrow> TimeRange \<Rightarrow> EventRow list \<Rightarrow> LatencyResult res" where
  "Latency H x tr t =
     (let rs = filter timed (window H tr t); ds = durations rs in
      case reply x 0 (map (\<lambda>l. cleanF (ch_quantile H l ds)) [1 / 2, 9 / 10, 95 / 100, 99 / 100], cleanF (ch_avg H ds), int (length ds)) of
        Inl e \<Rightarrow> Inl e
      | Inr (qs, av, n) \<Rightarrow>
          (case reply x 1 (map (latency_point H rs) (bucket_times Minute rs)) of
             Inl e \<Rightarrow> Inl e
           | Inr points \<Rightarrow>
               Inr \<lparr>la_Range = tr, la_P50 = qs ! 0, la_P90 = qs ! 1, la_P95 = qs ! 2, la_P99 = qs ! 3, la_Avg = av,
                    la_Count = n, la_Series = slice points\<rparr>))"

record FailurePoint =
  fp_Bucket :: time
  fp_Failed :: int
  fp_Timeout :: int
  fp_Retry :: int

record FailureResult =
  fr_Range :: TimeRange
  fr_ByType :: "(string, int) gomap"
  fr_SuccessRate :: rat
  fr_FailureRate :: rat
  fr_RetryRate :: rat
  fr_TimeoutRate :: rat
  fr_CancelRate :: rat
  fr_Series :: "FailurePoint list option"

text \<open>\<open>GROUP BY event_type\<close> without an order: the rows come in any order.\<close>

definition type_counts :: "order \<Rightarrow> EventRow list \<Rightarrow> (string \<times> int) list" where
  "type_counts ord rs = map (\<lambda>et. (et, count_if (is_type et) rs)) (ord (remdups (map vr_event_type rs)))"

record tally =
  ta_completed :: int
  ta_failed :: int
  ta_timeout :: int
  ta_cancel :: int
  ta_retry :: int

fun failure_loop :: "(string \<times> int) list \<Rightarrow> (string, int) gomap \<Rightarrow> tally \<Rightarrow> (string, int) gomap \<times> tally" where
  "failure_loop [] m a = (m, a)"
| "failure_loop ((et, c) # rows) m a =
     failure_loop rows (gput et c m)
       (if et = ''JOB_COMPLETED'' then a\<lparr>ta_completed := c\<rparr>
        else if et = ''JOB_FAILED'' then a\<lparr>ta_failed := c\<rparr>
        else if et = ''JOB_TIMEOUT'' then a\<lparr>ta_timeout := c\<rparr>
        else if et = ''JOB_CANCELLED'' then a\<lparr>ta_cancel := c\<rparr>
        else if et = ''JOB_RETRY_SCHEDULED'' then a\<lparr>ta_retry := c\<rparr>
        else a)"

definition outcome_types :: "string list" where
  "outcome_types = [''JOB_COMPLETED'', ''JOB_FAILED'', ''JOB_TIMEOUT'', ''JOB_CANCELLED'', ''JOB_RETRY_SCHEDULED'']"

definition failure_point :: "EventRow list \<Rightarrow> time \<Rightarrow> FailurePoint" where
  "failure_point rs b =
     (let rs = in_bucket Minute b rs in
      \<lparr>fp_Bucket = b, fp_Failed = count_if (is_type ''JOB_FAILED'') rs,
       fp_Timeout = count_if (is_type ''JOB_TIMEOUT'') rs, fp_Retry = count_if (is_type ''JOB_RETRY_SCHEDULED'') rs\<rparr>)"

definition Failures :: "chx \<Rightarrow> ext \<Rightarrow> TimeRange \<Rightarrow> EventRow list \<Rightarrow> FailureResult res" where
  "Failures H x tr t =
     (let rs = window H tr t in
      case reply x 0 (type_counts (x_order x) (filter (\<lambda>r. vr_event_type r \<in> set outcome_types) rs)) of
        Inl e \<Rightarrow> Inl e
      | Inr rows \<Rightarrow>
          (case failure_loop rows [] \<lparr>ta_completed = 0, ta_failed = 0, ta_timeout = 0, ta_cancel = 0, ta_retry = 0\<rparr> of (m, a) \<Rightarrow>
             let ended = float64 ((ta_completed a + ta_failed a + ta_timeout a + ta_cancel a) mod 2 ^ 64);
                 rate = (\<lambda>n. if 0 < ended then fdiv (float64 n) ended else 0);
                 attempts = (ta_completed a + ta_failed a + ta_timeout a) mod 2 ^ 64
             in case reply x 1 (map (failure_point rs) (bucket_times Minute rs)) of
                  Inl e \<Rightarrow> Inl e
                | Inr points \<Rightarrow>
                    Inr \<lparr>fr_Range = tr, fr_ByType = m, fr_SuccessRate = rate (ta_completed a),
                         fr_FailureRate = rate (ta_failed a),
                         fr_RetryRate = (if 0 < attempts
                                         then fdiv (float64 (ta_retry a)) (float64 ((attempts + ta_retry a) mod 2 ^ 64)) else 0),
                         fr_TimeoutRate = rate (ta_timeout a), fr_CancelRate = rate (ta_cancel a),
                         fr_Series = slice points\<rparr>))"

record WorkerStats =
  st_WorkerID :: string
  st_Completed :: int
  st_Failed :: int
  st_AvgMs :: fl
  st_Share :: rat

record WorkersResult =
  wr_Range :: TimeRange
  wr_Workers :: "WorkerStats list option"

definition worker_stats :: "chx \<Rightarrow> EventRow list \<Rightarrow> string \<Rightarrow> WorkerStats" where
  "worker_stats H rs wid =
     (let rs = filter (\<lambda>r. vr_worker_id r = wid) rs in
      \<lparr>st_WorkerID = wid, st_Completed = count_if (is_type ''JOB_COMPLETED'') rs,
       st_Failed = count_if (is_type ''JOB_FAILED'') rs,
       st_AvgMs = ch_avg H (durations (filter timed rs)), st_Share = 0\<rparr>)"

definition Workers :: "chx \<Rightarrow> ext \<Rightarrow> TimeRange \<Rightarrow> EventRow list \<Rightarrow> WorkersResult res" where
  "Workers H x tr t =
     (let rs = filter (\<lambda>r. vr_worker_id r \<noteq> '''') (window H tr t);
          rows = map (worker_stats H rs) (x_order x (remdups (map vr_worker_id rs)))
      in case reply x 0 (take 100 (sort_key (\<lambda>s. - st_Completed s) rows)) of
           Inl e \<Rightarrow> Inl e
         | Inr rows \<Rightarrow>
             (let total = foldl (\<lambda>n s. (n + st_Completed s) mod 2 ^ 64) 0 rows;
                  share = (\<lambda>s. if 0 < total then s\<lparr>st_Share := fdiv (float64 (st_Completed s)) (float64 total)\<rparr> else s)
              in Inr \<lparr>wr_Range = tr, wr_Workers = slice (map share rows)\<rparr>))"

record QueueResult =
  qr_Range :: TimeRange
  qr_AvgWaitMs :: rat
  qr_P95WaitMs :: rat
  qr_Queued :: int
  qr_Started :: int
  qr_DepthEstimate :: rat

text \<open>The first event of a type for each job.\<close>

definition first_time :: "string \<Rightarrow> EventRow list \<Rightarrow> string \<Rightarrow> time option" where
  "first_time et rs jid =
     (case map vr_event_time (filter (\<lambda>r. is_type et r \<and> vr_job_id r = jid) rs) of
        [] \<Rightarrow> None | t # ts \<Rightarrow> Some (fold min ts t))"

definition queue_waits :: "EventRow list \<Rightarrow> rat list" where
  "queue_waits rs =
     concat (map (\<lambda>jid. case (first_time ''JOB_QUEUED'' rs jid, first_time ''JOB_STARTED'' rs jid) of
                          (Some q, Some s) \<Rightarrow>
                            if q \<le> s then [of_int (s div Millisecond - q div Millisecond)] else []
                        | _ \<Rightarrow> [])
                 (remdups (filter (\<lambda>j. j \<noteq> '''') (map vr_job_id rs))))"

definition Queue_stats :: "chx \<Rightarrow> ext \<Rightarrow> TimeRange \<Rightarrow> EventRow list \<Rightarrow> QueueResult" where
  "Queue_stats H x tr t =
     (let rs = window H tr t;
          ws = queue_waits rs;
          (av, p95, n) = (case reply x 0 (cleanF (ch_avg H ws), cleanF (ch_quantile H (95 / 100) ws), int (length ws)) of
                            Inl e \<Rightarrow> (0, 0, 0) | Inr r \<Rightarrow> r);
          (queued, started) = (case reply x 1 (count_if (is_type ''JOB_QUEUED'') rs, count_if (is_type ''JOB_STARTED'') rs) of
                                 Inl e \<Rightarrow> (0, n) | Inr r \<Rightarrow> r)
      in \<lparr>qr_Range = tr, qr_AvgWaitMs = av, qr_P95WaitMs = p95, qr_Queued = queued, qr_Started = started,
          qr_DepthEstimate = max 0 (fadd (float64 queued) (- float64 started))\<rparr>)"

record CapacityResult =
  cp_Range :: TimeRange
  cp_Completed :: int
  cp_PeakPerMinute :: int
  cp_AvgPerMinute :: fl
  cp_ActiveWorkersHint :: int
  cp_RecommendedWorkers :: int
  cp_TargetPerWorker :: fl
  cp_Notes :: string

definition fl_pos :: "fl \<Rightarrow> bool" where
  "fl_pos f = (case f of Fin r \<Rightarrow> 0 < r | PInf \<Rightarrow> True | _ \<Rightarrow> False)"

definition fl_nonpos :: "fl \<Rightarrow> bool" where
  "fl_nonpos f = (case f of Fin r \<Rightarrow> r \<le> 0 | NInf \<Rightarrow> True | _ \<Rightarrow> False)"

definition recommended :: "(rat \<Rightarrow> int) \<Rightarrow> int \<Rightarrow> fl \<Rightarrow> int" where
  "recommended conv peak target =
     (if fl_pos target
      then let n = (case target of
                      Fin r \<Rightarrow> toInt64 conv (of_int \<lceil>fdiv (float64 peak) r\<rceil>)
                    | _ \<Rightarrow> 0)
           in if n < 1 \<and> 0 < peak then 1 else n
      else 0)"

definition Capacity :: "chx \<Rightarrow> (rat \<Rightarrow> int) \<Rightarrow> ext \<Rightarrow> TimeRange \<Rightarrow> fl \<Rightarrow> EventRow list \<Rightarrow> CapacityResult res" where
  "Capacity H conv x tr target t =
     (let target = (if fl_nonpos target then Fin 30 else target);
          rs = window H tr t;
          cs = map (\<lambda>b. count_if (is_type ''JOB_COMPLETED'') (in_bucket Minute b rs)) (bucket_times Minute rs)
      in case reply x 0 (sum_list cs, fold max cs 0, ch_avg H (map of_int cs)) of
           Inl e \<Rightarrow> Inl e
         | Inr (completed, peak, av) \<Rightarrow>
             (let workers = (case reply x 1 (int (length (remdups (map vr_worker_id
                               (filter (\<lambda>r. vr_worker_id r \<noteq> '''' \<and> is_type ''JOB_COMPLETED'' r) rs))))) of
                               Inl e \<Rightarrow> 0 | Inr n \<Rightarrow> n)
              in Inr \<lparr>cp_Range = tr, cp_Completed = completed, cp_PeakPerMinute = peak, cp_AvgPerMinute = av,
                      cp_ActiveWorkersHint = workers, cp_RecommendedWorkers = recommended conv peak target,
                      cp_TargetPerWorker = target,
                      cp_Notes = ''Recommended workers = ceil(peak_completed_per_minute / target_jobs_per_worker_per_min). Tune target from measured worker throughput.''\<rparr>))"

record Anomaly =
  an_Metric :: string
  an_Baseline :: rat
  an_Current :: rat
  an_Ratio :: fl
  an_Severity :: string
  an_Message :: string

record AnomaliesResult =
  ar_Window :: TimeRange
  ar_Baseline :: TimeRange
  ar_Anomalies :: "Anomaly list"

record snap =
  sn_p95 :: rat
  sn_failRate :: rat
  sn_throughput :: rat

definition load_snap :: "chx \<Rightarrow> DbReply \<Rightarrow> TimeRange \<Rightarrow> EventRow list \<Rightarrow> snap res" where
  "load_snap H rep tr t =
     (let rs = window H tr t;
          completed = count_if (is_type ''JOB_COMPLETED'') rs;
          failed = count_if (is_type ''JOB_FAILED'') rs;
          ds = durations (filter (is_type ''JOB_COMPLETED'') rs);
          n = float64 ((completed + failed) mod 2 ^ 64);
          dur = Seconds (time_Sub (tr_To tr) (tr_From tr))
      in case rep of
           DbRefused e \<Rightarrow> Inl e
         | DbLost e \<Rightarrow> Inl e
         | DbOk \<Rightarrow>
             Inr \<lparr>sn_p95 = (if ds = [] then 0 else cleanF (ch_quantile H (95 / 100) ds)),
                  sn_failRate = (if 0 < n then fdiv (float64 failed) n else 0),
                  sn_throughput = (if 0 < dur then fdiv (float64 completed) dur else 0)\<rparr>)"

text \<open>\<open>%.2f\<close>.\<close>

definition fixed2 :: "rat \<Rightarrow> string" where
  "fixed2 r =
     (let n = round_even (\<bar>r\<bar> * 100); d = n mod 100
      in (if r < 0 then ''-'' else '''') @ show_int (n div 100) @ ''.'' @
         (if d < 10 then ''0'' else '''') @ show_int d)"

definition fl_fixed2 :: "fl \<Rightarrow> string" where
  "fl_fixed2 f = (case f of Fin r \<Rightarrow> fixed2 r | NaN \<Rightarrow> ''NaN'' | PInf \<Rightarrow> ''+Inf'' | NInf \<Rightarrow> ''-Inf'')"

definition fl_ge :: "fl \<Rightarrow> rat \<Rightarrow> bool" where
  "fl_ge f r = (case f of Fin q \<Rightarrow> r \<le> q | PInf \<Rightarrow> True | _ \<Rightarrow> False)"

definition severity :: "rat \<Rightarrow> rat \<Rightarrow> fl \<Rightarrow> rat \<Rightarrow> rat \<Rightarrow> bool \<Rightarrow> string" where
  "severity b c ratio warn crit higherBad =
     (if higherBad
      then (if fl_ge ratio crit then ''critical'' else if fl_ge ratio warn then ''warn'' else '''')
      else (if 0 < b \<and> fdiv c b \<le> fdiv 1 crit then ''critical''
            else if 0 < b \<and> fdiv c b \<le> fdiv 1 warn then ''warn'' else ''''))"

definition check_metric :: "string \<Rightarrow> rat \<Rightarrow> rat \<Rightarrow> rat \<Rightarrow> rat \<Rightarrow> bool \<Rightarrow> Anomaly list" where
  "check_metric metric b c warn crit higherBad =
     (if b \<le> 0 \<and> c \<le> 0 then []
      else let ratio = (if 0 < b then Fin (fdiv c b) else if 0 < c then PInf else Fin 0);
               sev = severity b c ratio warn crit higherBad
           in if sev = '''' then []
              else [\<lparr>an_Metric = metric, an_Baseline = b, an_Current = c, an_Ratio = ratio, an_Severity = sev,
                     an_Message = metric @ '' baseline='' @ fixed2 b @ '' current='' @ fixed2 c @ '' ratio='' @ fl_fixed2 ratio\<rparr>])"

definition Anomalies :: "chx \<Rightarrow> ext \<Rightarrow> TimeRange \<Rightarrow> TimeRange \<Rightarrow> EventRow list \<Rightarrow> AnomaliesResult res" where
  "Anomalies H x current baseline t =
     (case load_snap H (x_db x 0) current t of
        Inl e \<Rightarrow> Inl e
      | Inr cur \<Rightarrow>
          (case load_snap H (x_db x 1) baseline t of
             Inl e \<Rightarrow> Inl e
           | Inr base \<Rightarrow>
               Inr \<lparr>ar_Window = current, ar_Baseline = baseline,
                    ar_Anomalies =
                      check_metric ''p95_latency_ms'' (sn_p95 base) (sn_p95 cur) 2 4 True @
                      check_metric ''failure_rate'' (sn_failRate base) (sn_failRate cur) 2 5 True @
                      check_metric ''throughput_per_sec'' (sn_throughput base) (sn_throughput cur) 2 4 False\<rparr>))"

record SchedulerStats =
  ss_Range :: TimeRange
  ss_ByType :: "(string, int) gomap"

definition Scheduler_stats :: "chx \<Rightarrow> ext \<Rightarrow> TimeRange \<Rightarrow> EventRow list \<Rightarrow> SchedulerStats res" where
  "Scheduler_stats H x tr t =
     (case reply x 0 (type_counts (x_order x) (filter (\<lambda>r. HasPrefix (vr_event_type r) ''SCHEDULER_'') (window H tr t))) of
        Inl e \<Rightarrow> Inl e
      | Inr rows \<Rightarrow> Inr \<lparr>ss_Range = tr, ss_ByType = foldl (\<lambda>m (et, c). gput et c m) [] rows\<rparr>)"

end
