(* ===== verification/Api.thy ===== *)
theory Api
  imports Scheduler Auth Durations Analytics
begin

text \<open>
  The HTTP API, \<^verbatim>\<open>internal/api/server.go\<close> and \<^verbatim>\<open>analytics.go\<close>. The handlers are computations over the same world as the
  scheduler's, on the store and queue they share; \<open>chi\<close> matches a request to an endpoint, and the
  JSON decoder's outcome for the body is part of the request. A response is its status and the
  value given to \<open>writeJSON\<close>.
\<close>

section \<open>Requests and responses\<close>

datatype AnalyticsPath =
    PathThroughput | PathLatency | PathFailures | PathRetries | PathWorkers | PathQueue | PathScheduler
  | PathCapacity | PathAnomalies

datatype Endpoint =
    GetHealthz | GetReadyz
  | PostJobs "CreateJobRequest res" | GetJobs string string | GetJobById string | PostCancel string
  | GetWorkers | GetQueueBackends
  | GetAnalytics AnalyticsPath "(string \<times> string) list"

record Request =
  rq_header :: header
  rq_endpoint :: Endpoint

datatype Body =
    BodyJob Job | BodyJobs "Job list" | BodyWorkers "Worker list"
  | BodyStrings "(string \<times> string) list" | BodyBackends string "string list"
  | BodyThroughput ThroughputResult | BodyLatency LatencyResult | BodyFailures FailureResult
  | BodyWorkerStats WorkersResult | BodyQueue QueueResult | BodyScheduler SchedulerStats
  | BodyCapacity CapacityResult | BodyAnomalies AnomaliesResult

type_synonym Response = "int \<times> Body"

definition writeErr :: "int \<Rightarrow> string \<Rightarrow> Response" where
  "writeErr status msg = (status, BodyStrings [(''error'', msg)])"

text \<open>\<open>analytics.Querier\<close>: the read side of the analytics store, as it is when the request is served.\<close>

record Querier =
  qa_Throughput :: "ext \<Rightarrow> TimeRange \<Rightarrow> string \<Rightarrow> ThroughputResult res"
  qa_Latency :: "ext \<Rightarrow> TimeRange \<Rightarrow> LatencyResult res"
  qa_Failures :: "ext \<Rightarrow> TimeRange \<Rightarrow> FailureResult res"
  qa_Workers :: "ext \<Rightarrow> TimeRange \<Rightarrow> WorkersResult res"
  qa_Queue :: "ext \<Rightarrow> TimeRange \<Rightarrow> QueueResult res"
  qa_Capacity :: "ext \<Rightarrow> TimeRange \<Rightarrow> fl \<Rightarrow> CapacityResult res"
  qa_Anomalies :: "ext \<Rightarrow> TimeRange \<Rightarrow> TimeRange \<Rightarrow> AnomaliesResult res"
  qa_Scheduler :: "ext \<Rightarrow> TimeRange \<Rightarrow> SchedulerStats res"

definition clickhouse_querier :: "chx \<Rightarrow> (rat \<Rightarrow> int) \<Rightarrow> EventRow list \<Rightarrow> Querier" where
  "clickhouse_querier H conv t =
     \<lparr>qa_Throughput = (\<lambda>x tr grain. Throughput H x tr grain t), qa_Latency = (\<lambda>x tr. Latency H x tr t),
      qa_Failures = (\<lambda>x tr. Failures H x tr t), qa_Workers = (\<lambda>x tr. Workers H x tr t),
      qa_Queue = (\<lambda>x tr. Inr (Queue_stats H x tr t)), qa_Capacity = (\<lambda>x tr target. Capacity H conv x tr target t),
      qa_Anomalies = (\<lambda>x cur base. Anomalies H x cur base t), qa_Scheduler = (\<lambda>x tr. Scheduler_stats H x tr t)\<rparr>"

text \<open>Two functions of Go's library that stay parameters: \<open>strconv.ParseFloat\<close> and the text of a time-parsing error.\<close>

record golib =
  gl_ParseFloat :: "string \<Rightarrow> fl option"
  gl_timeerr :: "string \<Rightarrow> string"

text \<open>A server without analytics has no querier.\<close>

record ('s, 'q) Server =
  srv_deps :: "('s, 'q) Service"
  srv_auth :: Authenticator
  srv_backends :: "string list"
  srv_analytics :: "Querier option"
  srv_lib :: golib

definition SetAnalytics :: "Querier \<Rightarrow> ('s, 'q) Server \<Rightarrow> ('s, 'q) Server" where
  "SetAnalytics q srv = srv\<lparr>srv_analytics := Some q\<rparr>"


section \<open>Creation of jobs\<close>

text \<open>The checks and defaults of \<open>createJob\<close> before it reads the clock.\<close>

definition check_request :: "cronlib \<Rightarrow> time \<Rightarrow> CreateJobRequest \<Rightarrow> string + CreateJobRequest" where
  "check_request C now req =
     (if cr_Name req = '''' then Inl ''name required''
      else let req = (if cr_Type req = JobTypeOther '''' then req\<lparr>cr_Type := JobTypeBuiltin\<rparr> else req) in
      if cr_Type req \<noteq> JobTypeBuiltin \<and> cr_Type req \<noteq> JobTypeWebhook
      then Inl ''type must be builtin or webhook''
      else let req = (if cr_Priority req = 0 then req\<lparr>cr_Priority := 5\<rparr> else req) in
      if cr_Priority req < 1 \<or> cr_Priority req > 10 then Inl ''priority must be 1-10''
      else let req = (if sc_Type (cr_Schedule req) = ScheduleOther ''''
                      then req\<lparr>cr_Schedule := (cr_Schedule req)\<lparr>sc_Type := ScheduleImmediate\<rparr>\<rparr> else req) in
      case ValidateSchedule C now (cr_Schedule req) of
        Some e \<Rightarrow> Inl (Error_text e)
      | None \<Rightarrow> Inr req)"

definition request_retry :: "CreateJobRequest \<Rightarrow> RetryPolicy" where
  "request_retry req = (case cr_RetryPolicy req of None \<Rightarrow> DefaultRetryPolicy | Some p \<Rightarrow> p)"

definition request_timeout :: "CreateJobRequest \<Rightarrow> duration" where
  "request_timeout req =
     (if cr_TimeoutSeconds req > 0 then wrap64 (cr_TimeoutSeconds req * Second) else 30 * Second)"

definition new_job :: "CreateJobRequest \<Rightarrow> string \<Rightarrow> Job" where
  "new_job req jid =
     \<lparr>job_ID = jid, job_Name = cr_Name req, job_Type = cr_Type req,
      job_Payload = (case cr_Payload req of None \<Rightarrow> Some (JObj []) | Some p \<Rightarrow> Some p),
      job_Priority = cr_Priority req, job_State = JobStateCreated, job_Schedule = cr_Schedule req,
      job_RetryPolicy = request_retry req, job_Timeout = request_timeout req,
      job_IdempotencyKey = cr_IdempotencyKey req, job_Attempt = 0,
      job_MaxAttempts = rp_MaxAttempts (request_retry req), job_WorkerID = '''',
      job_ExecutionID = '''', job_LastError = '''', job_ScheduledAt = None, job_QueuedAt = None,
      job_StartedAt = None, job_CompletedAt = None, job_NextRetryAt = None, job_CreatedAt = 0,
      job_UpdatedAt = 0, job_Metadata = cr_Metadata req\<rparr>"

text \<open>The instant a new job is scheduled for.\<close>

definition first_run :: "cronlib \<Rightarrow> Schedule \<Rightarrow> time \<Rightarrow> string + time" where
  "first_run C s now =
     (case sc_Type s of
        ScheduleImmediate \<Rightarrow> Inr now
      | ScheduleDelayed \<Rightarrow> Inr (now + sc_Delay s)
      | ScheduleOneTime \<Rightarrow>
          (case sc_RunAt s of None \<Rightarrow> Inl ''run_at required for one_time'' | Some t \<Rightarrow> Inr t)
      | ScheduleRecurring \<Rightarrow>
          (case NextRunAt C s (now + - 1) of
             Inl e \<Rightarrow> Inl (Error_text e)
           | Inr nxt \<Rightarrow>
               if now < nxt then Inr nxt
               else (case NextRunAt C s now of Inl e \<Rightarrow> Inl (Error_text e) | Inr nxt \<Rightarrow> Inr nxt))
      | ScheduleOther _ \<Rightarrow> Inl ''unknown schedule type'')"

definition schedule_job :: "cronlib \<Rightarrow> time \<Rightarrow> Job \<Rightarrow> string + Job" where
  "schedule_job C now job =
     (case first_run C (job_Schedule job) now of
        Inl msg \<Rightarrow> Inl msg
      | Inr t \<Rightarrow> Inr (job\<lparr>job_State := JobStateScheduled, job_ScheduledAt := Some t\<rparr>))"

definition enqueueJob :: "('s, 'q) Service \<Rightarrow> Job \<Rightarrow> ('s, 'q, Job res) handler" where
  "enqueueJob D job = do {
     now \<leftarrow> time_now;
     e \<leftarrow> queue_upd (\<lambda>x. q_Enqueue (sv_queue D) x (queued_job now job));
     (case e of
        Some err \<Rightarrow> ret (Inl err)
      | None \<Rightarrow> do {
          _ \<leftarrow> emit D EventJobQueued (job_ID job) '''' '''' (job_Attempt job) None;
          e \<leftarrow> updateJobState D (job_ID job) JobStateQueued [(''queued_at'', AnyTime now)];
          (case e of
             Some err \<Rightarrow> ret (Inl err)
           | None \<Rightarrow> ret (Inr (job\<lparr>job_State := JobStateQueued, job_QueuedAt := Some now\<rparr>))) }) }"

definition due_now :: "time \<Rightarrow> Job \<Rightarrow> bool" where
  "due_now now job \<longleftrightarrow> (case job_ScheduledAt job of None \<Rightarrow> False | Some t \<Rightarrow> \<not> now < t)"

definition submit_job :: "('s, 'q) Service \<Rightarrow> time \<Rightarrow> Job \<Rightarrow> ('s, 'q, Response) handler" where
  "submit_job D now job = do {
     r \<leftarrow> store_upd (\<lambda>x. js_CreateJob (sv_store D) x job);
     (case r of
        Inl e \<Rightarrow> ret (writeErr 500 (Error_text e))
      | Inr job \<Rightarrow> do {
          _ \<leftarrow> emit D EventJobCreated (job_ID job) '''' '''' 0
                 (Some (JObj [(''name'', JStr (job_Name job)), (''priority'', JInt (job_Priority job)),
                              (''type'', JStr (JobType_string (job_Type job)))]));
          _ \<leftarrow> emit D EventJobScheduled (job_ID job) '''' '''' 0
                 (Some (JObj [(''scheduled_at'', (case job_ScheduledAt job of None \<Rightarrow> JNull | Some t \<Rightarrow> JTime t))]));
          if due_now now job then do {
            q \<leftarrow> enqueueJob D job;
            (case q of
               Inl e \<Rightarrow> ret (writeErr 500 (''enqueue failed: '' @ Error_text e))
             | Inr job \<Rightarrow> ret (201, BodyJob job)) }
          else ret (201, BodyJob job) }) }"

definition createJob :: "('s, 'q) Service \<Rightarrow> CreateJobRequest res \<Rightarrow> ('s, 'q, Response) handler" where
  "createJob D body =
     (case body of
        Inl e \<Rightarrow> ret (writeErr 400 ''invalid json'')
      | Inr req \<Rightarrow> do {
          t \<leftarrow> time_now;
          (case check_request (sv_cron D) t req of
             Inl msg \<Rightarrow> ret (writeErr 400 msg)
           | Inr req \<Rightarrow> do {
               now \<leftarrow> time_now;
               jid \<leftarrow> new_uuid;
               (case schedule_job (sv_cron D) now (new_job req jid) of
                  Inl msg \<Rightarrow> ret (writeErr 400 msg)
                | Inr job \<Rightarrow> submit_job D now job) }) })"


section \<open>Reading and cancelling\<close>

definition api_getJob :: "('s, 'q) Service \<Rightarrow> string \<Rightarrow> ('s, 'q, Response) handler" where
  "api_getJob D jid = do {
     r \<leftarrow> getJob D jid;
     (case r of
        Inl e \<Rightarrow> if e = ErrNotFound then ret (writeErr 404 ''job not found'') else ret (writeErr 500 (Error_text e))
      | Inr job \<Rightarrow> ret (200, BodyJob job)) }"

text \<open>\<open>strconv.Atoi\<close>, whose error the caller drops, with the value it returns along with the error.\<close>

fun digits_value :: "string \<Rightarrow> int \<Rightarrow> int option" where
  "digits_value [] acc = Some acc"
| "digits_value (c # cs) acc =
     (let n = (of_char c :: nat) in
      if 48 \<le> n \<and> n \<le> 57 then digits_value cs (acc * 10 + int (n - 48)) else None)"

definition Atoi :: "string \<Rightarrow> int" where
  "Atoi s =
     (let neg = (s \<noteq> [] \<and> hd s = CHR ''-'');
          ds = (if s \<noteq> [] \<and> (hd s = CHR ''-'' \<or> hd s = CHR ''+'') then tl s else s)
      in if ds = [] then 0
         else case digits_value ds 0 of
                None \<Rightarrow> 0
              | Some n \<Rightarrow>
                  (let v = (if neg then - n else n) in
                   if v < - (2 ^ 63) then - (2 ^ 63) else if 2 ^ 63 \<le> v then 2 ^ 63 - 1 else v))"

definition api_listJobs :: "('s, 'q) Service \<Rightarrow> string \<Rightarrow> string \<Rightarrow> ('s, 'q, Response) handler" where
  "api_listJobs D state limit = do {
     r \<leftarrow> store_get (\<lambda>x. js_ListJobs (sv_store D) x state (Atoi limit));
     (case r of
        Inl e \<Rightarrow> ret (writeErr 500 (Error_text e))
      | Inr jobs \<Rightarrow> ret (200, BodyJobs jobs)) }"

definition cancel_terminal :: "JobState \<Rightarrow> bool" where
  "cancel_terminal s \<longleftrightarrow> s \<in> {JobStateCompleted, JobStateCancelled, JobStateExpired}"

definition cancelJob :: "('s, 'q) Service \<Rightarrow> string \<Rightarrow> ('s, 'q, Response) handler" where
  "cancelJob D jid = do {
     r \<leftarrow> getJob D jid;
     (case r of
        Inl e \<Rightarrow> if e = ErrNotFound then ret (writeErr 404 ''job not found'') else ret (writeErr 500 (Error_text e))
      | Inr job \<Rightarrow>
          if cancel_terminal (job_State job) then ret (writeErr 409 ''job already terminal'')
          else if job_State job = JobStateRunning \<or> job_State job = JobStateAssigned then do {
            _ \<leftarrow> updateJobState D jid JobStateCancelRequested [];
            _ \<leftarrow> emit D EventJobCancelRequested jid (job_ExecutionID job) (job_WorkerID job) (job_Attempt job) None;
            ret (202, BodyStrings [(''status'', ''CANCEL_REQUESTED'')]) }
          else do {
            now \<leftarrow> time_now;
            _ \<leftarrow> updateJobState D jid JobStateCancelled [(''completed_at'', AnyTime now)];
            _ \<leftarrow> emit D EventJobCancelled jid '''' '''' (job_Attempt job) None;
            ret (200, BodyStrings [(''status'', ''CANCELLED'')]) }) }"

definition api_listWorkers :: "('s, 'q) Service \<Rightarrow> ('s, 'q, Response) handler" where
  "api_listWorkers D = do {
     r \<leftarrow> store_get (\<lambda>x. js_ListWorkers (sv_store D) x);
     (case r of
        Inl e \<Rightarrow> ret (writeErr 500 (Error_text e))
      | Inr workers \<Rightarrow> ret (200, BodyWorkers workers)) }"


section \<open>Analytics\<close>

text \<open>
  The endpoints of \<^verbatim>\<open>internal/api/analytics.go\<close>: every one needs the querier, reads its window from the query
  string, asks, and answers 503, 400, 502 or 200.
\<close>

definition query_get :: "(string \<times> string) list \<Rightarrow> string \<Rightarrow> string" where
  "query_get params k = (case map_of params k of None \<Rightarrow> '''' | Some v \<Rightarrow> v)"

definition requireAnalytics :: "('s, 'q) Server \<Rightarrow> (Querier \<Rightarrow> ('s, 'q, Response) handler) \<Rightarrow> ('s, 'q, Response) handler" where
  "requireAnalytics srv f =
     (case srv_analytics srv of
        None \<Rightarrow> ret (writeErr 503 ''analytics unavailable (ClickHouse not configured)'')
      | Some q \<Rightarrow> f q)"

definition parseRange :: "('s, 'q) Server \<Rightarrow> (string \<times> string) list \<Rightarrow> duration \<Rightarrow> ext \<Rightarrow> TimeRange res" where
  "parseRange srv params def x =
     ParseRange (gl_timeerr (srv_lib srv)) (x_now x 0) (query_get params ''from'') (query_get params ''to'') def"

definition answer :: "'r res \<Rightarrow> ('r \<Rightarrow> Body) \<Rightarrow> Response" where
  "answer r body = (case r of Inl e \<Rightarrow> writeErr 502 (Error_text e) | Inr res \<Rightarrow> (200, body res))"

definition ranged_query ::
    "('s, 'q) Server \<Rightarrow> (string \<times> string) list \<Rightarrow> duration \<Rightarrow> (Querier \<Rightarrow> ext \<Rightarrow> TimeRange \<Rightarrow> 'r res) \<Rightarrow> ('r \<Rightarrow> Body) \<Rightarrow>
     ('s, 'q, Response) handler" where
  "ranged_query srv params def ask body =
     requireAnalytics srv (\<lambda>q. do {
       x \<leftarrow> next_ext;
       (case parseRange srv params def x of
          Inl e \<Rightarrow> ret (writeErr 400 (Error_text e))
        | Inr tr \<Rightarrow> do { y \<leftarrow> next_ext; ret (answer (ask q y tr) body) }) })"

definition grain_of :: "(string \<times> string) list \<Rightarrow> string" where
  "grain_of params = (let g = query_get params ''grain'' in if g = '''' then ''minute'' else g)"

definition target_of :: "('s, 'q) Server \<Rightarrow> (string \<times> string) list \<Rightarrow> fl" where
  "target_of srv params =
     (let v = query_get params ''target_per_worker'' in
      if v = '''' then Fin 30
      else case gl_ParseFloat (srv_lib srv) v of None \<Rightarrow> Fin 30 | Some f \<Rightarrow> f)"

definition anomaly_ranges :: "('s, 'q) Server \<Rightarrow> (string \<times> string) list \<Rightarrow> ext \<Rightarrow> TimeRange \<times> TimeRange" where
  "anomaly_ranges srv params x =
     (let now = x_now x 0;
          v = query_get params ''window'';
          window = (if v = '''' then 15 * Minute else case ParseDuration v of None \<Rightarrow> 15 * Minute | Some d \<Rightarrow> d);
          current = \<lparr>tr_From = now + wrap64 (- window), tr_To = now\<rparr>;
          baseline = \<lparr>tr_From = now + wrap64 (- 2 * window), tr_To = now + wrap64 (- window)\<rparr>
      in if query_get params ''from'' = '''' then (current, baseline)
         else case parseRange srv params window (x\<lparr>x_now := \<lambda>n. x_now x (Suc n)\<rparr>) of
           Inl e \<Rightarrow> (current, baseline)
         | Inr tr \<Rightarrow>
             (let span = time_Sub (tr_To tr) (tr_From tr) in
              (tr, \<lparr>tr_From = tr_From tr + wrap64 (- span), tr_To = tr_From tr\<rparr>)))"

definition analyticsAnomalies :: "('s, 'q) Server \<Rightarrow> (string \<times> string) list \<Rightarrow> ('s, 'q, Response) handler" where
  "analyticsAnomalies srv params =
     requireAnalytics srv (\<lambda>q. do {
       x \<leftarrow> next_ext;
       y \<leftarrow> next_ext;
       ret (case anomaly_ranges srv params x of (current, baseline) \<Rightarrow>
              answer (qa_Anomalies q y current baseline) BodyAnomalies) })"

definition analytics_endpoint :: "('s, 'q) Server \<Rightarrow> AnalyticsPath \<Rightarrow> (string \<times> string) list \<Rightarrow> ('s, 'q, Response) handler" where
  "analytics_endpoint srv path params =
     (let hour = 3600 * Second; day = 24 * 3600 * Second in
      case path of
        PathThroughput \<Rightarrow> ranged_query srv params hour (\<lambda>q x tr. qa_Throughput q x tr (grain_of params)) BodyThroughput
      | PathLatency \<Rightarrow> ranged_query srv params hour qa_Latency BodyLatency
      | PathFailures \<Rightarrow> ranged_query srv params hour qa_Failures BodyFailures
      | PathRetries \<Rightarrow> ranged_query srv params hour qa_Failures BodyFailures
      | PathWorkers \<Rightarrow> ranged_query srv params hour qa_Workers BodyWorkerStats
      | PathQueue \<Rightarrow> ranged_query srv params hour qa_Queue BodyQueue
      | PathScheduler \<Rightarrow> ranged_query srv params day qa_Scheduler BodyScheduler
      | PathCapacity \<Rightarrow> ranged_query srv params day (\<lambda>q x tr. qa_Capacity q x tr (target_of srv params)) BodyCapacity
      | PathAnomalies \<Rightarrow> analyticsAnomalies srv params)"


section \<open>The router\<close>

text \<open>
  \<open>Handler\<close>: the health endpoints are open, every other endpoint sits behind the API-key guard.
  Readiness pings the database of the store, if it has one: the outcome is an argument.
\<close>

definition dispatch :: "('s, 'q) Server \<Rightarrow> Error option \<Rightarrow> Endpoint \<Rightarrow> ('s, 'q, Response) handler" where
  "dispatch srv ping ep =
     (case ep of
        GetHealthz \<Rightarrow> ret (200, BodyStrings [(''status'', ''ok'')])
      | GetReadyz \<Rightarrow>
          (case ping of
             Some e \<Rightarrow> ret (503, BodyStrings [(''status'', ''not_ready''), (''error'', Error_text e)])
           | None \<Rightarrow> ret (200, BodyStrings [(''status'', ''ready''), (''queue'', q_Name (sv_queue (srv_deps srv)))]))
      | PostJobs body \<Rightarrow> createJob (srv_deps srv) body
      | GetJobs state limit \<Rightarrow> api_listJobs (srv_deps srv) state limit
      | GetJobById jid \<Rightarrow> api_getJob (srv_deps srv) jid
      | PostCancel jid \<Rightarrow> cancelJob (srv_deps srv) jid
      | GetWorkers \<Rightarrow> api_listWorkers (srv_deps srv)
      | GetQueueBackends \<Rightarrow> ret (200, BodyBackends (q_Name (sv_queue (srv_deps srv))) (srv_backends srv))
      | GetAnalytics path params \<Rightarrow> analytics_endpoint srv path params)"

definition is_open :: "Endpoint \<Rightarrow> bool" where
  "is_open ep \<longleftrightarrow> ep = GetHealthz \<or> ep = GetReadyz"

definition Handler :: "('s, 'q) Server \<Rightarrow> Error option \<Rightarrow> Request \<Rightarrow> ('s, 'q, Response) handler" where
  "Handler srv ping req =
     (if is_open (rq_endpoint req) then dispatch srv ping (rq_endpoint req)
      else HTTPMiddleware (srv_auth srv) (writeErr 401 ''unauthorized'')
             (dispatch srv ping (rq_endpoint req)) (rq_header req))"


section \<open>Lemmas\<close>

text \<open>The analytics endpoints touch nothing of the operational plane.\<close>

lemma analytics_silent:
  "exec (analytics_endpoint srv path params) w = w\<lparr>w_tick := w_tick (exec (analytics_endpoint srv path params) w)\<rparr>"
  by (cases path)
    (simp_all add: analytics_endpoint_def ranged_query_def analyticsAnomalies_def requireAnalytics_def next_ext_def
      split: option.split sum.split)

lemma keeps_analytics:
  assumes "\<And>w n. I w \<Longrightarrow> I (w\<lparr>w_tick := n\<rparr>)"
  shows "keeps I (analytics_endpoint srv path params)"
  unfolding keeps_def using assms by (subst analytics_silent) blast

end
