(* ===== verification/SchedulerWp.thy ===== *)
theory SchedulerWp
  imports Scheduler Contracts
begin

text \<open>
  The scheduler's calls on its collaborators, under the contracts of theory \<open>Contracts\<close>. A world is
  seen through \<open>view\<close>, which replaces the store's state by its abstraction and forgets how many
  outside values have been used; every primitive of the handlers has one rule that says what it
  does to the view. The handlers are verified with these rules alone.
\<close>

section \<open>The abstract view of a world\<close>

definition view :: "('s \<Rightarrow> AbsStore) \<Rightarrow> ('s, 'q) World \<Rightarrow> (AbsStore, 'q) World" where
  "view av w =
     \<lparr>w_store = av (w_store w), w_queue = w_queue w, w_workers = w_workers w,
      w_pendingCancels = w_pendingCancels w, w_sent = w_sent w, w_ext = w_ext w, w_tick = 0\<rparr>"

abbreviation v_jobs :: "(AbsStore, 'q) World \<Rightarrow> string \<rightharpoonup> Job" where
  "v_jobs v \<equiv> a_jobs (w_store v)"

abbreviation v_execs :: "(AbsStore, 'q) World \<Rightarrow> string \<rightharpoonup> JobExecution" where
  "v_execs v \<equiv> a_execs (w_store v)"

definition exts_ok :: "('s, 'q) World \<Rightarrow> bool" where
  "exts_ok w \<longleftrightarrow> (\<forall>n. ext_ok (w_ext w n))"

definition sound_world :: "('s \<Rightarrow> bool) \<Rightarrow> ('s, 'q) World \<Rightarrow> bool" where
  "sound_world sinv w \<longleftrightarrow> sinv (w_store w) \<and> exts_ok w"

text \<open>A reading of the clock, and a draw of \<open>rand.Float64\<close>, by a handler that runs in a world.\<close>

definition clock :: "('s, 'q) World \<Rightarrow> time \<Rightarrow> bool" where
  "clock w t \<longleftrightarrow> (\<exists>n. t = x_now (w_ext w n) 0)"

definition drawn :: "('s, 'q) World \<Rightarrow> rat \<Rightarrow> bool" where
  "drawn w r \<longleftrightarrow> (\<exists>n. r = x_rand (w_ext w n))"

definition put_job :: "string \<Rightarrow> Job \<Rightarrow> (AbsStore, 'q) World \<Rightarrow> (AbsStore, 'q) World" where
  "put_job jid j v = v\<lparr>w_store := (w_store v)\<lparr>a_jobs := (v_jobs v)(jid \<mapsto> j)\<rparr>\<rparr>"

definition put_exec :: "string \<Rightarrow> JobExecution \<Rightarrow> (AbsStore, 'q) World \<Rightarrow> (AbsStore, 'q) World" where
  "put_exec xid ex v = v\<lparr>w_store := (w_store v)\<lparr>a_execs := (v_execs v)(xid \<mapsto> ex)\<rparr>\<rparr>"

definition end_exec ::
    "string \<Rightarrow> ExecutionState \<Rightarrow> ExecutionResult \<Rightarrow> time \<Rightarrow> (AbsStore, 'q) World \<Rightarrow> (AbsStore, 'q) World" where
  "end_exec xid st r t v =
     (case (if xid = '''' then None else v_execs v xid) of
        None \<Rightarrow> v
      | Some ex \<Rightarrow> put_exec xid (finished t st r ex) v)"

text \<open>The fields of a view after the abstract updates.\<close>

lemma view_sel [simp]:
  "w_store (view av w) = av (w_store w)" "w_queue (view av w) = w_queue w"
  "w_workers (view av w) = w_workers w" "w_pendingCancels (view av w) = w_pendingCancels w"
  "w_sent (view av w) = w_sent w" "w_ext (view av w) = w_ext w"
  by (simp_all add: view_def)

lemma put_job_sel [simp]:
  "v_jobs (put_job jid j v) = (v_jobs v)(jid \<mapsto> j)" "v_execs (put_job jid j v) = v_execs v"
  "a_workers (w_store (put_job jid j v)) = a_workers (w_store v)"
  "a_keys (w_store (put_job jid j v)) = a_keys (w_store v)"
  "w_queue (put_job jid j v) = w_queue v" "w_workers (put_job jid j v) = w_workers v"
  "w_pendingCancels (put_job jid j v) = w_pendingCancels v" "w_sent (put_job jid j v) = w_sent v"
  "w_ext (put_job jid j v) = w_ext v"
  by (simp_all add: put_job_def)

lemma put_exec_sel [simp]:
  "v_jobs (put_exec xid ex v) = v_jobs v" "v_execs (put_exec xid ex v) = (v_execs v)(xid \<mapsto> ex)"
  "a_workers (w_store (put_exec xid ex v)) = a_workers (w_store v)"
  "a_keys (w_store (put_exec xid ex v)) = a_keys (w_store v)"
  "w_queue (put_exec xid ex v) = w_queue v" "w_workers (put_exec xid ex v) = w_workers v"
  "w_pendingCancels (put_exec xid ex v) = w_pendingCancels v" "w_sent (put_exec xid ex v) = w_sent v"
  "w_ext (put_exec xid ex v) = w_ext v"
  by (simp_all add: put_exec_def)

lemma end_exec_sel [simp]:
  "v_jobs (end_exec xid st r t v) = v_jobs v"
  "a_workers (w_store (end_exec xid st r t v)) = a_workers (w_store v)"
  "a_keys (w_store (end_exec xid st r t v)) = a_keys (w_store v)"
  "w_queue (end_exec xid st r t v) = w_queue v" "w_workers (end_exec xid st r t v) = w_workers v"
  "w_pendingCancels (end_exec xid st r t v) = w_pendingCancels v"
  "w_sent (end_exec xid st r t v) = w_sent v" "w_ext (end_exec xid st r t v) = w_ext v"
  by (simp_all add: end_exec_def split: option.splits)

lemma end_exec_execs:
  "v_execs (end_exec xid st r t v) xid' =
     (if xid' = xid \<and> xid \<noteq> '''' then map_option (finished t st r) (v_execs v xid) else v_execs v xid')"
  by (simp add: end_exec_def split: option.splits)

lemma clock_cong: "w_ext w = w_ext w' \<Longrightarrow> clock w = clock w'"
  by (simp add: clock_def fun_eq_iff)

lemma drawn_cong: "w_ext w = w_ext w' \<Longrightarrow> drawn w = drawn w'"
  by (simp add: drawn_def fun_eq_iff)

lemma clock_view [simp]: "clock (view av w) = clock w" "drawn (view av w) = drawn w"
  by (simp_all add: clock_def drawn_def fun_eq_iff)

lemma clock_end_exec [simp]: "clock (end_exec xid st r t v) = clock v" "drawn (end_exec xid st r t v) = drawn v"
  by (simp_all add: clock_def drawn_def fun_eq_iff)

text \<open>Changes of the scheduler's own maps commute with the view.\<close>

lemma upd_worker_sel [simp]:
  "w_store (upd_worker wid f w) = w_store w" "w_queue (upd_worker wid f w) = w_queue w"
  "w_pendingCancels (upd_worker wid f w) = w_pendingCancels w" "w_sent (upd_worker wid f w) = w_sent w"
  "w_ext (upd_worker wid f w) = w_ext w"
  by (simp_all add: upd_worker_def split: option.splits)

lemma drop_pending_sel [simp]:
  "w_store (drop_pending wid jid w) = w_store w" "w_queue (drop_pending wid jid w) = w_queue w"
  "w_workers (drop_pending wid jid w) = w_workers w" "w_sent (drop_pending wid jid w) = w_sent w"
  "w_ext (drop_pending wid jid w) = w_ext w"
  by (simp_all add: drop_pending_def Let_def split: option.splits)

lemma add_pending_sel [simp]:
  "w_store (add_pending wid jid w) = w_store w" "w_queue (add_pending wid jid w) = w_queue w"
  "w_workers (add_pending wid jid w) = w_workers w" "w_sent (add_pending wid jid w) = w_sent w"
  "w_ext (add_pending wid jid w) = w_ext w"
  by (simp_all add: add_pending_def Let_def)

lemma view_upd_worker: "view av (upd_worker wid f w) = upd_worker wid f (view av w)"
  by (simp add: view_def upd_worker_def split: option.splits)

lemma view_drop_pending: "view av (drop_pending wid jid w) = drop_pending wid jid (view av w)"
  by (simp add: view_def drop_pending_def Let_def split: option.splits)

lemma view_add_pending: "view av (add_pending wid jid w) = add_pending wid jid (view av w)"
  by (simp add: view_def add_pending_def Let_def)

lemma view_fields:
  "view av (w\<lparr>w_workers := ws\<rparr>) = (view av w)\<lparr>w_workers := ws\<rparr>"
  "view av (w\<lparr>w_pendingCancels := pc\<rparr>) = (view av w)\<lparr>w_pendingCancels := pc\<rparr>"
  "view av (w\<lparr>w_sent := rs\<rparr>) = (view av w)\<lparr>w_sent := rs\<rparr>"
  "view av (w\<lparr>w_queue := q\<rparr>) = (view av w)\<lparr>w_queue := q\<rparr>"
  "view av (w\<lparr>w_tick := n\<rparr>) = view av w"
  "view av (w\<lparr>w_store := s\<rparr>) = (view av w)\<lparr>w_store := av s\<rparr>"
  by (simp_all add: view_def)

lemma wp_next_ext [wp_simps]:
  "wp next_ext Q w = Q (w_ext w (w_tick w)) (w\<lparr>w_tick := Suc (w_tick w)\<rparr>)"
  by (simp add: next_ext_def wp_def)

lemma wp_State [wp_simps]: "wp (State f) Q w = (case f w of (a, w') \<Rightarrow> Q a w')"
  by (simp add: wp_def split: prod.splits)


section \<open>Rules under the contracts\<close>

locale scheduler_ctx =
  st: job_store_total "sv_store D" av sinv +
  ev: event_sink "sv_events D" av sinv +
  qu: job_queue "sv_queue D" waiting accepting
  for D :: "('s, 'q) Service" and av sinv waiting accepting
begin

abbreviation vw :: "('s, 'q) World \<Rightarrow> (AbsStore, 'q) World" where
  "vw \<equiv> view av"

abbreviation good :: "('s, 'q) World \<Rightarrow> bool" where
  "good \<equiv> sound_world sinv"

lemma good_frame [simp]:
  "good (w\<lparr>w_workers := ws\<rparr>) = good w" "good (w\<lparr>w_pendingCancels := pc\<rparr>) = good w"
  "good (w\<lparr>w_sent := rs\<rparr>) = good w" "good (w\<lparr>w_queue := q\<rparr>) = good w"
  "good (w\<lparr>w_tick := n\<rparr>) = good w"
  "good (upd_worker wid f w) = good w" "good (drop_pending wid jid w) = good w"
  "good (add_pending wid jid w) = good w"
  by (simp_all add: sound_world_def exts_ok_def)

lemma good_ext: "good w \<Longrightarrow> ext_ok (w_ext w n)"
  by (simp add: sound_world_def exts_ok_def)

lemma wp_time_now:
  assumes "good w" "\<And>t w'. good w' \<Longrightarrow> vw w' = vw w \<Longrightarrow> Q t w'"
  shows "wp time_now Q w"
  using assms by (simp add: time_now_def wp_simps view_fields)

lemma wp_clock:
  assumes "good w" "\<And>t w'. good w' \<Longrightarrow> vw w' = vw w \<Longrightarrow> clock w' t \<Longrightarrow> Q t w'"
  shows "wp time_now Q w"
  unfolding time_now_def wp_simps
  by (rule assms(2)) (use assms(1) in \<open>auto simp: clock_def view_fields\<close>)

lemma wp_new_uuid:
  assumes "good w" "\<And>u n w'. good w' \<Longrightarrow> vw w' = vw w \<Longrightarrow> u = x_uuid (w_ext w n) 0 \<Longrightarrow> Q u w'"
  shows "wp new_uuid Q w"
  using assms by (simp add: new_uuid_def wp_simps view_fields)

lemma wp_backoff:
  assumes "good w"
    "\<And>rnd w'. good w' \<Longrightarrow> vw w' = vw w \<Longrightarrow> drawn w rnd \<Longrightarrow> Q (computeBackoff (sv_conv D) rnd p attempt) w'"
  shows "wp (backoff D p attempt) Q w"
  unfolding backoff_def rand_float_def wp_simps
  by (rule assms(2)) (use assms(1) in \<open>auto simp: drawn_def view_fields\<close>)

lemma wp_emit:
  assumes "good w" "\<And>w'. good w' \<Longrightarrow> vw w' = vw w \<Longrightarrow> Q () w'"
  shows "wp (emit D et jid xid wid attempt payload) Q w"
proof -
  let ?x = "w_ext w (w_tick w)"
  obtain e s' where s: "ep_Emit (sv_events D) ?x et jid xid wid attempt payload (w_store w) = (e, s')"
    by (metis surj_pair)
  with ev.emit_frame assms(1) have "sinv s'" "av s' = av (w_store w)" by (auto simp: sound_world_def)
  with s assms show ?thesis
    by (simp add: emit_def store_upd_def wp_simps view_fields sound_world_def exts_ok_def)
qed

lemma wp_getJob:
  assumes "good w"
    "\<And>w'. good w' \<Longrightarrow> vw w' = vw w \<Longrightarrow> v_jobs (vw w) jid = None \<Longrightarrow> Q (Inl ErrNotFound) w'"
    "\<And>w' j md. good w' \<Longrightarrow> vw w' = vw w \<Longrightarrow> v_jobs (vw w) jid = Some j \<Longrightarrow>
       same_metadata (job_Metadata j) md \<Longrightarrow> Q (Inr (j\<lparr>job_Metadata := md\<rparr>)) w'"
  shows "wp (getJob D jid) Q w"
proof -
  let ?x = "w_ext w (w_tick w)" and ?w = "w\<lparr>w_tick := Suc (w_tick w)\<rparr>"
  have g: "good ?w" "vw ?w = vw w" using assms(1) by (simp_all add: view_fields)
  have "ext_ok ?x" "sinv (w_store w)" using assms(1) by (simp_all add: sound_world_def exts_ok_def)
  from st.get_total [OF this, of jid] show ?thesis
    using assms(2) [OF g] assms(3) [OF g]
    by (auto simp: getJob_def store_get_def wp_simps split: option.splits)
qed

lemma wp_store_upd:
  assumes "good w"
    "\<And>a s'. f (w_ext w (w_tick w)) (w_store w) = (a, s') \<Longrightarrow>
       sinv s' \<and> Q a (w\<lparr>w_tick := Suc (w_tick w), w_store := s'\<rparr>)"
  shows "wp (store_upd f) (\<lambda>a w'. good w' \<and> Q a w') w"
proof -
  obtain a s' where s: "f (w_ext w (w_tick w)) (w_store w) = (a, s')" by (metis surj_pair)
  from assms(2) [OF s] assms(1) s show ?thesis
    by (simp add: store_upd_def wp_simps sound_world_def exts_ok_def)
qed

lemma good_call:
  assumes "good w"
  shows "ext_ok (w_ext w (w_tick w))" "sinv (w_store w)"
  using assms by (simp_all add: sound_world_def exts_ok_def)

lemma wp_updateJobStateIf:
  assumes w: "good w"
    and miss: "\<And>w'. good w' \<Longrightarrow> vw w' = vw w \<Longrightarrow> v_jobs (vw w) jid = None \<Longrightarrow> Q (Some ErrNotFound) w'"
    and skip: "\<And>w' j. good w' \<Longrightarrow> vw w' = vw w \<Longrightarrow> v_jobs (vw w) jid = Some j \<Longrightarrow> only \<noteq> [] \<Longrightarrow>
       job_State j \<notin> set only \<Longrightarrow> Q None w'"
    and set: "\<And>w' j t. good w' \<Longrightarrow> v_jobs (vw w) jid = Some j \<Longrightarrow> only = [] \<or> job_State j \<in> set only \<Longrightarrow>
       vw w' = put_job jid (set_state t st f j) (vw w) \<Longrightarrow> Q None w'"
  shows "wp (store_upd (\<lambda>x. js_UpdateJobStateIf (sv_store D) x jid st f only)) Q w"
proof -
  let ?x = "w_ext w (w_tick w)"
  obtain e s' where s: "js_UpdateJobStateIf (sv_store D) ?x jid st f only (w_store w) = (e, s')"
    by (metis surj_pair)
  let ?w = "w\<lparr>w_tick := Suc (w_tick w), w_store := s'\<rparr>"
  have g: "good ?w" using st.update_sound [OF good_call [OF w] s] w by (simp add: sound_world_def exts_ok_def)
  have "Q e ?w"
  proof (cases "v_jobs (vw w) jid")
    case None
    with st.update_total [OF good_call [OF w] s] have "e = Some ErrNotFound" "vw ?w = vw w"
      by (simp_all add: view_def)
    with miss [OF g] None show ?thesis by simp
  next
    case (Some j)
    show ?thesis
    proof (cases "only \<noteq> [] \<and> job_State j \<notin> set only")
      case True
      with st.update_total [OF good_call [OF w] s] Some have "e = None" "vw ?w = vw w"
        by (simp_all add: view_def)
      with skip [OF g _ Some] True show ?thesis by simp
    next
      case False
      with st.update_total [OF good_call [OF w] s] Some
      have "e = None" "vw ?w = put_job jid (set_state (x_now ?x 0) st f j) (vw w)"
        by (auto simp: view_def put_job_def split: if_splits)
      with set [OF g Some] False show ?thesis by auto
    qed
  qed
  then show ?thesis using s by (simp add: store_upd_def wp_simps)
qed

lemma wp_updateJobState:
  assumes "good w" "v_jobs (vw w) jid = Some j"
    "\<And>w' t. good w' \<Longrightarrow> vw w' = put_job jid (set_state t st f j) (vw w) \<Longrightarrow> Q None w'"
  shows "wp (updateJobState D jid st f) Q w"
  unfolding updateJobState_def js_UpdateJobState_def
  by (rule wp_updateJobStateIf [OF assms(1)]) (use assms(2,3) in auto)

lemma wp_updateJobState_missing:
  assumes "good w" "v_jobs (vw w) jid = None"
    "\<And>w'. good w' \<Longrightarrow> vw w' = vw w \<Longrightarrow> Q (Some ErrNotFound) w'"
  shows "wp (updateJobState D jid st f) Q w"
  unfolding updateJobState_def js_UpdateJobState_def
  by (rule wp_updateJobStateIf [OF assms(1)]) (use assms(2,3) in auto)

lemma wp_finishExecution:
  assumes w: "good w"
    and Q: "\<And>w' t. good w' \<Longrightarrow> vw w' = end_exec xid est r t (vw w) \<Longrightarrow> Q () w'"
  shows "wp (finishExecution D xid est r) Q w"
proof (cases "xid = ''''")
  case True
  with Q [OF w] show ?thesis by (simp add: finishExecution_def wp_simps end_exec_def)
next
  case False
  let ?x = "w_ext w (w_tick w)"
  obtain e s' where s: "js_FinishExecution (sv_store D) ?x xid est r (w_store w) = (e, s')"
    by (metis surj_pair)
  let ?w = "w\<lparr>w_tick := Suc (w_tick w), w_store := s'\<rparr>"
  have "good ?w" using st.finish_sound [OF good_call [OF w] s] w by (simp add: sound_world_def exts_ok_def)
  moreover have "vw ?w = end_exec xid est r (x_now ?x 0) (vw w)"
    using st.finish_total [OF good_call [OF w] s] False
    by (auto simp: view_def end_exec_def put_exec_def fun_eq_iff intro!: AbsStore.equality
        split: option.splits)
  ultimately have "Q () ?w" by (rule Q)
  then show ?thesis using s False by (simp add: finishExecution_def store_upd_def wp_simps)
qed

lemma wp_createJob:
  assumes w: "good w" and key: "job_IdempotencyKey job = ''''"
    and Q: "\<And>w' i t md n. good w' \<Longrightarrow> i = new_id (w_ext w n) job \<Longrightarrow> same_metadata (job_Metadata job) md \<Longrightarrow>
      vw w' = put_job i (stored job i t md) (vw w) \<Longrightarrow> Q (Inr (stored job i t (job_Metadata job))) w'"
  shows "wp (store_upd (\<lambda>x. js_CreateJob (sv_store D) x job)) Q w"
proof -
  let ?x = "w_ext w (w_tick w)"
  obtain r s' where s: "js_CreateJob (sv_store D) ?x job (w_store w) = (r, s')" by (metis surj_pair)
  let ?w = "w\<lparr>w_tick := Suc (w_tick w), w_store := s'\<rparr>" and ?i = "new_id ?x job"
  have g: "good ?w" using st.create_sound [OF good_call [OF w] s] w by (simp add: sound_world_def exts_ok_def)
  from st.create_total [OF good_call [OF w] s] key obtain md where
    "r = Inr (stored job ?i (x_now ?x 0) (job_Metadata job))" "same_metadata (job_Metadata job) md"
    "av s' = (av (w_store w))\<lparr>a_jobs := (a_jobs (av (w_store w)))(?i \<mapsto> stored job ?i (x_now ?x 0) md)\<rparr>"
    by (auto simp: Let_def)
  moreover from this(3) have "vw ?w = put_job ?i (stored job ?i (x_now ?x 0) md) (vw w)"
    by (simp add: view_def put_job_def)
  ultimately have "Q r ?w" using Q [OF g refl] by simp
  then show ?thesis using s by (simp add: store_upd_def wp_simps)
qed

lemma wp_createExecution:
  assumes w: "good w" and x: "ex_ID ex \<noteq> ''''"
    and Q: "\<And>w' t. good w' \<Longrightarrow> vw w' = put_exec (ex_ID ex) (ex\<lparr>ex_CreatedAt := t\<rparr>) (vw w) \<Longrightarrow>
      Q (Inr (ex\<lparr>ex_CreatedAt := t\<rparr>)) w'"
  shows "wp (store_upd (\<lambda>x. js_CreateExecution (sv_store D) x ex)) Q w"
proof -
  let ?x = "w_ext w (w_tick w)"
  obtain r s' where s: "js_CreateExecution (sv_store D) ?x ex (w_store w) = (r, s')" by (metis surj_pair)
  let ?w = "w\<lparr>w_tick := Suc (w_tick w), w_store := s'\<rparr>"
  have "good ?w" using st.execution_sound [OF good_call [OF w] s] w by (simp add: sound_world_def exts_ok_def)
  moreover have "vw ?w = put_exec (ex_ID ex) (ex\<lparr>ex_CreatedAt := x_now ?x 0\<rparr>) (vw w)"
    "r = Inr (ex\<lparr>ex_CreatedAt := x_now ?x 0\<rparr>)"
    using st.execution_total [OF good_call [OF w] s x] by (simp_all add: view_def put_exec_def)
  ultimately have "Q r ?w" using Q by simp
  then show ?thesis using s by (simp add: store_upd_def wp_simps)
qed

lemma wp_client_ExecuteJob:
  assumes "good w" "\<And>w' n. good w' \<Longrightarrow>
      vw w' = (vw w)\<lparr>w_sent := w_sent w @ [RpcExecute wid (execute_request job xid)]\<rparr> \<Longrightarrow>
      Q (execute_result (x_exec (w_ext w n))) w'"
  shows "wp (client_ExecuteJob wid job xid) Q w"
  using assms by (simp add: client_ExecuteJob_def wp_simps view_fields)

lemma wp_cancel_on_worker:
  assumes w: "good w"
    and Q: "\<And>w'. good w' \<Longrightarrow>
      vw w' = (case map_of (w_workers w) wid of
                 None \<Rightarrow> vw w
               | Some _ \<Rightarrow> (vw w)\<lparr>w_sent := w_sent w @ [RpcCancel wid jid xid]\<rparr>) \<Longrightarrow> Q () w'"
  shows "wp (cancel_on_worker wid jid xid) Q w"
proof (cases "map_of (w_workers w) wid")
  case None
  with w Q show ?thesis by (simp add: cancel_on_worker_def wp_simps)
next
  case (Some c)
  with w Q show ?thesis
    by (simp add: cancel_on_worker_def client_CancelJob_def wp_simps view_fields)
qed

end

end
