(* ===== verification/SchedulerQueue.thy ===== *)
theory SchedulerQueue
  imports SchedulerWp
begin

text \<open>
  Promotion of due jobs into the queue, the choice of a worker, and the assignment of a queued
  job, for every store, publisher and queue that meet the contracts.
\<close>

section \<open>The choice of a worker\<close>

definition better :: "workerConn \<Rightarrow> workerConn \<Rightarrow> bool" where
  "better b c \<longleftrightarrow> wk_ActiveJobs (wc_info b) \<le> wk_ActiveJobs (wc_info c)"

lemma pick_loop_Some:
  "pick_loop (Some b) ws = Some c \<Longrightarrow>
     (c = b \<or> c \<in> set ws \<and> IsAssignable (wc_info c)) \<and> better c b \<and>
     (\<forall>w\<in>set ws. IsAssignable (wc_info w) \<longrightarrow> better c w)"
proof (induction ws arbitrary: b)
  case (Cons w ws)
  show ?case
  proof (cases "IsAssignable (wc_info w) \<and> wk_ActiveJobs (wc_info w) < wk_ActiveJobs (wc_info b)")
    case True
    with Cons.prems have "pick_loop (Some w) ws = Some c" by simp
    from Cons.IH [OF this] True show ?thesis by (auto simp: better_def)
  next
    case False
    with Cons.prems have "pick_loop (Some b) ws = Some c" by (auto split: if_splits)
    from Cons.IH [OF this] False show ?thesis by (auto simp: better_def)
  qed
qed (simp add: better_def)

lemma pick_loop_not_None: "pick_loop (Some b) ws \<noteq> None"
  by (induction ws arbitrary: b) auto

lemma pick_loop_spec:
  "case pick_loop None ws of
     None \<Rightarrow> \<forall>w\<in>set ws. \<not> IsAssignable (wc_info w)
   | Some b \<Rightarrow> b \<in> set ws \<and> IsAssignable (wc_info b) \<and>
               (\<forall>w\<in>set ws. IsAssignable (wc_info w) \<longrightarrow> better b w)"
proof (induction ws)
  case (Cons w ws)
  show ?case
  proof (cases "IsAssignable (wc_info w)")
    case True
    then obtain c where "pick_loop (Some w) ws = Some c" using pick_loop_not_None [of w ws] by auto
    with pick_loop_Some [OF this] True show ?thesis by auto
  next
    case False
    with Cons show ?thesis by (auto split: option.splits)
  qed
qed simp

text \<open>The workers registered with the scheduler: keyed by their identifier.\<close>

definition conns_ok :: "('s, 'q) World \<Rightarrow> bool" where
  "conns_ok w \<longleftrightarrow> (\<forall>wid c. map_of (w_workers w) wid = Some c \<longrightarrow> wk_ID (wc_info c) = wid)"

definition best_worker :: "(string, workerConn) gomap \<Rightarrow> string \<Rightarrow> bool" where
  "best_worker ws wid \<longleftrightarrow>
     (\<exists>c. map_of ws wid = Some c \<and> IsAssignable (wc_info c) \<and>
          (\<forall>wid' c'. map_of ws wid' = Some c' \<and> IsAssignable (wc_info c') \<longrightarrow> better c c'))"

definition no_worker :: "(string, workerConn) gomap \<Rightarrow> bool" where
  "no_worker ws \<longleftrightarrow> (\<forall>wid c. map_of ws wid = Some c \<longrightarrow> \<not> IsAssignable (wc_info c))"

definition assigned_job :: "time \<Rightarrow> string \<Rightarrow> string \<Rightarrow> QueuedJob \<Rightarrow> Job \<Rightarrow> Job" where
  "assigned_job t wid xid m j =
     set_state t JobStateAssigned
       [(''worker_id'', AnyString wid), (''execution_id'', AnyString xid), (''attempt'', AnyInt (wrap64 (qj_Attempt m + 1)))] j"

text \<open>The view after a message has been assigned and pushed to a worker.\<close>

definition pushed ::
    "QueuedJob \<Rightarrow> Job \<Rightarrow> string \<Rightarrow> string \<Rightarrow> (AbsStore, 'q) World \<Rightarrow> (AbsStore, 'q) World \<Rightarrow> bool" where
  "pushed m j wid xid v v' \<longleftrightarrow>
     (\<exists>t t'. v' = (put_job (qj_JobID m) (assigned_job t wid xid m j)
                 (put_exec xid ((new_execution xid m wid)\<lparr>ex_CreatedAt := t'\<rparr>) v))
               \<lparr>w_sent := w_sent v @ [RpcExecute wid
                  (execute_request (m\<lparr>qj_Attempt := wrap64 (qj_Attempt m + 1), qj_ExecutionID := xid\<rparr>) xid)]\<rparr>)"

definition started :: "string \<Rightarrow> string \<Rightarrow> (AbsStore, 'q) World \<Rightarrow> (AbsStore, 'q) World \<Rightarrow> bool" where
  "started jid wid v v' \<longleftrightarrow>
     (\<exists>t now j. v_jobs v jid = Some j \<and>
        v' = upd_worker wid take_slot
               (put_job jid (set_state t JobStateRunning [(''started_at'', AnyTime now)] j) v))"

definition msg_for :: "Job \<Rightarrow> QueuedJob \<Rightarrow> bool" where
  "msg_for job m \<longleftrightarrow> (\<exists>t. m = queued_job t job)"

definition queued_from :: "Job \<Rightarrow> Job \<Rightarrow> bool" where
  "queued_from j j' \<longleftrightarrow> (\<exists>t now. j' = set_state t JobStateQueued [(''queued_at'', AnyTime now)] j)"

lemma queued_job_copy [simp]: "queued_job t (j\<lparr>job_Metadata := md\<rparr>) = queued_job t j"
  by (simp add: queued_job_def)

lemma queued_job_stamp [simp]: "(queued_job t j)\<lparr>qj_EnqueuedAt := t'\<rparr> = queued_job t' j"
  by (simp add: queued_job_def)

context scheduler_ctx
begin

lemma wp_pickWorker:
  assumes w: "good w" and c: "conns_ok w"
    and none: "\<And>w'. good w' \<Longrightarrow> vw w' = vw w \<Longrightarrow> no_worker (w_workers w) \<Longrightarrow> Q None w'"
    and some: "\<And>w' c. good w' \<Longrightarrow> vw w' = vw w \<Longrightarrow> best_worker (w_workers w) (wk_ID (wc_info c)) \<Longrightarrow>
       map_of (w_workers w) (wk_ID (wc_info c)) = Some c \<Longrightarrow> Q (Some c) w'"
  shows "wp pickWorker Q w"
proof -
  let ?x = "w_ext w (w_tick w)" and ?w = "w\<lparr>w_tick := Suc (w_tick w)\<rparr>"
  let ?ws = "map snd (range_map (x_order ?x) (w_workers w))"
  have g: "good ?w" "vw ?w = vw w" using w by (simp_all add: view_fields)
  have "order_ok (x_order ?x)" using good_ext [OF w] by (simp add: ext_ok_def)
  then have set: "set ?ws = {c. \<exists>wid. map_of (w_workers w) wid = Some c}"
    by (force simp: set_range_map)
  have "Q (pick_loop None ?ws) ?w"
  proof (cases "pick_loop None ?ws")
    case None
    with pick_loop_spec [of ?ws] have "\<forall>c\<in>set ?ws. \<not> IsAssignable (wc_info c)" by simp
    with set have "no_worker (w_workers w)" unfolding no_worker_def by blast
    with none [OF g] None show ?thesis by simp
  next
    case (Some b)
    with pick_loop_spec [of ?ws] have b: "b \<in> set ?ws" "IsAssignable (wc_info b)"
      "\<forall>w\<in>set ?ws. IsAssignable (wc_info w) \<longrightarrow> better b w" by simp_all
    then obtain wid where wid: "map_of (w_workers w) wid = Some b" using set by auto
    with c have id: "wk_ID (wc_info b) = wid" by (simp add: conns_ok_def)
    have "best_worker (w_workers w) wid" using b wid set unfolding best_worker_def by blast
    with some [OF g, of b] wid id Some show ?thesis by simp
  qed
  then show ?thesis by (simp add: pickWorker_def wp_simps)
qed

text \<open>Promotion.\<close>

lemma wp_enqueue:
  assumes w: "good w" and acc: "accepting (w_queue w)"
    and Q: "\<And>w' q' t. good w' \<Longrightarrow> accepting q' \<Longrightarrow>
      waiting q' = add_mset (m\<lparr>qj_EnqueuedAt := t\<rparr>) (waiting (w_queue w)) \<Longrightarrow>
      vw w' = (vw w)\<lparr>w_queue := q'\<rparr> \<Longrightarrow> Q None w'"
  shows "wp (queue_upd (\<lambda>x. q_Enqueue (sv_queue D) x m)) Q w"
proof -
  obtain e q' where q: "q_Enqueue (sv_queue D) (w_ext w (w_tick w)) m (w_queue w) = (e, q')"
    by (metis surj_pair)
  from qu.enqueue_accepted [OF acc q] obtain t where e: "e = None" "accepting q'"
    "waiting q' = add_mset (m\<lparr>qj_EnqueuedAt := t\<rparr>) (waiting (w_queue w))" by blast
  have "Q None (w\<lparr>w_tick := Suc (w_tick w), w_queue := q'\<rparr>)"
    by (rule Q [OF _ e(2,3)]) (use w in \<open>simp_all add: view_fields\<close>)
  with q e(1) show ?thesis by (simp add: queue_upd_def wp_simps)
qed

lemma wp_enqueue_refused:
  assumes w: "good w" and acc: "\<not> accepting (w_queue w)"
    and Q: "\<And>w' e. good w' \<Longrightarrow> vw w' = vw w \<Longrightarrow> Q (Some e) w'"
  shows "wp (queue_upd (\<lambda>x. q_Enqueue (sv_queue D) x m)) Q w"
proof -
  obtain e q' where q: "q_Enqueue (sv_queue D) (w_ext w (w_tick w)) m (w_queue w) = (e, q')"
    by (metis surj_pair)
  from qu.enqueue_refused [OF acc q] obtain e' where e: "e = Some e'" "q' = w_queue w" by blast
  have "Q (Some e') (w\<lparr>w_tick := Suc (w_tick w)\<rparr>)"
    by (rule Q) (use w in \<open>simp_all add: view_fields\<close>)
  with q e show ?thesis by (simp add: queue_upd_def wp_simps)
qed

lemma wp_promote_job:
  assumes w: "good w" and acc: "accepting (w_queue w)"
    and j: "v_jobs (vw w) (job_ID k) = Some j" "job_State j \<in> {JobStateScheduled, JobStateRetrying}"
    and Q: "\<And>w' q' m j'. good w' \<Longrightarrow> accepting q' \<Longrightarrow> msg_for k m \<Longrightarrow>
       waiting q' = add_mset m (waiting (w_queue w)) \<Longrightarrow> queued_from j j' \<Longrightarrow>
       vw w' = put_job (job_ID k) j' ((vw w)\<lparr>w_queue := q'\<rparr>) \<Longrightarrow> Q () w'"
  shows "wp (promote_job D k) Q w"
  unfolding promote_job_def wp_simps
proof (rule wp_time_now [OF w], rule wp_enqueue, assumption, goal_cases)
  case (1 t0 w1)
  then show ?case using acc by (metis view_sel(2))
next
  case (2 t0 w1 w2 q' t)
  have q: "waiting q' = add_mset (queued_job t k) (waiting (w_queue w))"
    using 2(2,5) by (metis queued_job_stamp view_sel(2))
  have v2: "vw w2 = (vw w)\<lparr>w_queue := q'\<rparr>" using 2(2,6) by simp
  have "wp (store_upd (\<lambda>x. js_UpdateJobStateIf (sv_store D) x (job_ID k) JobStateQueued
            [(''queued_at'', AnyTime now)] [JobStateScheduled, JobStateRetrying]))
          (\<lambda>_. wp (emit D EventJobQueued (job_ID k) '''' '''' (job_Attempt k) None) Q) w3"
    if g3: "good w3" and v3: "vw w3 = vw w2" for now w3
  proof (rule wp_updateJobStateIf [OF g3], goal_cases)
    case (3 w4 j0 t')
    have "j0 = j" using 3(2) j(1) v2 v3 by simp
    then have "vw w4 = put_job (job_ID k) (set_state t' JobStateQueued [(''queued_at'', AnyTime now)] j)
        ((vw w)\<lparr>w_queue := q'\<rparr>)" using 3(4) v2 v3 by simp
    then show ?case
      by (intro wp_emit [OF 3(1)] Q [OF _ 2(4) _ q])
        (auto simp: msg_for_def queued_from_def)
  qed (use j v2 v3 in auto)
  then show ?case using 2(3) by (auto simp: wp_simps intro!: wp_time_now)
qed

lemma wp_promote_job_refused:
  assumes w: "good w" and acc: "\<not> accepting (w_queue w)"
    and Q: "\<And>w'. good w' \<Longrightarrow> vw w' = vw w \<Longrightarrow> Q () w'"
  shows "wp (promote_job D k) Q w"
  unfolding promote_job_def wp_simps
proof (rule wp_time_now [OF w], rule wp_enqueue_refused, assumption, goal_cases)
  case (1 t0 w1)
  then show ?case using acc by (metis view_sel(2))
next
  case (2 t0 w1 w2 e)
  then show ?case using Q by (simp add: wp_simps)
qed

text \<open>
  After a promotion pass, with \<open>v\<close> the view before and \<open>js\<close> the due jobs the store listed: each of
  them is queued and has one new message, and nothing else has changed.
\<close>

definition promoted :: "(AbsStore, 'q) World \<Rightarrow> Job list \<Rightarrow> (AbsStore, 'q) World \<Rightarrow> bool" where
  "promoted v js v' \<longleftrightarrow>
     (\<exists>ms. list_all2 msg_for js ms \<and> waiting (w_queue v') = waiting (w_queue v) + mset ms) \<and>
     (\<forall>k\<in>set js. \<exists>j j'. v_jobs v (job_ID k) = Some j \<and> v_jobs v' (job_ID k) = Some j' \<and> queued_from j j') \<and>
     (\<exists>jm. v' = v\<lparr>w_queue := w_queue v', w_store := (w_store v)\<lparr>a_jobs := jm\<rparr>\<rparr> \<and>
           (\<forall>jid. jid \<notin> job_ID ` set js \<longrightarrow> jm jid = v_jobs v jid))"

lemma promoted_Nil: "promoted v [] v"
  unfolding promoted_def by (auto intro!: exI [of _ "v_jobs v"])

lemma promoted_snoc:
  assumes p: "promoted v js u" and k: "job_ID k \<notin> job_ID ` set js"
    and j: "v_jobs v (job_ID k) = Some j" and j': "queued_from j j'"
    and m: "msg_for k m" and q: "waiting q' = add_mset m (waiting (w_queue u))"
  shows "promoted v (js @ [k]) (put_job (job_ID k) j' (u\<lparr>w_queue := q'\<rparr>))"
proof -
  let ?u = "put_job (job_ID k) j' (u\<lparr>w_queue := q'\<rparr>)"
  from p obtain ms jm where ms: "list_all2 msg_for js ms" "waiting (w_queue u) = waiting (w_queue v) + mset ms"
    and jm: "u = v\<lparr>w_queue := w_queue u, w_store := (w_store v)\<lparr>a_jobs := jm\<rparr>\<rparr>"
      "\<forall>jid. jid \<notin> job_ID ` set js \<longrightarrow> jm jid = v_jobs v jid"
    and js: "\<forall>k\<in>set js. \<exists>j j'. v_jobs v (job_ID k) = Some j \<and> v_jobs u (job_ID k) = Some j' \<and> queued_from j j'"
    unfolding promoted_def by blast
  have ju: "v_jobs u = jm" using arg_cong [OF jm(1), of v_jobs] by simp
  have "list_all2 msg_for (js @ [k]) (ms @ [m])" "waiting (w_queue ?u) = waiting (w_queue v) + mset (ms @ [m])"
    using ms m q by (simp_all add: list_all2_appendI)
  moreover have "\<exists>i i'. v_jobs v (job_ID h) = Some i \<and> v_jobs ?u (job_ID h) = Some i' \<and> queued_from i i'"
    if "h \<in> set (js @ [k])" for h
  proof (cases "h = k")
    case True
    with j j' show ?thesis by simp
  next
    case False
    with that have "h \<in> set js" by simp
    moreover from this k have "job_ID h \<noteq> job_ID k" by (metis imageI)
    ultimately show ?thesis using js by simp
  qed
  moreover have "?u = v\<lparr>w_queue := w_queue ?u, w_store := (w_store v)\<lparr>a_jobs := jm(job_ID k \<mapsto> j')\<rparr>\<rparr>"
    by (subst jm(1)) (simp add: put_job_def)
  moreover have "\<forall>jid. jid \<notin> job_ID ` set (js @ [k]) \<longrightarrow> (jm(job_ID k \<mapsto> j')) jid = v_jobs v jid"
    using jm(2) by simp
  ultimately show ?thesis unfolding promoted_def by blast
qed

lemma wp_promoteDueJobs:
  assumes w: "good w" and acc: "accepting (w_queue w)"
    and Q: "\<And>w' js n. good w' \<Longrightarrow> accepting (w_queue w') \<Longrightarrow>
      listing (v_jobs (vw w)) (is_due (x_now (w_ext w n) 0)) (sch_AssignBatchSize (sv_cfg D)) js \<Longrightarrow>
      promoted (vw w) js (vw w') \<Longrightarrow> Q None w'"
  shows "wp (promoteDueJobs D) Q w"
proof -
  let ?x = "w_ext w (w_tick w)" and ?w = "w\<lparr>w_tick := Suc (w_tick w)\<rparr>"
  have g: "good ?w" "vw ?w = vw w" "accepting (w_queue ?w)" using w acc by (simp_all add: view_fields)
  obtain js where js: "js_ListDueScheduled (sv_store D) ?x (sch_AssignBatchSize (sv_cfg D)) (w_store w) = Inr js"
    "listing (v_jobs (vw w)) (is_due (x_now ?x 0)) (sch_AssignBatchSize (sv_cfg D)) js"
    using st.due_total [OF good_call [OF w], of "sch_AssignBatchSize (sv_cfg D)"] by auto
  have "wp (for_each (promote_job D) js) (\<lambda>_. Q None) ?w"
  proof (rule wp_for_each [where I = "\<lambda>xs u. good u \<and> accepting (w_queue u) \<and> promoted (vw w) xs (vw u)"], goal_cases)
    case 1
    then show ?case using g promoted_Nil by simp
  next
    case (2 xs k ys u)
    then have p: "promoted (vw w) xs (vw u)" by simp
    have fresh: "job_ID k \<notin> job_ID ` set xs"
      using listing_distinct [OF js(2)] 2(1) by simp
    obtain j md where j: "v_jobs (vw w) (job_ID k) = Some j" "is_due (x_now ?x 0) j"
      using listing_mem [OF js(2), of k] 2(1) by auto
    have "v_jobs (vw u) (job_ID k) = Some j"
    proof -
      from p obtain jm where "vw u = (vw w)\<lparr>w_queue := w_queue (vw u), w_store := (w_store (vw w))\<lparr>a_jobs := jm\<rparr>\<rparr>"
        "\<forall>jid. jid \<notin> job_ID ` set xs \<longrightarrow> jm jid = v_jobs (vw w) jid"
        unfolding promoted_def by blast
      then show ?thesis using fresh j(1) by (metis AbsStore.select_convs(1) AbsStore.surjective
            AbsStore.update_convs(1) World.select_convs(1) World.surjective World.update_convs(1))
    qed
    then show ?case
      using 2(2) j
      by (intro wp_promote_job) (auto simp: is_due_def intro: promoted_snoc [OF p fresh j(1)] dest: arg_cong [of _ _ w_queue])
  next
    case (3 u)
    then show ?case using Q js(2) by blast
  qed
  then show ?thesis using js(1) by (simp add: promoteDueJobs_def store_get_def wp_simps)
qed

text \<open>Assignment of a queued job.\<close>

lemma wp_start_job:
  assumes w: "good w" and j: "v_jobs (vw w) jid = Some j"
    and Q: "\<And>w'. good w' \<Longrightarrow> started jid wid (vw w) (vw w') \<Longrightarrow> Q None w'"
  shows "wp (start_job D jid wid xid attempt now) Q w"
  unfolding start_job_def wp_simps
proof (rule wp_updateJobState [OF w j], goal_cases)
  case (1 w1 t)
  have "wp (emit D EventJobStarted jid xid wid attempt None)
          (\<lambda>_ u. Q None (upd_worker wid take_slot u)) w1"
  proof (rule wp_emit [OF 1(1)], rule Q, goal_cases)
    case (2 u)
    then show ?case using 1(2) j by (auto simp: started_def view_upd_worker)
  qed simp
  then show ?case by (simp add: wp_simps)
qed

lemma wp_push_job:
  assumes w: "good w" and j: "v_jobs (vw w) (qj_JobID m) = Some j"
    and v: "v' = (vw w)\<lparr>w_sent := w_sent w @ [RpcExecute wid
              (execute_request (m\<lparr>qj_Attempt := attempt, qj_ExecutionID := xid\<rparr>) xid)]\<rparr>"
    and fail: "\<And>w' e n. good w' \<Longrightarrow> vw w' = v' \<Longrightarrow> execute_result (x_exec (w_ext w n)) = Some e \<Longrightarrow> Q (Some e) w'"
    and ok: "\<And>w' n. good w' \<Longrightarrow> started (qj_JobID m) wid v' (vw w') \<Longrightarrow>
       execute_result (x_exec (w_ext w n)) = None \<Longrightarrow> Q None w'"
  shows "wp (push_job D m wid xid attempt now) Q w"
  unfolding push_job_def wp_simps
proof (rule wp_client_ExecuteJob [OF w], goal_cases)
  case (1 w1 n)
  show ?case
  proof (cases "execute_result (x_exec (w_ext w n))")
    case (Some e)
    with 1 fail v show ?thesis by (auto simp: wp_simps)
  next
    case None
    have j1: "v_jobs (vw w1) (qj_JobID m) = Some j" using 1(2) j by simp
    have "wp (start_job D (qj_JobID m) wid xid attempt now) Q w1"
      by (rule wp_start_job [OF 1(1) j1]) (use ok None 1(2) v in auto)
    with None show ?thesis by simp
  qed
qed

lemma wp_assign_job:
  assumes w: "good w" and j: "v_jobs (vw w) (qj_JobID m) = Some j"
    and fail: "\<And>w' e n i. good w' \<Longrightarrow> pushed m j wid (x_uuid (w_ext w i) 0) (vw w) (vw w') \<Longrightarrow>
       execute_result (x_exec (w_ext w n)) = Some e \<Longrightarrow> Q (Some e) w'"
    and ok: "\<And>w' u n i. good w' \<Longrightarrow> pushed m j wid (x_uuid (w_ext w i) 0) (vw w) u \<Longrightarrow>
       started (qj_JobID m) wid u (vw w') \<Longrightarrow> execute_result (x_exec (w_ext w n)) = None \<Longrightarrow> Q None w'"
  shows "wp (assign_job D m wid) Q w"
  unfolding assign_job_def wp_simps
proof (rule wp_new_uuid [OF w], rule wp_createExecution, assumption, goal_cases)
  case (1 xid i w1)
  then show ?case using good_ext [OF w] by (simp add: new_execution_def ext_ok_def)
next
  case (2 xid i w1 w2 t')
  have a: "ex_Attempt (new_execution xid m wid) = wrap64 (qj_Attempt m + 1)" by (simp add: new_execution_def)
  have v2: "vw w2 = put_exec xid ((new_execution xid m wid)\<lparr>ex_CreatedAt := t'\<rparr>) (vw w)"
    using 2(2,5) by (simp add: new_execution_def)
  have xid: "xid = x_uuid (w_ext w i) 0" by (rule 2(3))
  have "wp (updateJobState D (qj_JobID m) JobStateAssigned
          [(''worker_id'', AnyString wid), (''execution_id'', AnyString xid), (''attempt'', AnyInt (wrap64 (qj_Attempt m + 1)))])
        (\<lambda>e. wp (case e of Some e \<Rightarrow> ret (Some e)
           | None \<Rightarrow> do { _ \<leftarrow> emit D EventJobAssigned (qj_JobID m) xid wid (wrap64 (qj_Attempt m + 1)) None;
                         push_job D m wid xid (wrap64 (qj_Attempt m + 1)) now }) Q) w3"
    if g3: "good w3" and v3: "vw w3 = vw w2" for now w3
  proof (rule wp_updateJobState [OF g3, where j = j], goal_cases)
    case 1
    then show ?case using v3 v2 j by simp
  next
    case (2 w4 t)
    let ?v = "put_job (qj_JobID m) (assigned_job t wid xid m j)
                (put_exec xid ((new_execution xid m wid)\<lparr>ex_CreatedAt := t'\<rparr>) (vw w))"
    have v4: "vw w4 = ?v" using 2(2) v2 v3 by (simp add: assigned_job_def)
    have "wp (emit D EventJobAssigned (qj_JobID m) xid wid (wrap64 (qj_Attempt m + 1)) None)
            (\<lambda>_. wp (push_job D m wid xid (wrap64 (qj_Attempt m + 1)) now) Q) w4"
    proof (rule wp_emit [OF 2(1)])
      fix w5
      assume g5: "good w5" and v5: "vw w5 = vw w4"
      have s5: "w_sent w5 = w_sent w" "w_ext w5 = w_ext w"
        using arg_cong [OF v5 [unfolded v4], of w_sent] arg_cong [OF v5 [unfolded v4], of w_ext] by simp_all
      let ?v' = "(vw w5)\<lparr>w_sent := w_sent w5 @ [RpcExecute wid
              (execute_request (m\<lparr>qj_Attempt := wrap64 (qj_Attempt m + 1), qj_ExecutionID := xid\<rparr>) xid)]\<rparr>"
      have p: "pushed m j wid xid (vw w) ?v'"
        unfolding pushed_def v5 v4 s5 by (auto simp: view_sel)
      have "v_jobs (vw w5) (qj_JobID m) = Some (assigned_job t wid xid m j)" by (simp add: v5 v4)
      then show "wp (push_job D m wid xid (wrap64 (qj_Attempt m + 1)) now) Q w5"
      proof (rule wp_push_job [OF g5 _ refl], goal_cases)
        case (1 w' e n)
        then show ?case using fail [of w' i n e] p by (simp add: s5 xid)
      next
        case (2 w' n)
        then show ?case using ok [of w' i ?v' n] p by (simp add: s5 xid)
      qed
    qed
    then show ?case by (simp add: wp_simps)
  qed
  then show ?case using 2(4) a by (auto simp: wp_simps intro!: wp_time_now)
qed

lemma wp_handleQueuedJob:
  assumes w: "good w" and c: "conns_ok w"
    and miss: "\<And>w'. good w' \<Longrightarrow> vw w' = vw w \<Longrightarrow> v_jobs (vw w) (qj_JobID m) = None \<Longrightarrow> Q (Some ErrNotFound) w'"
    and skip: "\<And>w' j. good w' \<Longrightarrow> vw w' = vw w \<Longrightarrow> v_jobs (vw w) (qj_JobID m) = Some j \<Longrightarrow>
       \<not> queueable (job_State j) \<Longrightarrow> Q None w'"
    and none: "\<And>w' j. good w' \<Longrightarrow> vw w' = vw w \<Longrightarrow> v_jobs (vw w) (qj_JobID m) = Some j \<Longrightarrow>
       queueable (job_State j) \<Longrightarrow> no_worker (w_workers w) \<Longrightarrow> Q (Some ErrNoWorker) w'"
    and fail: "\<And>w' j wid xid e n i. good w' \<Longrightarrow> v_jobs (vw w) (qj_JobID m) = Some j \<Longrightarrow>
       queueable (job_State j) \<Longrightarrow> best_worker (w_workers w) wid \<Longrightarrow> xid = x_uuid (w_ext w i) 0 \<Longrightarrow>
       pushed m j wid xid (vw w) (vw w') \<Longrightarrow> execute_result (x_exec (w_ext w n)) = Some e \<Longrightarrow> Q (Some e) w'"
    and ok: "\<And>w' j wid xid u n i. good w' \<Longrightarrow> v_jobs (vw w) (qj_JobID m) = Some j \<Longrightarrow>
       queueable (job_State j) \<Longrightarrow> best_worker (w_workers w) wid \<Longrightarrow> xid = x_uuid (w_ext w i) 0 \<Longrightarrow>
       pushed m j wid xid (vw w) u \<Longrightarrow> started (qj_JobID m) wid u (vw w') \<Longrightarrow>
       execute_result (x_exec (w_ext w n)) = None \<Longrightarrow> Q None w'"
  shows "wp (handleQueuedJob D m) Q w"
  unfolding handleQueuedJob_def wp_simps
proof (rule wp_getJob [OF w], goal_cases)
  case (1 w1)
  then show ?case using miss by (simp add: wp_simps)
next
  case (2 w1 j md)
  show ?case
  proof (cases "queueable (job_State j)")
    case False
    with 2 skip show ?thesis by (simp add: wp_simps)
  next
    case True
    have e1: "w_workers w1 = w_workers w" "w_ext w1 = w_ext w"
      using arg_cong [OF 2(2), of w_workers] arg_cong [OF 2(2), of w_ext] by simp_all
    then have c1: "conns_ok w1" using c by (simp add: conns_ok_def)
    have "wp pickWorker (\<lambda>wc. wp (case wc of None \<Rightarrow> ret (Some ErrNoWorker)
             | Some c \<Rightarrow> assign_job D m (wk_ID (wc_info c))) Q) w1"
    proof (rule wp_pickWorker [OF 2(1) c1], goal_cases)
      case (1 w2)
      then show ?case using none [OF 1(1) _ 2(3) True] 2(2) e1 by (simp add: wp_simps)
    next
      case (2 w2 b)
      let ?wid = "wk_ID (wc_info b)"
      have v: "vw w2 = vw w" using 2(2) \<open>vw w1 = vw w\<close> by simp
      have e2: "w_ext w2 = w_ext w" using arg_cong [OF v, of w_ext] by simp
      have b: "best_worker (w_workers w) ?wid" using 2(3) e1 by simp
      have j2: "v_jobs (vw w2) (qj_JobID m) = Some j" using v \<open>v_jobs (vw w) (qj_JobID m) = Some j\<close> by simp
      have "wp (assign_job D m ?wid) Q w2"
        by (rule wp_assign_job [OF 2(1) j2])
          (use fail [OF _ \<open>v_jobs (vw w) (qj_JobID m) = Some j\<close> True b refl]
            ok [OF _ \<open>v_jobs (vw w) (qj_JobID m) = Some j\<close> True b refl] in \<open>auto simp: v e2\<close>)
      then show ?case by simp
    qed
    with True show ?thesis by (simp add: wp_simps)
  qed
qed

end

end
