(* ===== verification/ApiWp.thy ===== *)
theory ApiWp
  imports Api SchedulerQueue
begin

text \<open>
  The handlers of the API for every store, publisher and queue that meet the contracts: what a
  creation does with a new and with a used idempotency key, and what a cancellation does.
\<close>

section \<open>Validation\<close>

text \<open>
  The outcome of the checks does not depend on when they are made, and a request that passes them
  is never refused by the choice of its first run.
\<close>

lemma NextRunAt_any_time: "NextRunAt C s t = Inr a \<Longrightarrow> \<exists>b. NextRunAt C s t' = Inr b"
  by (auto simp: NextRunAt_def Let_def split: ScheduleType.splits option.splits if_splits sum.splits)

lemma NextRunAt_same_error: "NextRunAt C s t = Inl e \<Longrightarrow> NextRunAt C s t' = Inl e"
  by (auto simp: NextRunAt_def Let_def split: ScheduleType.splits option.splits if_splits sum.splits)

lemma ValidateSchedule_any_time: "ValidateSchedule C t s = ValidateSchedule C t' s"
proof (cases "NextRunAt C s t")
  case (Inl e)
  with NextRunAt_same_error [OF this, of t'] show ?thesis
    by (simp add: ValidateSchedule_def split: ScheduleType.splits)
next
  case (Inr a)
  with NextRunAt_any_time [OF this, of t'] show ?thesis
    by (auto simp: ValidateSchedule_def split: ScheduleType.splits)
qed

lemma check_request_any_time: "check_request C t req = check_request C t' req"
  using ValidateSchedule_any_time [of C t _ t'] by (simp add: check_request_def Let_def)

lemma check_request_valid:
  assumes "check_request C t req = Inr r"
  shows "ValidateSchedule C t (cr_Schedule r) = None" "sc_Type (cr_Schedule r) \<noteq> ScheduleOther ''''"
    and "cr_Name r \<noteq> ''''" "cr_Type r = JobTypeBuiltin \<or> cr_Type r = JobTypeWebhook"
    and "1 \<le> cr_Priority r" "cr_Priority r \<le> 10"
    and "cr_Name r = cr_Name req" "cr_Payload r = cr_Payload req"
    and "cr_RetryPolicy r = cr_RetryPolicy req" "cr_TimeoutSeconds r = cr_TimeoutSeconds req"
    and "cr_IdempotencyKey r = cr_IdempotencyKey req" "cr_Metadata r = cr_Metadata req"
  using assms by (auto simp: check_request_def Let_def split: if_splits option.splits)

lemma first_run_total:
  assumes "ValidateSchedule C t s = None" "sc_Type s \<noteq> ScheduleOther ''''"
  shows "\<exists>t1. first_run C s now = Inr t1"
proof (cases "sc_Type s = ScheduleRecurring")
  case True
  with assms obtain a where "NextRunAt C s t = Inr a"
    by (auto simp: ValidateSchedule_def split: if_splits sum.splits)
  from NextRunAt_any_time [OF this, of "now + - 1"] NextRunAt_any_time [OF this, of now] True show ?thesis
    by (auto simp: first_run_def)
next
  case False
  with assms show ?thesis
    by (auto simp: first_run_def ValidateSchedule_def split: ScheduleType.splits option.splits if_splits)
qed


section \<open>Abstract effects\<close>

text \<open>A new job, and its idempotency key if it has one.\<close>

definition put_new :: "string \<Rightarrow> Job \<Rightarrow> (AbsStore, 'q) World \<Rightarrow> (AbsStore, 'q) World" where
  "put_new i j v =
     v\<lparr>w_store := (w_store v)\<lparr>a_jobs := (v_jobs v)(i \<mapsto> j),
         a_keys := (if job_IdempotencyKey j = '''' then a_keys (w_store v)
                    else (a_keys (w_store v))(job_IdempotencyKey j \<mapsto> i))\<rparr>\<rparr>"

definition key_used :: "(AbsStore, 'q) World \<Rightarrow> string \<Rightarrow> bool" where
  "key_used v key \<longleftrightarrow> key \<noteq> '''' \<and> a_keys (w_store v) key \<noteq> None"

lemma put_new_sel [simp]:
  "v_jobs (put_new i j v) = (v_jobs v)(i \<mapsto> j)" "v_execs (put_new i j v) = v_execs v"
  "a_workers (w_store (put_new i j v)) = a_workers (w_store v)"
  "a_keys (w_store (put_new i j v)) =
     (if job_IdempotencyKey j = '''' then a_keys (w_store v)
      else (a_keys (w_store v))(job_IdempotencyKey j \<mapsto> i))"
  "w_queue (put_new i j v) = w_queue v" "w_workers (put_new i j v) = w_workers v"
  "w_pendingCancels (put_new i j v) = w_pendingCancels v" "w_sent (put_new i j v) = w_sent v"
  "w_ext (put_new i j v) = w_ext v"
  by (simp_all add: put_new_def)

context scheduler_ctx
begin

definition enqueued :: "Job \<Rightarrow> string \<Rightarrow> Job \<Rightarrow> time \<Rightarrow> (AbsStore, 'q) World \<Rightarrow> (AbsStore, 'q) World \<Rightarrow> bool" where
  "enqueued job jid j now v v' \<longleftrightarrow>
     (\<exists>t t' q'. accepting q' \<and> waiting q' = add_mset (queued_job t' job) (waiting (w_queue v)) \<and>
        v' = put_job jid (set_state t JobStateQueued [(''queued_at'', AnyTime now)] j) (v\<lparr>w_queue := q'\<rparr>))"

lemma wp_create_new:
  assumes w: "good w" and key: "\<not> key_used (vw w) (job_IdempotencyKey job)" and jid: "job_ID job \<noteq> ''''"
    and Q: "\<And>w' t md. good w' \<Longrightarrow> same_metadata (job_Metadata job) md \<Longrightarrow>
      vw w' = put_new (job_ID job) (stored job (job_ID job) t md) (vw w) \<Longrightarrow>
      Q (Inr (stored job (job_ID job) t (job_Metadata job))) w'"
  shows "wp (store_upd (\<lambda>x. js_CreateJob (sv_store D) x job)) Q w"
proof -
  let ?x = "w_ext w (w_tick w)"
  obtain r s' where s: "js_CreateJob (sv_store D) ?x job (w_store w) = (r, s')" by (metis surj_pair)
  let ?w = "w\<lparr>w_tick := Suc (w_tick w), w_store := s'\<rparr>" and ?i = "job_ID job"
  have i: "new_id ?x job = ?i" using jid by (simp add: new_id_def)
  have g: "good ?w" using st.create_sound [OF good_call [OF w] s] w by (simp add: sound_world_def exts_ok_def)
  from st.create_total [OF good_call [OF w] s] key obtain md where
    "r = Inr (stored job ?i (x_now ?x 0) (job_Metadata job))" "same_metadata (job_Metadata job) md"
    "av s' = (av (w_store w))\<lparr>a_jobs := (a_jobs (av (w_store w)))(?i \<mapsto> stored job ?i (x_now ?x 0) md),
       a_keys := (if job_IdempotencyKey job = '''' then a_keys (av (w_store w))
                  else (a_keys (av (w_store w)))(job_IdempotencyKey job \<mapsto> ?i))\<rparr>"
    by (auto simp: Let_def key_used_def i)
  moreover from this(3) have "vw ?w = put_new ?i (stored job ?i (x_now ?x 0) md) (vw w)"
    by (simp add: view_def put_new_def)
  ultimately have "Q r ?w" using Q [OF g] by simp
  then show ?thesis using s by (simp add: store_upd_def wp_simps)
qed

lemma wp_create_replay:
  assumes w: "good w" and key: "key_used (vw w) (job_IdempotencyKey job)"
    and Q: "\<And>w' jid j md. good w' \<Longrightarrow> vw w' = vw w \<Longrightarrow>
      a_keys (w_store (vw w)) (job_IdempotencyKey job) = Some jid \<Longrightarrow> v_jobs (vw w) jid = Some j \<Longrightarrow>
      same_metadata (job_Metadata j) md \<Longrightarrow> Q (Inr (j\<lparr>job_Metadata := md\<rparr>)) w'"
  shows "wp (store_upd (\<lambda>x. js_CreateJob (sv_store D) x job)) Q w"
proof -
  let ?x = "w_ext w (w_tick w)"
  obtain r s' where s: "js_CreateJob (sv_store D) ?x job (w_store w) = (r, s')" by (metis surj_pair)
  let ?w = "w\<lparr>w_tick := Suc (w_tick w), w_store := s'\<rparr>"
  have g: "good ?w" using st.create_sound [OF good_call [OF w] s] w by (simp add: sound_world_def exts_ok_def)
  from st.create_total [OF good_call [OF w] s] key have "av s' = av (w_store w)"
    and r: "\<exists>jid j md. a_keys (w_store (vw w)) (job_IdempotencyKey job) = Some jid \<and> v_jobs (vw w) jid = Some j \<and>
       r = Inr (j\<lparr>job_Metadata := md\<rparr>) \<and> same_metadata (job_Metadata j) md"
    by (auto simp: key_used_def)
  then have "vw ?w = vw w" by (simp add: view_def)
  with r Q [OF g] have "Q r ?w" by blast
  then show ?thesis using s by (simp add: store_upd_def wp_simps)
qed

lemma wp_enqueueJob:
  assumes w: "good w" and acc: "accepting (w_queue w)" and j: "v_jobs (vw w) (job_ID job) = Some j"
    and Q: "\<And>w' now. good w' \<Longrightarrow> enqueued job (job_ID job) j now (vw w) (vw w') \<Longrightarrow>
      Q (Inr (job\<lparr>job_State := JobStateQueued, job_QueuedAt := Some now\<rparr>)) w'"
  shows "wp (enqueueJob D job) Q w"
  unfolding enqueueJob_def wp_simps
proof (rule wp_time_now [OF w], goal_cases)
  case (1 now w1)
  then have a1: "accepting (w_queue w1)" using acc by (metis view_sel(2))
  show ?case
  proof (rule wp_enqueue [OF 1(1) a1], goal_cases)
    case (1 w2 q' t)
    note w2 = this
    show ?case
      unfolding option.case wp_simps
    proof (rule wp_emit [OF w2(1)], goal_cases)
      case (1 w3)
      then have j3: "v_jobs (vw w3) (job_ID job) = Some j"
        using w2(4) \<open>vw w1 = vw w\<close> j by simp
      have "w_queue w1 = w_queue w" using \<open>vw w1 = vw w\<close> by (metis view_sel(2))
      then have q: "waiting q' = add_mset (queued_job t job) (waiting (w_queue (vw w)))" using w2(3) by simp
      show ?case
      proof (rule wp_updateJobState [OF 1(1) j3], goal_cases)
        case (1 w4 t')
        then have "enqueued job (job_ID job) j now (vw w) (vw w4)"
          unfolding enqueued_def using q w2(2,4) \<open>vw w3 = vw w2\<close> \<open>vw w1 = vw w\<close> by auto
        with Q 1(1) show ?case by (simp add: wp_simps)
      qed
    qed
  qed
qed

lemma wp_enqueueJob_refused:
  assumes w: "good w" and acc: "\<not> accepting (w_queue w)"
    and Q: "\<And>w' e. good w' \<Longrightarrow> vw w' = vw w \<Longrightarrow> Q (Inl e) w'"
  shows "wp (enqueueJob D job) Q w"
  unfolding enqueueJob_def wp_simps
proof (rule wp_time_now [OF w], goal_cases)
  case (1 now w1)
  then have a1: "\<not> accepting (w_queue w1)" using acc by (metis view_sel(2))
  show ?case
    by (rule wp_enqueue_refused [OF 1(1) a1]) (use Q \<open>vw w1 = vw w\<close> in \<open>simp add: wp_simps\<close>)
qed

lemma wp_submit_new:
  assumes w: "good w" and key: "\<not> key_used (vw w) (job_IdempotencyKey job)" and jid: "job_ID job \<noteq> ''''"
    and at: "job_ScheduledAt job = Some a"
    and later: "\<And>w' t md. good w' \<Longrightarrow> now < a \<Longrightarrow> same_metadata (job_Metadata job) md \<Longrightarrow>
      vw w' = put_new (job_ID job) (stored job (job_ID job) t md) (vw w) \<Longrightarrow>
      Q (201, BodyJob (stored job (job_ID job) t (job_Metadata job))) w'"
    and due: "\<And>w' t md now'. good w' \<Longrightarrow> a \<le> now \<Longrightarrow> accepting (w_queue w) \<Longrightarrow> same_metadata (job_Metadata job) md \<Longrightarrow>
      enqueued job (job_ID job) (stored job (job_ID job) t md) now'
        (put_new (job_ID job) (stored job (job_ID job) t md) (vw w)) (vw w') \<Longrightarrow>
      Q (201, BodyJob ((stored job (job_ID job) t (job_Metadata job))\<lparr>job_State := JobStateQueued, job_QueuedAt := Some now'\<rparr>)) w'"
    and closed: "\<And>w' t md msg. good w' \<Longrightarrow> a \<le> now \<Longrightarrow> \<not> accepting (w_queue w) \<Longrightarrow> same_metadata (job_Metadata job) md \<Longrightarrow>
      vw w' = put_new (job_ID job) (stored job (job_ID job) t md) (vw w) \<Longrightarrow> Q (writeErr 500 msg) w'"
  shows "wp (submit_job D now job) Q w"
  unfolding submit_job_def wp_simps
proof (rule wp_create_new [OF w key jid], goal_cases)
  case (1 w1 t md)
  note w1 = this
  let ?i = "job_ID job"
  let ?r = "stored job ?i t (job_Metadata job)" and ?s = "stored job ?i t md"
  have r: "job_ID ?r = ?i" "job_ScheduledAt ?r = Some a" using at by simp_all
  show ?case
    unfolding sum.case wp_simps
  proof (rule wp_emit [OF w1(1)], rule wp_emit, assumption, goal_cases)
    case (1 w2 w3)
    then have w3: "good w3" "vw w3 = put_new ?i ?s (vw w)" using w1(3) by simp_all
    have j3: "v_jobs (vw w3) (job_ID ?r) = Some ?s" using w3(2) by simp
    have q3: "w_queue w3 = w_queue w" using w3(2) by (metis put_new_sel(5) view_sel(2))
    show ?case
    proof (cases "now < a")
      case True
      with later [OF w3(1) True w1(2) w3(2)] r show ?thesis by (simp add: due_now_def wp_simps)
    next
      case False
      then have d: "due_now now ?r" "a \<le> now" using r by (simp_all add: due_now_def)
      show ?thesis
        unfolding if_P [OF d(1)] wp_simps
      proof (cases "accepting (w_queue w)")
        case True
        show "wp (enqueueJob D ?r) (\<lambda>x. wp (case x of
            Inl e \<Rightarrow> ret (writeErr 500 (''enqueue failed: '' @ Error_text e)) | Inr job \<Rightarrow> ret (201, BodyJob job)) Q) w3"
        proof (rule wp_enqueueJob [OF w3(1) _ j3], use True q3 in simp, goal_cases)
          case (1 w4 now')
          then have "enqueued job ?i ?s now' (put_new ?i ?s (vw w)) (vw w4)"
            using w3(2) by (simp add: enqueued_def queued_job_def stored_def)
          from due [OF 1(1) d(2) True w1(2) this] show ?case by (simp add: wp_simps)
        qed
      next
        case False
        show "wp (enqueueJob D ?r) (\<lambda>x. wp (case x of
            Inl e \<Rightarrow> ret (writeErr 500 (''enqueue failed: '' @ Error_text e)) | Inr job \<Rightarrow> ret (201, BodyJob job)) Q) w3"
          by (rule wp_enqueueJob_refused [OF w3(1)])
            (use False q3 closed [OF _ d(2) False w1(2)] w3(2) in \<open>simp_all add: wp_simps\<close>)
      qed
    qed
  qed
qed

lemma wp_submit_replay:
  assumes w: "good w" and key: "key_used (vw w) (job_IdempotencyKey job)"
    and later: "\<And>w' jid j md. good w' \<Longrightarrow> a_keys (w_store (vw w)) (job_IdempotencyKey job) = Some jid \<Longrightarrow>
      v_jobs (vw w) jid = Some j \<Longrightarrow> \<not> due_now now j \<Longrightarrow> vw w' = vw w \<Longrightarrow> Q (201, BodyJob (j\<lparr>job_Metadata := md\<rparr>)) w'"
    and due: "\<And>w' jid j md now'. good w' \<Longrightarrow> a_keys (w_store (vw w)) (job_IdempotencyKey job) = Some jid \<Longrightarrow>
      v_jobs (vw w) jid = Some j \<Longrightarrow> due_now now j \<Longrightarrow> accepting (w_queue w) \<Longrightarrow> enqueued j jid j now' (vw w) (vw w') \<Longrightarrow>
      Q (201, BodyJob (j\<lparr>job_Metadata := md, job_State := JobStateQueued, job_QueuedAt := Some now'\<rparr>)) w'"
    and closed: "\<And>w' msg. good w' \<Longrightarrow> \<not> accepting (w_queue w) \<Longrightarrow> vw w' = vw w \<Longrightarrow> Q (writeErr 500 msg) w'"
  shows "wp (submit_job D now job) Q w"
  unfolding submit_job_def wp_simps
proof (rule wp_create_replay [OF w key], goal_cases)
  case (1 w1 jid j md)
  note w1 = this
  have "job_ID j = jid" using st.ids [of "w_store w"] w w1(4) by (simp add: sound_world_def)
  show ?case
    unfolding sum.case wp_simps
  proof (rule wp_emit [OF w1(1)], rule wp_emit, assumption, goal_cases)
    case (1 w2 w3)
    then have w3: "good w3" "vw w3 = vw w" using w1(2) by simp_all
    have q3: "w_queue w3 = w_queue w" using w3(2) by (metis view_sel(2))
    let ?r = "j\<lparr>job_Metadata := md\<rparr>"
    have j3: "v_jobs (vw w3) (job_ID ?r) = Some j" using w3(2) w1(4) \<open>job_ID j = jid\<close> by simp
    show ?case
    proof (cases "due_now now j")
      case False
      then have d: "\<not> due_now now ?r" by (simp add: due_now_def)
      show ?thesis
        unfolding if_not_P [OF d] wp_simps by (rule later [OF w3(1) w1(3,4) False w3(2)])
    next
      case True
      then have d: "due_now now ?r" by (simp add: due_now_def)
      show ?thesis
        unfolding if_P [OF d] wp_simps
      proof (cases "accepting (w_queue w)")
        case acc: True
        show "wp (enqueueJob D ?r) (\<lambda>x. wp (case x of
            Inl e \<Rightarrow> ret (writeErr 500 (''enqueue failed: '' @ Error_text e)) | Inr job \<Rightarrow> ret (201, BodyJob job)) Q) w3"
        proof (rule wp_enqueueJob [OF w3(1) _ j3], use acc q3 in simp, goal_cases)
          case (1 w4 now')
          then have "enqueued j jid j now' (vw w) (vw w4)"
            using w3(2) \<open>job_ID j = jid\<close> by (simp add: enqueued_def)
          from due [OF 1(1) w1(3,4) True acc this, of md] show ?case by (simp add: wp_simps)
        qed
      next
        case acc: False
        show "wp (enqueueJob D ?r) (\<lambda>x. wp (case x of
            Inl e \<Rightarrow> ret (writeErr 500 (''enqueue failed: '' @ Error_text e)) | Inr job \<Rightarrow> ret (201, BodyJob job)) Q) w3"
          by (rule wp_enqueueJob_refused [OF w3(1)]) (use acc q3 closed w3(2) in \<open>simp_all add: wp_simps\<close>)
      qed
    qed
  qed
qed

lemma wp_createJob_valid:
  assumes w: "good w" and c: "check_request (sv_cron D) 0 req = Inr r"
    and Q: "\<And>w' now n a. good w' \<Longrightarrow> vw w' = vw w \<Longrightarrow> clock w now \<Longrightarrow>
      first_run (sv_cron D) (cr_Schedule r) now = Inr a \<Longrightarrow>
      wp (submit_job D now ((new_job r (x_uuid (w_ext w n) 0))\<lparr>job_State := JobStateScheduled, job_ScheduledAt := Some a\<rparr>)) Q w'"
  shows "wp (createJob D (Inr req)) Q w"
  unfolding createJob_def sum.case wp_simps
proof (rule wp_time_now [OF w], goal_cases)
  case (1 t w1)
  have c1: "check_request (sv_cron D) t req = Inr r" using c check_request_any_time by metis
  show ?case
    unfolding c1 sum.case wp_simps
  proof (rule wp_clock [OF 1(1)], rule wp_new_uuid, assumption, goal_cases)
    case (1 now w2 u n w3)
    then have v: "vw w3 = vw w" "w_ext w2 = w_ext w" using \<open>vw w1 = vw w\<close> by (simp, metis view_sel(6))
    then have now: "clock w now" using 1(3) by (simp add: clock_def)
    obtain a where a: "first_run (sv_cron D) (cr_Schedule r) now = Inr a"
      using first_run_total [OF check_request_valid(1,2) [OF c]] by blast
    from Q [OF 1(4) v(1) now a, of n] a v(2) 1(6) show ?case
      by (simp add: schedule_job_def new_job_def)
  qed
qed

lemma wp_createJob_invalid:
  assumes w: "good w" and c: "check_request (sv_cron D) 0 req = Inl msg"
    and Q: "\<And>w'. good w' \<Longrightarrow> vw w' = vw w \<Longrightarrow> Q (writeErr 400 msg) w'"
  shows "wp (createJob D (Inr req)) Q w"
  unfolding createJob_def sum.case wp_simps
proof (rule wp_time_now [OF w], goal_cases)
  case (1 t w1)
  have "check_request (sv_cron D) t req = Inl msg" using c check_request_any_time by metis
  with Q [OF 1] show ?case by (simp add: wp_simps)
qed

lemma wp_cancelJob:
  assumes w: "good w"
    and none: "\<And>w'. good w' \<Longrightarrow> v_jobs (vw w) jid = None \<Longrightarrow> vw w' = vw w \<Longrightarrow> Q (writeErr 404 ''job not found'') w'"
    and over: "\<And>w' j. good w' \<Longrightarrow> v_jobs (vw w) jid = Some j \<Longrightarrow> cancel_terminal (job_State j) \<Longrightarrow> vw w' = vw w \<Longrightarrow>
      Q (writeErr 409 ''job already terminal'') w'"
    and running: "\<And>w' j t. good w' \<Longrightarrow> v_jobs (vw w) jid = Some j \<Longrightarrow> job_State j \<in> {JobStateRunning, JobStateAssigned} \<Longrightarrow>
      vw w' = put_job jid (set_state t JobStateCancelRequested [] j) (vw w) \<Longrightarrow>
      Q (202, BodyStrings [(''status'', ''CANCEL_REQUESTED'')]) w'"
    and waiting: "\<And>w' j t now. good w' \<Longrightarrow> v_jobs (vw w) jid = Some j \<Longrightarrow> \<not> cancel_terminal (job_State j) \<Longrightarrow>
      job_State j \<notin> {JobStateRunning, JobStateAssigned} \<Longrightarrow>
      vw w' = put_job jid (set_state t JobStateCancelled [(''completed_at'', AnyTime now)] j) (vw w) \<Longrightarrow>
      Q (200, BodyStrings [(''status'', ''CANCELLED'')]) w'"
  shows "wp (cancelJob D jid) Q w"
  unfolding cancelJob_def wp_simps
proof (rule wp_getJob [OF w], goal_cases)
  case (1 w1)
  with none show ?case by (simp add: wp_simps)
next
  case (2 w1 j md)
  then have j1: "v_jobs (vw w1) jid = Some j" by simp
  consider (o) "cancel_terminal (job_State j)"
    | (r) "\<not> cancel_terminal (job_State j)" "job_State j = JobStateRunning \<or> job_State j = JobStateAssigned"
    | (q) "\<not> cancel_terminal (job_State j)" "\<not> (job_State j = JobStateRunning \<or> job_State j = JobStateAssigned)"
    by blast
  then show ?case
  proof cases
    case o
    with over 2 show ?thesis by (simp add: wp_simps)
  next
    case r
    have "wp (updateJobState D jid JobStateCancelRequested []) (\<lambda>_. wp (emit D EventJobCancelRequested jid
        (job_ExecutionID j) (job_WorkerID j) (job_Attempt j) None)
        (\<lambda>_. Q (202, BodyStrings [(''status'', ''CANCEL_REQUESTED'')]))) w1"
      by (rule wp_updateJobState [OF 2(1) j1], rule wp_emit, assumption)
        (use running [OF _ 2(3)] 2(2) r in auto)
    with r show ?thesis by (simp add: wp_simps)
  next
    case q
    have "wp time_now (\<lambda>now. wp (updateJobState D jid JobStateCancelled [(''completed_at'', AnyTime now)])
        (\<lambda>_. wp (emit D EventJobCancelled jid '''' '''' (job_Attempt j) None)
        (\<lambda>_. Q (200, BodyStrings [(''status'', ''CANCELLED'')])))) w1"
    proof (rule wp_time_now [OF 2(1)], rule wp_updateJobState, assumption, use j1 in simp, rule wp_emit, assumption, goal_cases)
      case (1 now w2 w3 t w4)
      then show ?case using waiting [OF 1(5) 2(3) q(1)] q(2) 2(2) by auto
    qed
    with q show ?thesis by (simp add: wp_simps)
  qed
qed

end

end
