(* ===== verification/SchedulerResult.thy ===== *)
theory SchedulerResult
  imports SchedulerWp
begin

text \<open>
  What \<open>HandleResult\<close> and the watchdog do, as transitions of the abstract view. \<open>settled_state\<close> is the
  decision table of the result handler; \<open>settled\<close> is the abstract transition, and the handler is
  shown to implement it for every store, publisher and queue that meet the contracts.
\<close>

section \<open>Abstract transition\<close>

definition settled_state :: "Job \<Rightarrow> int \<Rightarrow> ExecutionResult \<Rightarrow> JobState" where
  "settled_state job attempt r =
     (if terminal (job_State job) then job_State job
      else if er_Reason r = ReasonCancelled \<or> job_State job = JobStateCancelRequested
      then JobStateCancelled
      else if er_Success r then JobStateCompleted
      else if attempt < job_MaxAttempts job \<and> (er_Reason r = ReasonTimeout \<or> er_Retryable r)
      then JobStateRetrying
      else if er_Reason r = ReasonTimeout then JobStateTimeout
      else JobStateFailed)"

definition settled_exec :: "Job \<Rightarrow> ExecutionResult \<Rightarrow> ExecutionState" where
  "settled_exec job r =
     (if er_Reason r = ReasonCancelled \<or> job_State job = JobStateCancelRequested
      then ExecutionCancelled
      else if er_Success r then ExecutionCompleted
      else if er_Reason r = ReasonTimeout then ExecutionTimeout
      else ExecutionFailed)"

definition settled_error :: "Job \<Rightarrow> int \<Rightarrow> ExecutionResult \<Rightarrow> string" where
  "settled_error job attempt r =
     (case settled_state job attempt r of
        JobStateCompleted \<Rightarrow> job_LastError job
      | JobStateCancelled \<Rightarrow> er_Error r
      | _ \<Rightarrow> if er_Reason r = ReasonTimeout then ''timeout'' else er_Error r)"

definition settled_fields :: "Job \<Rightarrow> int \<Rightarrow> ExecutionResult \<Rightarrow> time \<Rightarrow> duration \<Rightarrow> fields" where
  "settled_fields job attempt r now delay =
     (case settled_state job attempt r of
        JobStateRetrying \<Rightarrow>
          [(''next_retry_at'', AnyTime (now + delay)),
           (''last_error'', AnyString (settled_error job attempt r)),
           (''worker_id'', AnyString ''''), (''execution_id'', AnyString '''')]
      | JobStateCompleted \<Rightarrow> [(''completed_at'', AnyTime now)]
      | _ \<Rightarrow> [(''completed_at'', AnyTime now), (''last_error'', AnyString (settled_error job attempt r))])"

text \<open>The next occurrence of a recurring job, if it has one: a scheduled copy under a new identifier.\<close>

definition respawned ::
    "('s, 'q) Service \<Rightarrow> Job \<Rightarrow> time \<Rightarrow> (AbsStore, 'q) World \<Rightarrow> (AbsStore, 'q) World \<Rightarrow> bool" where
  "respawned D job now v v' \<longleftrightarrow>
     (case (if sc_Type (job_Schedule job) = ScheduleRecurring
            then NextRunAt (sv_cron D) (job_Schedule job) now else Inl ErrNotFound) of
        Inl e \<Rightarrow> v' = v
      | Inr next \<Rightarrow>
          \<exists>n t md. same_metadata (job_Metadata job) md \<and>
             (let i = x_uuid (w_ext v n) 0 in
              v' = put_job i (stored (child_job job next) i t md) v))"

definition settled ::
    "('s, 'q) Service \<Rightarrow> Job \<Rightarrow> string \<Rightarrow> string \<Rightarrow> int \<Rightarrow> ExecutionResult \<Rightarrow>
     (AbsStore, 'q) World \<Rightarrow> (AbsStore, 'q) World \<Rightarrow> bool" where
  "settled D job jid xid attempt r v v' \<longleftrightarrow>
     (\<exists>now t t' rnd. clock v now \<and> drawn v rnd \<and> (let delay = computeBackoff (sv_conv D) rnd (job_RetryPolicy job) attempt;
            job' = set_state t' (settled_state job attempt r) (settled_fields job attempt r now delay) job;
            u = put_job jid job' (end_exec xid (settled_exec job r) r t v)
        in if settled_state job attempt r = JobStateCompleted then respawned D job now u v'
           else v' = u))"


section \<open>The handler implements it\<close>

lemma drawn_exists: "\<exists>rnd. drawn v rnd"
  by (auto simp: drawn_def)

lemma same_metadata_sym: "same_metadata a b \<Longrightarrow> same_metadata b a"
  by (simp add: same_metadata_def)

lemma same_metadata_trans: "same_metadata a b \<Longrightarrow> same_metadata b c \<Longrightarrow> same_metadata a c"
  by (simp add: same_metadata_def)

lemma child_job_metadata: "job_Metadata (child_job job next) = job_Metadata job"
  by (simp add: child_job_def)

lemma child_job_copy [simp]:
  "stored (child_job (job\<lparr>job_Metadata := md\<rparr>) next) i t md' = stored (child_job job next) i t md'"
  by (simp add: child_job_def stored_def)

context scheduler_ctx
begin

lemma wp_maybeRescheduleRecurring:
  assumes w: "good w" and md: "same_metadata (job_Metadata job) md"
    and Q: "\<And>w'. good w' \<Longrightarrow> respawned D job now (vw w) (vw w') \<Longrightarrow> Q () w'"
  shows "wp (maybeRescheduleRecurring D (job\<lparr>job_Metadata := md\<rparr>) now) Q w"
proof (cases "sc_Type (job_Schedule job) = ScheduleRecurring")
  case False
  with w Q [of w] show ?thesis by (simp add: maybeRescheduleRecurring_def respawned_def wp_simps)
next
  case True
  show ?thesis
  proof (cases "NextRunAt (sv_cron D) (job_Schedule job) now")
    case (Inl e)
    with True w Q [of w] show ?thesis
      by (simp add: maybeRescheduleRecurring_def respawned_def wp_simps)
  next
    case (Inr nxt)
    let ?c = "child_job (job\<lparr>job_Metadata := md\<rparr>) nxt"
    have "wp (store_upd (\<lambda>x. js_CreateJob (sv_store D) x ?c))
      (\<lambda>r. wp (case r of Inl e \<Rightarrow> ret ()
                 | Inr child \<Rightarrow> emit D EventJobScheduled (job_ID child) '''' '''' 0
                     (Some (JObj [(''parent_job_id'', JStr (job_ID job)), (''recurring'', JBool True),
                                  (''scheduled_at'', JTime nxt)]))) Q) w"
    proof (rule wp_createJob [OF w])
      fix w' i t md' n
      assume g: "good w'" and i: "i = new_id (w_ext w n) ?c"
        and m: "same_metadata (job_Metadata ?c) md'" and v: "vw w' = put_job i (stored ?c i t md') (vw w)"
      have "i = x_uuid (w_ext w n) 0" using i by (simp add: new_id_def child_job_def)
      moreover have "same_metadata (job_Metadata job) md'"
        using m same_metadata_trans [OF md] by (simp add: child_job_metadata)
      ultimately have R: "respawned D job now (vw w) (vw w')"
        using True Inr v by (auto simp: respawned_def Let_def)
      show "wp (case Inr (stored ?c i t (job_Metadata ?c)) of Inl e \<Rightarrow> ret ()
                 | Inr child \<Rightarrow> emit D EventJobScheduled (job_ID child) '''' '''' 0
                     (Some (JObj [(''parent_job_id'', JStr (job_ID job)), (''recurring'', JBool True),
                                  (''scheduled_at'', JTime nxt)]))) Q w'"
        using R by (auto intro!: wp_emit [OF g] Q)
    qed (simp add: child_job_def)
    with True Inr show ?thesis by (simp add: maybeRescheduleRecurring_def wp_simps)
  qed
qed

lemma wp_result_cancelled:
  assumes w: "good w" and j: "v_jobs (vw w) jid = Some job" and nt: "\<not> terminal (job_State job)"
    and c: "er_Reason r = ReasonCancelled \<or> job_State job = JobStateCancelRequested" and now: "clock w now"
    and Q: "\<And>w'. good w' \<Longrightarrow> settled D job jid xid attempt r (vw w) (vw w') \<Longrightarrow> Q () w'"
  shows "wp (result_cancelled D jid xid wid attempt r now) Q w"
proof -
  have st: "settled_state job attempt r = JobStateCancelled" "settled_exec job r = ExecutionCancelled"
    using nt c by (auto simp: settled_state_def settled_exec_def)
  show ?thesis
    unfolding result_cancelled_def wp_simps
  proof (rule wp_finishExecution [OF w], rule wp_updateJobState, assumption)
    fix w1 t w2 t'
    assume v1: "vw w1 = end_exec xid ExecutionCancelled r t (vw w)"
      and g2: "good w2" and v2: "vw w2 = put_job jid (set_state t' JobStateCancelled
        [(''completed_at'', AnyTime now), (''last_error'', AnyString (er_Error r))] job) (vw w1)"
    then have "settled D job jid xid attempt r (vw w) (vw w2)"
      using now drawn_exists [of "vw w"] by (auto simp: settled_def st settled_fields_def settled_error_def Let_def)
    then show "wp (emit D EventJobCancelled jid xid wid attempt
        (Some (JObj [(''reason'', JStr (ResultReason_string (er_Reason r)))]))) Q w2"
      by (intro wp_emit [OF g2] Q) simp_all
  qed (use j in simp)
qed

lemma settled_completed:
  assumes "settled_state job attempt r = JobStateCompleted" "settled_exec job r = ExecutionCompleted"
    and "v1 = end_exec xid ExecutionCompleted r t v"
    and "v2 = put_job jid (set_state t' JobStateCompleted [(''completed_at'', AnyTime now)] job) v1"
    and "respawned D job now v2 v3" "clock v now"
  shows "settled D job jid xid attempt r v v3"
  using assms drawn_exists [of v] by (auto simp: settled_def settled_fields_def Let_def)

lemma wp_result_success:
  assumes w: "good w" and j: "v_jobs (vw w) jid = Some job" and nt: "\<not> terminal (job_State job)"
    and c: "er_Reason r \<noteq> ReasonCancelled" "job_State job \<noteq> JobStateCancelRequested" "er_Success r"
    and md: "same_metadata (job_Metadata job) md" and now: "clock w now"
    and Q: "\<And>w'. good w' \<Longrightarrow> settled D job jid xid attempt r (vw w) (vw w') \<Longrightarrow> Q () w'"
  shows "wp (result_success D (job\<lparr>job_Metadata := md\<rparr>) jid xid wid attempt r now) Q w"
proof -
  have st: "settled_state job attempt r = JobStateCompleted" "settled_exec job r = ExecutionCompleted"
    using nt c by (auto simp: settled_state_def settled_exec_def)
  show ?thesis
    unfolding result_success_def wp_simps
  proof (rule wp_finishExecution [OF w], rule wp_updateJobState, assumption)
    fix w1 t w2 t'
    assume v1: "vw w1 = end_exec xid ExecutionCompleted r t (vw w)"
      and g2: "good w2" and v2: "vw w2 = put_job jid (set_state t' JobStateCompleted
        [(''completed_at'', AnyTime now)] job) (vw w1)"
    show "wp (emit D EventJobCompleted jid xid wid attempt
             (Some (JObj [(''duration_ms'', JInt (Milliseconds (er_Duration r)))])))
           (\<lambda>_. wp (maybeRescheduleRecurring D (job\<lparr>job_Metadata := md\<rparr>) now) Q) w2"
    proof (rule wp_emit [OF g2], rule wp_maybeRescheduleRecurring [OF _ md], assumption)
      fix w3 w4
      assume "vw w3 = vw w2" "good w4" "respawned D job now (vw w3) (vw w4)"
      with settled_completed [OF st v1 v2] now show "Q () w4" by (intro Q) simp_all
    qed
  qed (use j in simp)
qed

lemma settled_other:
  assumes "settled_state job attempt r \<noteq> JobStateCompleted"
    and "v1 = end_exec xid (settled_exec job r) r t v"
    and "v2 = put_job jid (set_state t' (settled_state job attempt r)
               (settled_fields job attempt r now
                  (computeBackoff (sv_conv D) rnd (job_RetryPolicy job) attempt)) job) v1"
    and "clock v now" "drawn v rnd"
  shows "settled D job jid xid attempt r v v2"
  using assms unfolding settled_def Let_def by metis

lemma wp_retry:
  assumes w: "good w" and j: "v_jobs (vw w) jid = Some job"
    and st: "settled_state job attempt r = JobStateRetrying"
    and v1: "vw w = end_exec xid (settled_exec job r) r t v"
    and err: "err = settled_error job attempt r" and now: "clock v now"
    and Q: "\<And>w'. good w' \<Longrightarrow> settled D job jid xid attempt r v (vw w') \<Longrightarrow> Q () w'"
  shows "wp (backoff D (job_RetryPolicy job) attempt)
     (\<lambda>delay. wp (updateJobState D jid JobStateRetrying
         [(''next_retry_at'', AnyTime (now + delay)), (''last_error'', AnyString err),
          (''worker_id'', AnyString ''''), (''execution_id'', AnyString '''')])
        (\<lambda>_. wp (emit D EventJobRetryScheduled jid xid wid attempt (pl delay)) Q)) w"
proof (rule wp_backoff [OF w], rule wp_updateJobState, assumption)
  fix rnd w2 w3 t'
  assume v2: "vw w2 = vw w" and g3: "good w3" and rnd: "drawn w rnd"
    and v3: "vw w3 = put_job jid (set_state t' JobStateRetrying
      [(''next_retry_at'', AnyTime (now + computeBackoff (sv_conv D) rnd (job_RetryPolicy job) attempt)),
       (''last_error'', AnyString err), (''worker_id'', AnyString ''''), (''execution_id'', AnyString '''')]
      job) (vw w2)"
  have "drawn v rnd" using arg_cong [OF v1, of drawn] rnd by simp
  then have "settled D job jid xid attempt r v (vw w3)"
    by (intro settled_other [OF _ v1, where t' = t' and now = now and rnd = rnd])
      (simp_all add: v2 v3 st settled_fields_def err now)
  then show "wp (emit D EventJobRetryScheduled jid xid wid attempt
      (pl (computeBackoff (sv_conv D) rnd (job_RetryPolicy job) attempt))) Q w3"
    by (intro wp_emit [OF g3] Q) simp_all
qed (use j in simp)

lemma wp_give_up:
  assumes w: "good w" and j: "v_jobs (vw w) jid = Some job"
    and st: "settled_state job attempt r = st" "st = JobStateTimeout \<or> st = JobStateFailed"
    and v1: "vw w = end_exec xid (settled_exec job r) r t v"
    and err: "err = settled_error job attempt r" and now: "clock v now"
    and Q: "\<And>w'. good w' \<Longrightarrow> settled D job jid xid attempt r v (vw w') \<Longrightarrow> Q () w'"
  shows "wp (updateJobState D jid st [(''completed_at'', AnyTime now), (''last_error'', AnyString err)])
           (\<lambda>_. Q ()) w"
proof (rule wp_updateJobState [OF w j])
  fix w2 t'
  assume g2: "good w2" and v2: "vw w2 = put_job jid (set_state t' st
      [(''completed_at'', AnyTime now), (''last_error'', AnyString err)] job) (vw w)"
  obtain rnd where "drawn v rnd" using drawn_exists by blast
  then show "Q () w2"
    using st now by (intro Q [OF g2] settled_other [OF _ v1, where t' = t' and now = now and rnd = rnd])
      (auto simp: v2 settled_fields_def err)
qed

lemma wp_result_timeout:
  assumes w: "good w" and j: "v_jobs (vw w) jid = Some job" and nt: "\<not> terminal (job_State job)"
    and c: "er_Reason r = ReasonTimeout" "job_State job \<noteq> JobStateCancelRequested" "\<not> er_Success r"
    and now: "clock w now"
    and Q: "\<And>w'. good w' \<Longrightarrow> settled D job jid xid attempt r (vw w) (vw w') \<Longrightarrow> Q () w'"
  shows "wp (result_timeout D (job\<lparr>job_Metadata := md\<rparr>) jid xid wid attempt r now) Q w"
proof -
  have x: "settled_exec job r = ExecutionTimeout" using c by (simp add: settled_exec_def)
  have st: "settled_state job attempt r =
      (if attempt < job_MaxAttempts job then JobStateRetrying else JobStateTimeout)"
    using nt c by (simp add: settled_state_def)
  then have err: "''timeout'' = settled_error job attempt r" using c by (simp add: settled_error_def)
  show ?thesis
    unfolding result_timeout_def wp_simps
  proof (rule wp_finishExecution [OF w], rule wp_emit, assumption, goal_cases)
    case (1 w1 t w2)
    then have v2: "vw w2 = end_exec xid (settled_exec job r) r t (vw w)" by (simp add: x)
    then have j2: "v_jobs (vw w2) jid = Some job" using j by simp
    show ?case
      using wp_retry [where Q = Q, OF 1(3) j2 _ v2 err _ Q]
        wp_give_up [where Q = Q and st = JobStateTimeout, OF 1(3) j2 _ _ v2 err _ Q]
      by (cases "attempt < job_MaxAttempts job") (simp_all add: st Let_def wp_simps now)
  qed
qed

lemma wp_result_failed:
  assumes w: "good w" and j: "v_jobs (vw w) jid = Some job" and nt: "\<not> terminal (job_State job)"
    and c: "er_Reason r \<noteq> ReasonTimeout" "er_Reason r \<noteq> ReasonCancelled"
      "job_State job \<noteq> JobStateCancelRequested" "\<not> er_Success r"
    and now: "clock w now"
    and Q: "\<And>w'. good w' \<Longrightarrow> settled D job jid xid attempt r (vw w) (vw w') \<Longrightarrow> Q () w'"
  shows "wp (result_failed D (job\<lparr>job_Metadata := md\<rparr>) jid xid wid attempt r now) Q w"
proof -
  have x: "settled_exec job r = ExecutionFailed" using c by (simp add: settled_exec_def)
  have st: "settled_state job attempt r =
      (if er_Retryable r \<and> attempt < job_MaxAttempts job then JobStateRetrying else JobStateFailed)"
    using nt c by (auto simp: settled_state_def)
  then have err: "er_Error r = settled_error job attempt r" using c by (simp add: settled_error_def)
  show ?thesis
    unfolding result_failed_def wp_simps
  proof (rule wp_finishExecution [OF w], rule wp_emit, assumption, goal_cases)
    case (1 w1 t w2)
    then have v2: "vw w2 = end_exec xid (settled_exec job r) r t (vw w)" by (simp add: x)
    then have j2: "v_jobs (vw w2) jid = Some job" using j by simp
    show ?case
      using wp_retry [where Q = Q, OF 1(3) j2 _ v2 err _ Q]
        wp_give_up [where Q = Q and st = JobStateFailed, OF 1(3) j2 _ _ v2 err _ Q]
      by (cases "er_Retryable r \<and> attempt < job_MaxAttempts job") (auto simp: st Let_def wp_simps now)
  qed
qed

text \<open>
  The whole handler. Its effect on the scheduler's own maps comes first and does not depend on
  the store; then an unknown job is an error, a job that is already over is left alone, and any
  other job is settled.
\<close>

lemma wp_HandleResult:
  assumes w: "good w"
    and miss: "\<And>w'. good w' \<Longrightarrow> v_jobs (vw w) jid = None \<Longrightarrow>
      vw w' = drop_pending wid jid (upd_worker wid release_slot (vw w)) \<Longrightarrow> Q (Some ErrNotFound) w'"
    and over: "\<And>w' job. good w' \<Longrightarrow> v_jobs (vw w) jid = Some job \<Longrightarrow> terminal (job_State job) \<Longrightarrow>
      vw w' = drop_pending wid jid (upd_worker wid release_slot (vw w)) \<Longrightarrow> Q None w'"
    and open': "\<And>w' job. good w' \<Longrightarrow> v_jobs (vw w) jid = Some job \<Longrightarrow> \<not> terminal (job_State job) \<Longrightarrow>
      settled D job jid xid attempt (default_reason r)
        (drop_pending wid jid (upd_worker wid release_slot (vw w))) (vw w') \<Longrightarrow> Q None w'"
  shows "wp (HandleResult D jid xid wid attempt r) Q w"
proof -
  let ?w = "drop_pending wid jid (upd_worker wid release_slot w)"
  have g: "good ?w" using w by simp
  have v: "vw ?w = drop_pending wid jid (upd_worker wid release_slot (vw w))"
    by (simp only: view_drop_pending view_upd_worker)
  have jobs: "v_jobs (vw ?w) = v_jobs (vw w)" by simp
  show ?thesis
    unfolding HandleResult_def clearPendingCancel_def Let_def wp_simps
  proof (rule wp_getJob [OF g], goal_cases)
    case (1 w')
    then show ?case using miss [OF 1(1)] v jobs by (simp add: wp_simps)
  next
    case (2 w1 job md)
    have j1: "v_jobs (vw w1) jid = Some job" using 2(2,3) by simp
    have j: "v_jobs (vw w) jid = Some job" using 2(3) jobs by simp
    show ?case
    proof (cases "terminal (job_State job)")
      case True
      then show ?thesis using over [OF 2(1) j True] 2(2) v by (simp add: wp_simps)
    next
      case False
      have "wp (if er_Reason (default_reason r) = ReasonCancelled \<or> job_State job = JobStateCancelRequested
            then result_cancelled D jid xid wid attempt (default_reason r) now
            else if er_Success (default_reason r)
            then result_success D (job\<lparr>job_Metadata := md\<rparr>) jid xid wid attempt (default_reason r) now
            else if er_Reason (default_reason r) = ReasonTimeout
            then result_timeout D (job\<lparr>job_Metadata := md\<rparr>) jid xid wid attempt (default_reason r) now
            else result_failed D (job\<lparr>job_Metadata := md\<rparr>) jid xid wid attempt (default_reason r) now)
          (\<lambda>_. Q None) w2"
        if g2: "good w2" and v2: "vw w2 = vw w1" and now: "clock w2 now" for now w2
      proof -
        have Q': "Q None w'" if "good w'"
          "settled D job jid xid attempt (default_reason r) (vw w2) (vw w')" for w'
          by (rule open' [OF that(1) j False]) (use that(2) v2 2(2) v in simp)
        have j2: "v_jobs (vw w2) jid = Some job" using v2 j1 by simp
        note rules = wp_result_cancelled [OF g2 j2 False] wp_result_success [OF g2 j2 False _ _ _ 2(4)]
          wp_result_timeout [OF g2 j2 False] wp_result_failed [OF g2 j2 False]
        show ?thesis unfolding wp_if using now by (auto intro!: rules Q')
      qed
      then show ?thesis
        using False by (auto simp: wp_simps intro!: wp_clock [OF 2(1)])
    qed
  qed
qed

end

end
