(* ===== verification/SchedulerWorkers.thy ===== *)
theory SchedulerWorkers
  imports SchedulerResult
begin

text \<open>
  Workers, cancellation and recovery: the set of cancellations pending for a worker and its
  redelivery by heartbeats, and what happens to the jobs of a worker that is declared lost, for
  every store, publisher and queue that meet the contracts.
\<close>

section \<open>Pending cancellations\<close>

definition pending_for :: "('s, 'q) World \<Rightarrow> string \<Rightarrow> string set" where
  "pending_for w wid =
     (case map_of (w_pendingCancels w) wid of None \<Rightarrow> {} | Some cs \<Rightarrow> dom (map_of cs))"

definition cancels_ok :: "('s, 'q) World \<Rightarrow> bool" where
  "cancels_ok w \<longleftrightarrow> (\<forall>wid cs. map_of (w_pendingCancels w) wid = Some cs \<longrightarrow> cs \<noteq> [] \<and> gomap_wf cs)"

lemma gput_not_Nil [simp]: "gput k v m \<noteq> []"
  by (metis map_of_gput fun_upd_same map_of.simps(1) option.distinct(1))

lemma pending_for_add [simp]:
  "pending_for (add_pending wid jid w) wid' =
     (if wid' = wid then insert jid (pending_for w wid) else pending_for w wid')"
  by (auto simp: pending_for_def add_pending_def Let_def split: option.splits)

lemma pending_for_drop [simp]:
  "pending_for (drop_pending wid jid w) wid' =
     (if wid' = wid then pending_for w wid - {jid} else pending_for w wid')"
proof (cases "map_of (w_pendingCancels w) wid")
  case None
  then show ?thesis by (auto simp: pending_for_def drop_pending_def)
next
  case (Some cs)
  show ?thesis
  proof (cases "gdel jid cs = []")
    case True
    then have "dom (map_of cs) \<subseteq> {jid}" by (simp add: gdel_Nil_iff dom_map_of_conv_image_fst)
    with True Some show ?thesis by (auto simp: pending_for_def drop_pending_def Let_def)
  next
    case False
    with Some show ?thesis by (auto simp: pending_for_def drop_pending_def Let_def)
  qed
qed

lemma cancels_ok_add: "cancels_ok w \<Longrightarrow> cancels_ok (add_pending wid jid w)"
  by (auto simp: cancels_ok_def add_pending_def Let_def split: option.splits)

lemma cancels_ok_drop: "cancels_ok w \<Longrightarrow> cancels_ok (drop_pending wid jid w)"
  by (auto simp: cancels_ok_def drop_pending_def Let_def split: option.splits if_splits)

lemma pending_for_cong: "w_pendingCancels w = w_pendingCancels w' \<Longrightarrow> pending_for w = pending_for w'"
  by (simp add: pending_for_def fun_eq_iff)

lemma pending_for_view [simp]: "pending_for (view av w) = pending_for w"
  by (rule pending_for_cong) simp


section \<open>Recovery of a lost worker's jobs\<close>

definition recovered_state :: "Job \<Rightarrow> JobState" where
  "recovered_state j =
     (if job_State j = JobStateCancelRequested then JobStateCancelled
      else if job_Attempt j < job_MaxAttempts j then JobStateRetrying
      else JobStateFailed)"

definition recovered_fields :: "time \<Rightarrow> Job \<Rightarrow> fields" where
  "recovered_fields now j =
     (if job_State j = JobStateCancelRequested
      then [(''completed_at'', AnyTime now), (''last_error'', AnyString ''worker lost during cancel'')]
      else if job_Attempt j < job_MaxAttempts j
      then [(''next_retry_at'', AnyTime now), (''last_error'', AnyString ''worker lost''),
            (''worker_id'', AnyString ''''), (''execution_id'', AnyString '''')]
      else [(''completed_at'', AnyTime now),
            (''last_error'', AnyString ''worker lost, max attempts exceeded'')])"

definition recovered :: "Job \<Rightarrow> Job \<Rightarrow> bool" where
  "recovered j j' \<longleftrightarrow> (\<exists>t now. j' = set_state t (recovered_state j) (recovered_fields now j) j)"

definition owned :: "Job \<Rightarrow> bool" where
  "owned j \<longleftrightarrow> job_State j \<in> {JobStateRunning, JobStateAssigned, JobStateCancelRequested}"

definition closed_exec :: "JobExecution option \<Rightarrow> JobExecution option \<Rightarrow> bool" where
  "closed_exec e e' \<longleftrightarrow>
     e' = e \<or> (\<exists>x x' t. e = Some x \<and> e' = Some x' \<and> ex_ID x' = ex_ID x \<and> ex_JobID x' = ex_JobID x \<and>
                       ex_State x' = ExecutionFailed \<and> ex_FinishedAt x' = Some t)"

text \<open>
  The view after the jobs \<open>js\<close> of the lost worker \<open>wid\<close> have been recovered: they are, no other job
  has changed, and executions were at most closed as failed.
\<close>

definition after_recovery :: "string \<Rightarrow> bool \<Rightarrow> Job option \<Rightarrow> Job option \<Rightarrow> bool" where
  "after_recovery wid isin o1 o2 \<longleftrightarrow>
     (case o1 of
        None \<Rightarrow> o2 = None
      | Some j \<Rightarrow> if isin \<and> job_WorkerID j = wid then \<exists>j'. o2 = Some j' \<and> recovered j j' else o2 = Some j)"

definition recovery ::
    "string \<Rightarrow> Job list \<Rightarrow> (AbsStore, 'q) World \<Rightarrow> (AbsStore, 'q) World \<Rightarrow> bool" where
  "recovery wid js v v' \<longleftrightarrow>
     (\<exists>jm em. v' = v\<lparr>w_store := (w_store v)\<lparr>a_jobs := jm, a_execs := em\<rparr>\<rparr> \<and>
        (\<forall>jid. after_recovery wid (jid \<in> job_ID ` set js) (v_jobs v jid) (jm jid)) \<and>
        (\<forall>x. closed_exec (v_execs v x) (em x)))"

lemma recovered_state_not_owned [simp]:
  "recovered_state j \<noteq> JobStateRunning" "recovered_state j \<noteq> JobStateAssigned"
  "recovered_state j \<noteq> JobStateCancelRequested"
  by (simp_all add: recovered_state_def)

lemma recovered_not_owned: "recovered j j' \<Longrightarrow> \<not> owned j'"
  by (auto simp: recovered_def owned_def)

lemma after_recovery_unlisted: "after_recovery wid False o1 o2 \<longleftrightarrow> o2 = o1"
  by (auto simp: after_recovery_def split: option.splits)

lemma recovery_Nil: "recovery wid [] v v"
  unfolding recovery_def
  by (rule exI [of _ "v_jobs v"], rule exI [of _ "v_execs v"])
    (simp add: closed_exec_def after_recovery_unlisted)

lemma closed_exec_trans: "closed_exec a b \<Longrightarrow> closed_exec b c \<Longrightarrow> closed_exec a c"
  unfolding closed_exec_def by auto

lemma recovery_skip:
  assumes r: "recovery wid js v u" and j: "v_jobs v (job_ID k) = Some j" "job_WorkerID j \<noteq> wid"
  shows "recovery wid (js @ [k]) v u"
proof -
  have "after_recovery wid (jid \<in> job_ID ` set (js @ [k])) (v_jobs v jid) o2 =
        after_recovery wid (jid \<in> job_ID ` set js) (v_jobs v jid) o2" for jid o2
    using j by (cases "jid = job_ID k") (simp_all add: after_recovery_def)
  then show ?thesis using r unfolding recovery_def by simp
qed

lemma recovery_snoc:
  assumes r: "recovery wid js v u"
    and j: "v_jobs v (job_ID k) = Some j" "job_WorkerID j = wid" "recovered j j'"
  shows "recovery wid (js @ [k]) v (put_job (job_ID k) j' (end_exec xid ExecutionFailed lost_result t u))"
proof -
  let ?e = "v_execs (end_exec xid ExecutionFailed lost_result t u)"
  from r obtain jm em where u: "u = v\<lparr>w_store := (w_store v)\<lparr>a_jobs := jm, a_execs := em\<rparr>\<rparr>"
    and jm: "\<forall>jid. after_recovery wid (jid \<in> job_ID ` set js) (v_jobs v jid) (jm jid)"
    and em: "\<forall>x. closed_exec (v_execs v x) (em x)"
    unfolding recovery_def by blast
  have "closed_exec (em x) (?e x)" for x
    by (auto simp: u end_exec_execs closed_exec_def finished_def)
  with em have e: "\<forall>x. closed_exec (v_execs v x) (?e x)" using closed_exec_trans by blast
  have m: "after_recovery wid (jid \<in> job_ID ` set (js @ [k])) (v_jobs v jid) ((jm(job_ID k \<mapsto> j')) jid)" for jid
    using jm [rule_format, of jid] j by (cases "jid = job_ID k") (simp_all add: after_recovery_def)
  have "put_job (job_ID k) j' (end_exec xid ExecutionFailed lost_result t u) =
          v\<lparr>w_store := (w_store v)\<lparr>a_jobs := jm(job_ID k \<mapsto> j'), a_execs := ?e\<rparr>\<rparr>"
    by (simp add: put_job_def end_exec_def put_exec_def u split: option.splits)
  with e m show ?thesis unfolding recovery_def by blast
qed

lemma recovery_job: "recovery wid js v u \<Longrightarrow> after_recovery wid (jid \<in> job_ID ` set js) (v_jobs v jid) (v_jobs u jid)"
  unfolding recovery_def by auto

lemma recovery_sel:
  assumes "recovery wid js v u"
  shows "w_queue u = w_queue v" "w_workers u = w_workers v" "w_pendingCancels u = w_pendingCancels v"
    "w_sent u = w_sent v" "w_ext u = w_ext v" "a_workers (w_store u) = a_workers (w_store v)"
  using assms unfolding recovery_def by auto

section \<open>Pushed cancellations\<close>

definition cancelled_directly :: "Job \<Rightarrow> Job \<Rightarrow> bool" where
  "cancelled_directly j j' \<longleftrightarrow>
     (\<exists>t now. j' = set_state t JobStateCancelled [(''completed_at'', AnyTime now)] j)"

text \<open>One cancel-requested job after a pass, given the cancellations then pending per worker.\<close>

definition after_push :: "(string \<Rightarrow> string set) \<Rightarrow> string \<Rightarrow> Job \<Rightarrow> Job option \<Rightarrow> bool" where
  "after_push pend jid j o2 \<longleftrightarrow>
     (if job_WorkerID j = '''' then \<exists>j'. o2 = Some j' \<and> cancelled_directly j j'
      else o2 = Some j \<and> jid \<in> pend (job_WorkerID j))"

definition push_pass ::
    "Job list \<Rightarrow> (AbsStore, 'q) World \<Rightarrow> (AbsStore, 'q) World \<Rightarrow> bool" where
  "push_pass js v v' \<longleftrightarrow>
     (\<forall>k\<in>set js. \<exists>j. v_jobs v (job_ID k) = Some j \<and> after_push (pending_for v') (job_ID k) j (v_jobs v' (job_ID k))) \<and>
     (\<forall>jid. jid \<notin> job_ID ` set js \<longrightarrow> v_jobs v' jid = v_jobs v jid) \<and>
     (\<forall>wid. pending_for v wid \<subseteq> pending_for v' wid)"

lemma push_pass_Nil: "push_pass [] v v"
  by (simp add: push_pass_def)

lemma push_pass_snoc:
  assumes p: "push_pass js v u" and new: "job_ID k \<notin> job_ID ` set js"
    and j: "v_jobs v (job_ID k) = Some j"
    and a: "after_push (pending_for v') (job_ID k) j (v_jobs v' (job_ID k))"
    and fr: "\<And>jid. jid \<noteq> job_ID k \<Longrightarrow> v_jobs v' jid = v_jobs u jid"
    and mono: "\<And>wid. pending_for u wid \<subseteq> pending_for v' wid"
  shows "push_pass (js @ [k]) v v'"
proof -
  have "\<exists>j. v_jobs v (job_ID h) = Some j \<and> after_push (pending_for v') (job_ID h) j (v_jobs v' (job_ID h))"
    if h: "h \<in> set js" for h
  proof -
    obtain i where i: "v_jobs v (job_ID h) = Some i" "after_push (pending_for u) (job_ID h) i (v_jobs u (job_ID h))"
      using p h unfolding push_pass_def by blast
    have "job_ID h \<noteq> job_ID k" using new h by (metis imageI)
    with i mono [of "job_WorkerID i"] have "after_push (pending_for v') (job_ID h) i (v_jobs v' (job_ID h))"
      by (auto simp: after_push_def fr)
    with i(1) show ?thesis by blast
  qed
  moreover have "pending_for v wid \<subseteq> pending_for v' wid" for wid
    using p mono unfolding push_pass_def by blast
  moreover have "v_jobs v' jid = v_jobs v jid" if "jid \<notin> job_ID ` set (js @ [k])" for jid
    using p that fr unfolding push_pass_def by simp
  ultimately show ?thesis using a j unfolding push_pass_def by simp
qed


section \<open>Timeouts\<close>

text \<open>What the watchdog does to an overdue job.\<close>

definition expired :: "('s, 'q) Service \<Rightarrow> (AbsStore, 'q) World \<Rightarrow> Job \<Rightarrow> Job \<Rightarrow> bool" where
  "expired D v j j' \<longleftrightarrow>
     (\<exists>t now rnd. clock v now \<and> drawn v rnd \<and>
        j' = set_state t (settled_state j (job_Attempt j) (timeout_result j))
          (settled_fields j (job_Attempt j) (timeout_result j) now
            (computeBackoff (sv_conv D) rnd (job_RetryPolicy j) (job_Attempt j))) j)"

lemma timeout_result_copy [simp]: "timeout_result (j\<lparr>job_Metadata := md\<rparr>) = timeout_result j"
  by (simp add: timeout_result_def)

lemma default_reason_timeout [simp]: "default_reason (timeout_result j) = timeout_result j"
  by (simp add: default_reason_def timeout_result_def)

lemma settled_jobs:
  assumes "settled D job jid xid attempt r v v'" "settled_state job attempt r \<noteq> JobStateCompleted"
  shows "w_ext v' = w_ext v \<and> (\<exists>t now rnd. clock v now \<and> drawn v rnd \<and>
           v_jobs v' = (v_jobs v)(jid \<mapsto> set_state t (settled_state job attempt r)
             (settled_fields job attempt r now (computeBackoff (sv_conv D) rnd (job_RetryPolicy job) attempt)) job))"
proof -
  from assms obtain now t t' rnd where c: "clock v now" "drawn v rnd" and
    v: "v' = put_job jid (set_state t' (settled_state job attempt r) (settled_fields job attempt r now
          (computeBackoff (sv_conv D) rnd (job_RetryPolicy job) attempt)) job)
          (end_exec xid (settled_exec job r) r t v)"
    unfolding settled_def Let_def by (auto simp: if_not_P)
  show ?thesis
    by (intro conjI exI [of _ t'] exI [of _ now] exI [of _ rnd] c) (simp_all add: v)
qed

definition expiry ::
    "('s, 'q) Service \<Rightarrow> Job list \<Rightarrow> (AbsStore, 'q) World \<Rightarrow> (AbsStore, 'q) World \<Rightarrow> bool" where
  "expiry D js v v' \<longleftrightarrow>
     w_ext v' = w_ext v \<and>
     (\<forall>jid. if jid \<in> job_ID ` set js
            then \<exists>j j'. v_jobs v jid = Some j \<and> v_jobs v' jid = Some j' \<and> expired D v j j'
            else v_jobs v' jid = v_jobs v jid)"

lemma expiry_Nil: "expiry D [] v v"
  by (simp add: expiry_def)

lemma expiry_snoc:
  assumes e: "expiry D js v u" and j: "v_jobs v (job_ID k) = Some j" "expired D v j j'"
    and u: "v_jobs u' = (v_jobs u)(job_ID k \<mapsto> j')" "w_ext u' = w_ext u"
  shows "expiry D (js @ [k]) v u'"
proof -
  have "if jid \<in> job_ID ` set (js @ [k])
        then \<exists>j i. v_jobs v jid = Some j \<and> v_jobs u' jid = Some i \<and> expired D v j i
        else v_jobs u' jid = v_jobs v jid" for jid
    using conjunct2 [OF e [unfolded expiry_def], rule_format, of jid] j
    by (cases "jid = job_ID k") (simp add: u, simp add: u split: if_splits)
  moreover have "w_ext u' = w_ext v" using e u(2) by (simp add: expiry_def)
  ultimately show ?thesis unfolding expiry_def by blast
qed


section \<open>Loss of workers\<close>

definition owned_ids :: "(AbsStore, 'q) World \<Rightarrow> string set" where
  "owned_ids v = {jid. \<exists>j. v_jobs v jid = Some j \<and> owned j}"

definition few_owned :: "(AbsStore, 'q) World \<Rightarrow> bool" where
  "few_owned v \<longleftrightarrow> finite (owned_ids v) \<and> card (owned_ids v) < 1000"

lemma JobState_string_eq [simp]:
  "JobState_string s = ''RUNNING'' \<longleftrightarrow> s = JobStateRunning"
  "JobState_string s = ''ASSIGNED'' \<longleftrightarrow> s = JobStateAssigned"
  "JobState_string s = ''CANCEL_REQUESTED'' \<longleftrightarrow> s = JobStateCancelRequested"
  by (cases s; simp)+

text \<open>The three listings of \<open>recoverWorkerJobs\<close>, concatenated.\<close>

definition owned_listing :: "(AbsStore, 'q) World \<Rightarrow> Job list \<Rightarrow> bool" where
  "owned_listing v js \<longleftrightarrow>
     distinct (map job_ID js) \<and>
     (\<forall>k\<in>set js. \<exists>j md. v_jobs v (job_ID k) = Some j \<and> owned j \<and> k = j\<lparr>job_Metadata := md\<rparr>) \<and>
     (few_owned v \<longrightarrow> owned_ids v \<subseteq> job_ID ` set js)"

lemma owned_listingI:
  assumes l1: "listing (v_jobs v) (\<lambda>j. job_State j = JobStateRunning) 1000 js1"
    and l2: "listing (v_jobs v) (\<lambda>j. job_State j = JobStateAssigned) 1000 js2"
    and l3: "listing (v_jobs v) (\<lambda>j. job_State j = JobStateCancelRequested) 1000 js3"
  shows "owned_listing v (js1 @ js2 @ js3)"
proof -
  have mem: "\<exists>j. v_jobs v (job_ID k) = Some j \<and> job_State j = s"
    if "listing (v_jobs v) (\<lambda>j. job_State j = s) 1000 js" "k \<in> set js" for s js k
    using listing_mem [OF that] by blast
  have dis: "job_ID ` set js \<inter> job_ID ` set js' = {}"
    if "listing (v_jobs v) (\<lambda>j. job_State j = s) 1000 js"
      "listing (v_jobs v) (\<lambda>j. job_State j = s') 1000 js'" "s \<noteq> s'" for s s' js js'
    using mem [OF that(1)] mem [OF that(2)] that(3) by (fastforce simp: image_iff disjoint_iff)
  have d: "distinct (map job_ID (js1 @ js2 @ js3))"
    using listing_distinct [OF l1] listing_distinct [OF l2] listing_distinct [OF l3]
      dis [OF l1 l2] dis [OF l1 l3] dis [OF l2 l3] by (auto simp: image_Un)
  have m: "\<exists>j md. v_jobs v (job_ID k) = Some j \<and> owned j \<and> k = j\<lparr>job_Metadata := md\<rparr>"
    if "k \<in> set (js1 @ js2 @ js3)" for k
  proof -
    have "\<exists>j md. v_jobs v (job_ID k) = Some j \<and>
        job_State j \<in> {JobStateRunning, JobStateAssigned, JobStateCancelRequested} \<and> k = j\<lparr>job_Metadata := md\<rparr>"
      using that listing_mem [OF l1, of k] listing_mem [OF l2, of k] listing_mem [OF l3, of k]
      unfolding set_append Un_iff by (elim disjE; blast)
    then show ?thesis unfolding owned_def .
  qed
  have len: "int (length js) < 1000" if "few_owned v" "listing (v_jobs v) (\<lambda>j. job_State j = s) 1000 js"
    "s \<in> {JobStateRunning, JobStateAssigned, JobStateCancelRequested}" for s js
  proof -
    have "job_ID ` set js \<subseteq> owned_ids v"
      using mem [OF that(2)] that(3) by (fastforce simp: owned_ids_def owned_def)
    then have "card (job_ID ` set js) < 1000"
      using that(1) card_mono unfolding few_owned_def by (meson le_less_trans)
    then show ?thesis using listing_distinct [OF that(2)] by (metis distinct_card length_map
          list.set_map of_nat_less_iff of_nat_numeral)
  qed
  have "owned_ids v \<subseteq> job_ID ` set (js1 @ js2 @ js3)" if f: "few_owned v"
    using listing_complete [OF l1 len [OF f l1]] listing_complete [OF l2 len [OF f l2]]
      listing_complete [OF l3 len [OF f l3]]
    unfolding owned_ids_def owned_def by (auto simp: image_Un)
  with d m show ?thesis unfolding owned_listing_def by blast
qed

text \<open>What the loss of the workers \<open>W\<close> does to one job.\<close>

definition after_loss :: "string set \<Rightarrow> Job option \<Rightarrow> Job option \<Rightarrow> bool" where
  "after_loss W o1 o2 \<longleftrightarrow>
     o2 = o1 \<or> (\<exists>j j'. o1 = Some j \<and> o2 = Some j' \<and> owned j \<and> job_WorkerID j \<in> W \<and> recovered j j')"

definition loss ::
    "string list \<Rightarrow> (AbsStore, 'q) World \<Rightarrow> (AbsStore, 'q) World \<Rightarrow> bool" where
  "loss wids v v' \<longleftrightarrow>
     (\<forall>jid. after_loss (set wids) (v_jobs v jid) (v_jobs v' jid)) \<and>
     (few_owned v \<longrightarrow> (\<forall>jid j. v_jobs v' jid = Some j \<longrightarrow> owned j \<longrightarrow> job_WorkerID j \<notin> set wids)) \<and>
     (\<forall>wid. map_of (w_workers v') wid = (if wid \<in> set wids then None else map_of (w_workers v) wid)) \<and>
     (\<forall>wid. pending_for v' wid = (if wid \<in> set wids then {} else pending_for v wid)) \<and>
     a_workers (w_store v') = a_workers (w_store v) \<and> w_queue v' = w_queue v \<and> w_sent v' = w_sent v \<and>
     w_ext v' = w_ext v"

lemma after_loss_recovery:
  assumes a: "after_loss W o1 o2" and r: "after_recovery wid isin o2 o3"
    and l: "isin \<Longrightarrow> \<exists>j. o2 = Some j \<and> owned j"
  shows "after_loss (insert wid W) o1 o3"
proof (cases "isin \<and> (\<exists>j. o2 = Some j \<and> job_WorkerID j = wid)")
  case True
  then obtain j j3 where j: "o2 = Some j" "job_WorkerID j = wid" "o3 = Some j3" "recovered j j3" "owned j"
    using r l by (auto simp: after_recovery_def)
  with a have "o2 = o1" using recovered_not_owned by (auto simp: after_loss_def)
  with j show ?thesis by (auto simp: after_loss_def)
next
  case False
  with r have "o3 = o2" by (auto simp: after_recovery_def split: option.splits if_splits)
  with a show ?thesis by (auto simp: after_loss_def)
qed

lemma loss_Nil: "loss [] v v"
  by (simp add: loss_def after_loss_def)

lemma loss_few_owned:
  assumes "loss wids v u" "few_owned v"
  shows "few_owned u"
proof -
  have "owned_ids u \<subseteq> owned_ids v"
  proof
    fix jid
    assume "jid \<in> owned_ids u"
    then obtain j where j: "v_jobs u jid = Some j" "owned j" unfolding owned_ids_def by blast
    have "after_loss (set wids) (v_jobs v jid) (v_jobs u jid)" using assms(1) unfolding loss_def by blast
    with j have "v_jobs v jid = Some j" using recovered_not_owned unfolding after_loss_def by force
    with j(2) show "jid \<in> owned_ids v" unfolding owned_ids_def by blast
  qed
  with assms(2) show ?thesis
    unfolding few_owned_def by (meson card_mono finite_subset le_less_trans)
qed

lemma loss_snoc:
  assumes lo: "loss wids v u" and li: "owned_listing u js" and r: "recovery wid js u u'"
    and w: "w_workers v' = gdel wid (w_workers u)" "w_pendingCancels v' = gdel wid (w_pendingCancels u)"
    and e: "w_store v' = w_store u'" "w_queue v' = w_queue u'" "w_sent v' = w_sent u'" "w_ext v' = w_ext u'"
  shows "loss (wids @ [wid]) v v'"
proof -
  have rj: "after_recovery wid (jid \<in> job_ID ` set js) (v_jobs u jid) (v_jobs v' jid)" for jid
    using recovery_job [OF r] e by simp
  have lst: "\<exists>j. v_jobs u jid = Some j \<and> owned j" if "jid \<in> job_ID ` set js" for jid
    using li that unfolding owned_listing_def by fastforce
  have a: "after_loss (insert wid (set wids)) (v_jobs v jid) (v_jobs v' jid)" for jid
    by (rule after_loss_recovery [OF _ rj lst]) (use lo in \<open>simp_all add: loss_def\<close>)
  have o: "job_WorkerID j \<notin> insert wid (set wids)"
    if f: "few_owned v" and j: "v_jobs v' jid = Some j" "owned j" for jid j
  proof -
    have uj: "v_jobs u jid = Some j" "jid \<in> job_ID ` set js \<longrightarrow> job_WorkerID j \<noteq> wid"
      using rj [of jid] j recovered_not_owned
      by (auto simp: after_recovery_def split: option.splits if_splits)
    moreover have "jid \<in> job_ID ` set js"
      using li loss_few_owned [OF lo f] uj(1) j(2) unfolding owned_listing_def owned_ids_def by blast
    ultimately show ?thesis using lo f j(2) unfolding loss_def by blast
  qed
  have p: "pending_for v' i = (if i \<in> set (wids @ [wid]) then {} else pending_for v i)" for i
    using lo w(2) by (simp add: loss_def pending_for_def)
  have m: "map_of (w_workers v') i = (if i \<in> set (wids @ [wid]) then None else map_of (w_workers v) i)" for i
    using lo w(1) by (simp add: loss_def)
  show ?thesis
    unfolding loss_def using a o p m lo recovery_sel [OF r] e by (simp add: loss_def)
qed

context scheduler_ctx
begin

lemma wp_recover_job:
  assumes w: "good w" and j: "v_jobs (vw w) (job_ID k) = Some j" "k = j\<lparr>job_Metadata := md\<rparr>"
    and skip: "\<And>w'. good w' \<Longrightarrow> vw w' = vw w \<Longrightarrow> job_WorkerID j \<noteq> wid \<Longrightarrow> Q () w'"
    and rec: "\<And>w' j' t. good w' \<Longrightarrow> job_WorkerID j = wid \<Longrightarrow> recovered j j' \<Longrightarrow>
      vw w' = put_job (job_ID k) j' (end_exec (job_ExecutionID j) ExecutionFailed lost_result t (vw w)) \<Longrightarrow> Q () w'"
  shows "wp (recover_job D wid now k) Q w"
proof (cases "job_WorkerID j = wid")
  case False
  with skip w j show ?thesis by (simp add: recover_job_def wp_simps)
next
  case True
  have "wp (updateJobState D (job_ID k) (recovered_state j) (recovered_fields now j))
          (\<lambda>_. wp (emit D et (job_ID k) (job_ExecutionID k) wid (job_Attempt k) lost_payload) Q) w1"
    if g1: "good w1" and v1: "vw w1 = end_exec (job_ExecutionID j) ExecutionFailed lost_result t (vw w)" for et t w1
  proof (rule wp_updateJobState [OF g1, where j = j], goal_cases)
    case 1
    then show ?case using j v1 by simp
  next
    case (2 w2 t')
    then show ?case
      by (intro wp_emit [OF 2(1)] rec [OF _ True]) (auto simp: recovered_def v1)
  qed
  then show ?thesis
    using True unfolding recover_job_def wp_simps
    by (auto simp: j(2) wp_simps recovered_state_def recovered_fields_def intro!: wp_finishExecution [OF w])
qed

lemma wp_ListJobs:
  assumes w: "good w"
    and Q: "\<And>w' js. good w' \<Longrightarrow> vw w' = vw w \<Longrightarrow>
      listing (v_jobs (vw w)) (\<lambda>j. s = '''' \<or> JobState_string (job_State j) = s) (default_limit n) js \<Longrightarrow>
      Q (Inr js) w'"
  shows "wp (store_get (\<lambda>x. js_ListJobs (sv_store D) x s n)) Q w"
proof -
  let ?w = "w\<lparr>w_tick := Suc (w_tick w)\<rparr>"
  have "good ?w" "vw ?w = vw w" using w by (simp_all add: view_fields)
  moreover obtain js where "js_ListJobs (sv_store D) (w_ext w (w_tick w)) s n (w_store w) = Inr js"
    "listing (v_jobs (vw w)) (\<lambda>j. s = '''' \<or> JobState_string (job_State j) = s) (default_limit n) js"
    using st.list_total [OF good_call [OF w], of s n] by auto
  ultimately show ?thesis using Q by (auto simp: store_get_def wp_simps)
qed

lemma wp_recoverWorkerJobs:
  assumes w: "good w"
    and Q: "\<And>w' js u. good w' \<Longrightarrow> owned_listing (vw w) js \<Longrightarrow> recovery wid js (vw w) u \<Longrightarrow>
      vw w' = u\<lparr>w_pendingCancels := gdel wid (w_pendingCancels w)\<rparr> \<Longrightarrow> Q None w'"
  shows "wp (recoverWorkerJobs D wid) Q w"
proof -
  have loop: "wp (for_each (recover_job D wid now) js)
      (\<lambda>_ u. Q None (u\<lparr>w_pendingCancels := gdel wid (w_pendingCancels u)\<rparr>)) w4"
    if g4: "good w4" and v4: "vw w4 = vw w" and l: "owned_listing (vw w) js" for now js w4
  proof (rule wp_for_each [where I = "\<lambda>xs u. good u \<and> recovery wid xs (vw w) (vw u)"], goal_cases)
    case 1
    then show ?case using g4 v4 recovery_Nil by simp
  next
    case (2 xs k ys u)
    then have r: "recovery wid xs (vw w) (vw u)" and gu: "good u" by simp_all
    have new: "job_ID k \<notin> job_ID ` set xs" using l 2(1) by (auto simp: owned_listing_def)
    obtain j md where j: "v_jobs (vw w) (job_ID k) = Some j" "k = j\<lparr>job_Metadata := md\<rparr>"
      using l 2(1) unfolding owned_listing_def by fastforce
    have ju: "v_jobs (vw u) (job_ID k) = Some j"
      using recovery_job [OF r, of "job_ID k"] new j(1) by (simp add: after_recovery_unlisted)
    show ?case
    proof (rule wp_recover_job [OF gu ju j(2)], goal_cases)
      case (1 w')
      then show ?case using recovery_skip [OF r j(1)] by simp
    next
      case (2 w' j' t)
      then show ?case using recovery_snoc [OF r j(1) 2(2,3)] by simp
    qed
  next
    case (3 u)
    have "w_pendingCancels u = w_pendingCancels w"
      using recovery_sel(3) [of wid js "vw w" "vw u"] 3 by simp
    then show ?case using 3 by (intro Q [OF _ l, of _ "vw u"]) (simp_all add: view_fields)
  qed
  have s: "default_limit 1000 = 1000" by (simp add: default_limit_def)
  show ?thesis
    unfolding recoverWorkerJobs_def wp_simps
  proof (rule wp_ListJobs [OF w], goal_cases)
    case (1 w1 js1)
    show ?case unfolding sum.case wp_simps
    proof (rule wp_ListJobs [OF 1(1)], goal_cases)
      case (1 w2 js2)
      show ?case unfolding sum.case wp_simps
      proof (rule wp_ListJobs [OF 1(1)], goal_cases)
        case (1 w3 js3)
        have l: "owned_listing (vw w) (js1 @ js2 @ js3)"
          using \<open>listing (v_jobs (vw w)) _ _ js1\<close> \<open>listing (v_jobs (vw w1)) _ _ js2\<close>
            \<open>listing (v_jobs (vw w2)) _ _ js3\<close> \<open>vw w1 = vw w\<close> \<open>vw w2 = vw w1\<close>
          by (intro owned_listingI) (simp_all add: s)
        have v3: "vw w3 = vw w" using \<open>vw w1 = vw w\<close> \<open>vw w2 = vw w1\<close> 1(2) by simp
        show ?case unfolding sum.case wp_simps
          by (rule wp_time_now [OF 1(1)], rule loop [OF _ _ l]) (simp_all add: v3)
      qed
    qed
  qed
qed

lemma wp_lose_worker:
  assumes w: "good w"
    and Q: "\<And>w' js u. good w' \<Longrightarrow> owned_listing (vw w) js \<Longrightarrow> recovery wid js (vw w) u \<Longrightarrow>
      vw w' = u\<lparr>w_workers := gdel wid (w_workers w), w_pendingCancels := gdel wid (w_pendingCancels w)\<rparr> \<Longrightarrow> Q () w'"
  shows "wp (lose_worker D wid) Q w"
  unfolding lose_worker_def wp_simps
proof (rule wp_emit, goal_cases)
  case (2 w1)
  show ?case
  proof (rule wp_recoverWorkerJobs [OF 2(1)], goal_cases)
    case (1 w' js u)
    let ?v = "(vw w)\<lparr>w_workers := gdel wid (w_workers w)\<rparr>"
    have v1: "vw w1 = ?v" using 2(2) by (simp add: view_fields)
    have "owned_listing (vw w) js"
      using 1(2) unfolding v1 owned_listing_def few_owned_def owned_ids_def by simp
    moreover from 1(3) obtain jm em where u: "u = ?v\<lparr>w_store := (w_store ?v)\<lparr>a_jobs := jm, a_execs := em\<rparr>\<rparr>"
      "\<forall>jid. after_recovery wid (jid \<in> job_ID ` set js) (v_jobs (vw w) jid) (jm jid)"
      "\<forall>x. closed_exec (v_execs (vw w) x) (em x)"
      unfolding recovery_def v1 by auto
    then have "recovery wid js (vw w) ((vw w)\<lparr>w_store := (w_store (vw w))\<lparr>a_jobs := jm, a_execs := em\<rparr>\<rparr>)"
      unfolding recovery_def by blast
    ultimately show ?case
      by (rule Q [OF 1(1)]) (use arg_cong [OF v1, of w_pendingCancels] in \<open>simp add: 1(4) u(1)\<close>)
  qed
qed (use w in simp)

definition scan_ok :: bool where
  "scan_ok \<longleftrightarrow> 0 \<le> sch_HeartbeatTimeout (sv_cfg D) \<and> 0 \<le> sch_SuspectGracePeriod (sv_cfg D) \<and>
     sch_HeartbeatTimeout (sv_cfg D) + sch_SuspectGracePeriod (sv_cfg D) < 2 ^ 63"

lemma wp_checkWorkers:
  assumes w: "good w" and cfg: scan_ok
    and Q: "\<And>w' una n v1. good w' \<Longrightarrow> distinct una \<Longrightarrow>
      set una = {i. \<exists>wk. a_workers (av (w_store w)) i = Some wk \<and>
        lost (x_now (w_ext w n) 0) (sch_HeartbeatTimeout (sv_cfg D)) (sch_SuspectGracePeriod (sv_cfg D)) wk} \<Longrightarrow>
      v1 = (vw w)\<lparr>w_store := (av (w_store w))\<lparr>a_workers :=
        map_option (after_scan (x_now (w_ext w n) 0) (sch_HeartbeatTimeout (sv_cfg D))
          (sch_SuspectGracePeriod (sv_cfg D))) \<circ> a_workers (av (w_store w))\<rparr>\<rparr> \<Longrightarrow>
      loss una v1 (vw w') \<Longrightarrow> Q None w'"
  shows "wp (checkWorkers D) Q w"
proof -
  let ?x = "w_ext w (w_tick w)"
  let ?t = "sch_HeartbeatTimeout (sv_cfg D)" and ?g = "sch_SuspectGracePeriod (sv_cfg D)"
  obtain r s' where s: "js_MarkStaleWorkers (sv_store D) ?x ?t ?g (w_store w) = (r, s')" by (metis surj_pair)
  let ?w = "w\<lparr>w_tick := Suc (w_tick w), w_store := s'\<rparr>"
  have g: "good ?w" using st.stale_sound [OF good_call [OF w] s] w by (simp add: sound_world_def exts_ok_def)
  obtain sus una where una: "r = Inr (sus, una)" "distinct una"
    "set una = {i. \<exists>wk. a_workers (av (w_store w)) i = Some wk \<and> lost (x_now ?x 0) ?t ?g wk}"
    and s': "av s' = (av (w_store w))\<lparr>a_workers := map_option (after_scan (x_now ?x 0) ?t ?g) \<circ> a_workers (av (w_store w))\<rparr>"
    using st.stale_total [OF good_call [OF w] _ _ _ s] cfg unfolding scan_ok_def by blast
  have "wp (for_each (lose_worker D) una) (\<lambda>_. Q None) ?w"
  proof (rule wp_for_each [where I = "\<lambda>xs u. good u \<and> loss xs (vw ?w) (vw u)"], goal_cases)
    case 1
    then show ?case using g loss_Nil by simp
  next
    case (2 xs wid ys u)
    then have gu: "good u" and lo: "loss xs (vw ?w) (vw u)" by simp_all
    show ?case
      by (rule wp_lose_worker [OF gu]) (auto intro!: loss_snoc [OF lo])
  next
    case (3 u)
    then show ?case
      by (intro Q [OF _ una(2,3) refl]) (simp_all add: s' view_fields)
  qed
  then show ?thesis using s una(1) by (simp add: checkWorkers_def store_upd_def wp_simps)
qed

text \<open>The watchdog.\<close>

lemma wp_watchdog_job:
  assumes w: "good w" and j: "v_jobs (vw w) (job_ID k) = Some j" "k = j\<lparr>job_Metadata := md\<rparr>"
    and st: "job_State j = JobStateRunning \<or> job_State j = JobStateAssigned"
    and Q: "\<And>w' j'. good w' \<Longrightarrow> expired D (vw w) j j' \<Longrightarrow> v_jobs (vw w') = (v_jobs (vw w))(job_ID k \<mapsto> j') \<Longrightarrow>
      w_ext w' = w_ext w \<Longrightarrow> Q () w'"
  shows "wp (watchdog_job D k) Q w"
proof -
  have nt: "\<not> terminal (job_State j)" using st by (auto simp: terminal_def)
  have nc: "settled_state j a (timeout_result j) \<noteq> JobStateCompleted" for a
    using st by (auto simp: settled_state_def timeout_result_def terminal_def)
  have "wp (HandleResult D (job_ID k) (job_ExecutionID k) (job_WorkerID k) (job_Attempt k) (timeout_result k))
          (\<lambda>_. Q ()) w1"
    if g1: "good w1" and v1: "v_jobs (vw w1) = v_jobs (vw w)" and x1: "w_ext w1 = w_ext w" for w1
  proof (rule wp_HandleResult [OF g1], goal_cases)
    case (3 w' job)
    have [simp]: "job = j" using 3(2) v1 j(1) by simp
    from settled_jobs [OF 3(4)] obtain t now rnd where c: "clock (vw w) now" "drawn (vw w) rnd"
      "w_ext w' = w_ext w" and
      v: "v_jobs (vw w') = (v_jobs (vw w))(job_ID k \<mapsto> set_state t (settled_state j (job_Attempt j) (timeout_result j))
           (settled_fields j (job_Attempt j) (timeout_result j) now
             (computeBackoff (sv_conv D) rnd (job_RetryPolicy j) (job_Attempt j))) j)"
      using v1 nc x1 by (auto simp: j(2) clock_def drawn_def)
    show ?case by (rule Q [OF 3(1) _ v c(3)]) (use c in \<open>auto simp: expired_def simp del: clock_view\<close>)
  qed (use v1 j nt in auto)
  note H = this
  show ?thesis
  proof (cases "job_WorkerID k = ''''")
    case True
    then show ?thesis using H [OF w refl refl] by (simp add: watchdog_job_def wp_simps)
  next
    case False
    then show ?thesis
      unfolding watchdog_job_def wp_simps
      by (auto intro!: wp_cancel_on_worker [OF w] H split: option.splits dest: arg_cong [of _ _ w_ext])
  qed
qed

lemma wp_watchdogTimeouts:
  assumes w: "good w"
    and Q: "\<And>w' js n. good w' \<Longrightarrow>
      listing (v_jobs (vw w)) (is_overdue (x_now (w_ext w n) 0)) (default_limit (sch_AssignBatchSize (sv_cfg D))) js \<Longrightarrow>
      expiry D js (vw w) (vw w') \<Longrightarrow> Q None w'"
  shows "wp (watchdogTimeouts D) Q w"
proof -
  let ?now = "x_now (w_ext w (w_tick w)) 0" and ?n = "sch_AssignBatchSize (sv_cfg D)"
  let ?w = "w\<lparr>w_tick := Suc (Suc (w_tick w))\<rparr>"
  have g: "good ?w" "vw ?w = vw w" using w by (simp_all add: view_fields)
  obtain js where js: "js_ListTimedOutRunning (sv_store D) (w_ext w (Suc (w_tick w))) ?now ?n (w_store w) = Inr js"
    "listing (v_jobs (vw w)) (is_overdue ?now) (default_limit ?n) js"
    using st.overdue_total [OF good_ext [OF w] good_call(2) [OF w], of _ ?now ?n] by auto
  have "wp (for_each (watchdog_job D) js) (\<lambda>_. Q None) ?w"
  proof (rule wp_for_each [where I = "\<lambda>xs u. good u \<and> expiry D xs (vw w) (vw u)"], goal_cases)
    case 1
    then show ?case using g expiry_Nil by simp
  next
    case (2 xs k ys u)
    then have gu: "good u" and e: "expiry D xs (vw w) (vw u)" by simp_all
    obtain j md where j: "v_jobs (vw w) (job_ID k) = Some j" "is_overdue ?now j" "k = j\<lparr>job_Metadata := md\<rparr>"
      using listing_mem [OF js(2), of k] 2(1) by auto
    have "job_ID k \<notin> job_ID ` set xs" using listing_distinct [OF js(2)] 2(1) by simp
    then have ju: "v_jobs (vw u) (job_ID k) = Some j"
      using conjunct2 [OF e [unfolded expiry_def], rule_format, of "job_ID k"] j(1) by simp
    have x: "expired D (vw u) = expired D (vw w)"
      using e by (auto simp: expiry_def expired_def clock_def drawn_def fun_eq_iff)
    show ?case
      by (rule wp_watchdog_job [OF gu ju j(3)])
        (use j(2) expiry_snoc [OF e j(1)] x in \<open>auto simp: is_overdue_def\<close>)
  next
    case (3 u)
    then show ?case using Q [OF _ js(2)] by blast
  qed
  then show ?thesis
    using js(1) by (simp add: watchdogTimeouts_def time_now_def store_get_def wp_simps)
qed

text \<open>Cancellation.\<close>

lemma wp_push_cancel:
  assumes w: "good w" and j: "v_jobs (vw w) (job_ID k) = Some j" "k = j\<lparr>job_Metadata := md\<rparr>"
    and none: "\<And>w' t now. good w' \<Longrightarrow> job_WorkerID j = '''' \<Longrightarrow>
      vw w' = put_job (job_ID k) (set_state t JobStateCancelled [(''completed_at'', AnyTime now)] j) (vw w) \<Longrightarrow> Q () w'"
    and some: "\<And>w'. good w' \<Longrightarrow> job_WorkerID j \<noteq> '''' \<Longrightarrow> v_jobs (vw w') = v_jobs (vw w) \<Longrightarrow>
      w_pendingCancels w' = w_pendingCancels (add_pending (job_WorkerID j) (job_ID k) w) \<Longrightarrow> Q () w'"
  shows "wp (push_cancel D k) Q w"
proof (cases "job_WorkerID j = ''''")
  case True
  have "wp (updateJobState D (job_ID k) JobStateCancelled [(''completed_at'', AnyTime now)])
          (\<lambda>_. wp (emit D EventJobCancelled (job_ID k) (job_ExecutionID k) '''' (job_Attempt k) None) Q) w1"
    if g1: "good w1" and v1: "vw w1 = vw w" for now w1
  proof (rule wp_updateJobState [OF g1, where j = j], goal_cases)
    case (2 w2 t)
    then show ?case by (intro wp_emit [OF 2(1)] none [OF _ True]) (simp_all add: v1)
  qed (use v1 j in simp)
  with True show ?thesis
    unfolding push_cancel_def by (auto simp: j(2) wp_simps intro!: wp_time_now [OF w])
next
  case False
  let ?w = "add_pending (job_WorkerID j) (job_ID k) w"
  have "good ?w" using w by simp
  then have "wp (cancel_on_worker (job_WorkerID j) (job_ID k) (job_ExecutionID k)) Q ?w"
  proof (rule wp_cancel_on_worker, goal_cases)
    case (1 w')
    have "v_jobs (vw w') = v_jobs (vw w)" "w_pendingCancels (vw w') = w_pendingCancels ?w"
      unfolding 1(2) by (simp_all split: option.splits)
    then show ?case using some [OF 1(1) False] by simp
  qed
  with False j(2) show ?thesis by (simp add: push_cancel_def wp_simps)
qed

lemma wp_pushPendingCancels:
  assumes w: "good w"
    and Q: "\<And>w' js. good w' \<Longrightarrow>
      listing (v_jobs (vw w)) (\<lambda>j. job_State j = JobStateCancelRequested)
        (default_limit (sch_AssignBatchSize (sv_cfg D))) js \<Longrightarrow>
      push_pass js (vw w) (vw w') \<Longrightarrow> Q None w'"
  shows "wp (pushPendingCancels D) Q w"
proof -
  let ?x = "w_ext w (w_tick w)" and ?n = "sch_AssignBatchSize (sv_cfg D)"
  let ?w = "w\<lparr>w_tick := Suc (w_tick w)\<rparr>"
  have g: "good ?w" "vw ?w = vw w" using w by (simp_all add: view_fields)
  obtain js where js: "js_ListCancelRequested (sv_store D) ?x ?n (w_store w) = Inr js"
    "listing (v_jobs (vw w)) (\<lambda>j. job_State j = JobStateCancelRequested) (default_limit ?n) js"
    using st.cancel_requested_total [OF good_call [OF w], of ?n] by auto
  have "wp (for_each (push_cancel D) js) (\<lambda>_. Q None) ?w"
  proof (rule wp_for_each [where I = "\<lambda>xs u. good u \<and> push_pass xs (vw w) (vw u)"], goal_cases)
    case 1
    then show ?case using g push_pass_Nil by simp
  next
    case (2 xs k ys u)
    then have gu: "good u" and p: "push_pass xs (vw w) (vw u)" by simp_all
    obtain j md where j: "v_jobs (vw w) (job_ID k) = Some j" "k = j\<lparr>job_Metadata := md\<rparr>"
      using listing_mem [OF js(2), of k] 2(1) by auto
    have new: "job_ID k \<notin> job_ID ` set xs" using listing_distinct [OF js(2)] 2(1) by simp
    then have ju: "v_jobs (vw u) (job_ID k) = Some j" using p j(1) by (simp add: push_pass_def)
    show ?case
    proof (rule wp_push_cancel [OF gu ju j(2)], goal_cases)
      case (1 w' t now)
      have "pending_for (vw w') = pending_for (vw u)"
        by (rule pending_for_cong) (simp only: 1(3) put_job_sel)
      with 1 show ?case
        by (intro conjI push_pass_snoc [OF p new j(1)]) (auto simp: after_push_def cancelled_directly_def)
    next
      case (2 w')
      have "pending_for w' = pending_for (add_pending (job_WorkerID j) (job_ID k) u)"
        by (rule pending_for_cong) (rule 2(4))
      with 2 ju show ?case
        by (intro conjI push_pass_snoc [OF p new j(1)]) (auto simp: after_push_def)
    qed
  next
    case (3 u)
    then show ?case using Q [OF _ js(2)] by blast
  qed
  then show ?thesis using js(1) by (simp add: pushPendingCancels_def store_get_def wp_simps)
qed

text \<open>Workers: heartbeat and registration.\<close>

lemma wp_upsert:
  assumes w: "good w"
    and Q: "\<And>w'. good w' \<Longrightarrow> vw w' = (vw w)\<lparr>w_store := (av (w_store w))\<lparr>a_workers :=
       (a_workers (av (w_store w)))(wk_ID wk \<mapsto> wk)\<rparr>\<rparr> \<Longrightarrow> Q None w'"
  shows "wp (store_upd (\<lambda>x. js_UpsertWorker (sv_store D) x wk)) Q w"
proof -
  let ?x = "w_ext w (w_tick w)"
  obtain e s' where s: "js_UpsertWorker (sv_store D) ?x wk (w_store w) = (e, s')" by (metis surj_pair)
  let ?w = "w\<lparr>w_tick := Suc (w_tick w), w_store := s'\<rparr>"
  have "good ?w" using st.upsert_sound [OF good_call [OF w] s] w by (simp add: sound_world_def exts_ok_def)
  moreover have "e = None" "vw ?w = (vw w)\<lparr>w_store := (av (w_store w))\<lparr>a_workers :=
       (a_workers (av (w_store w)))(wk_ID wk \<mapsto> wk)\<rparr>\<rparr>"
    using st.upsert_total [OF good_call [OF w] s] by (simp_all add: view_fields)
  ultimately have "Q e ?w" using Q by simp
  then show ?thesis using s by (simp add: store_upd_def wp_simps)
qed

lemma wp_Heartbeat:
  assumes w: "good w"
    and unknown: "\<And>w' ids. good w' \<Longrightarrow> vw w' = vw w \<Longrightarrow> map_of (w_workers w) wid = None \<Longrightarrow>
      set ids = pending_for w wid \<Longrightarrow> Q (ids, None) w'"
    and known: "\<And>w' ids c t. good w' \<Longrightarrow> map_of (w_workers w) wid = Some c \<Longrightarrow> set ids = pending_for w wid \<Longrightarrow>
      vw w' = (let i = (wc_info c)\<lparr>wk_ActiveJobs := active, wk_Capacity := capacity, wk_LastHeartbeat := t,
                   wk_Status := WorkerStatusHealthy\<rparr> in
               (vw w)\<lparr>w_workers := gput wid (c\<lparr>wc_info := i\<rparr>) (w_workers w),
                 w_store := (av (w_store w))\<lparr>a_workers := (a_workers (av (w_store w)))(wk_ID i \<mapsto> i)\<rparr>\<rparr>) \<Longrightarrow>
      Q (ids, None) w'"
  shows "wp (Heartbeat D wid active capacity) Q w"
proof -
  have ids: "set (case map_of (w_pendingCancels w) wid of
      None \<Rightarrow> [] | Some cs \<Rightarrow> map fst (range_map (x_order (w_ext w n)) cs)) = pending_for w wid" for n
  proof (cases "map_of (w_pendingCancels w) wid")
    case (Some cs)
    have "order_ok (x_order (w_ext w n))" using good_ext [OF w] by (simp add: ext_ok_def)
    from set_range_map [OF this, of cs] Some show ?thesis
      by (force simp: pending_for_def)
  qed (simp add: pending_for_def)
  let ?x = "w_ext w (Suc (w_tick w))" and ?t = "x_now (w_ext w (w_tick w)) 0"
  show ?thesis
  proof (cases "map_of (w_workers w) wid")
    case None
    then show ?thesis
      using unknown [of "w\<lparr>w_tick := Suc (Suc (w_tick w))\<rparr>"] w ids [of "Suc (w_tick w)"]
      by (simp add: Heartbeat_def time_now_def wp_simps upd_worker_def view_fields)
  next
    case (Some c)
    let ?i = "(wc_info c)\<lparr>wk_ActiveJobs := active, wk_Capacity := capacity, wk_LastHeartbeat := ?t,
                   wk_Status := WorkerStatusHealthy\<rparr>"
    let ?w = "w\<lparr>w_workers := gput wid (c\<lparr>wc_info := ?i\<rparr>) (w_workers w), w_tick := Suc (Suc (w_tick w))\<rparr>"
    have upd: "upd_worker wid (\<lambda>i. i\<lparr>wk_ActiveJobs := active, wk_Capacity := capacity, wk_LastHeartbeat := ?t,
                   wk_Status := WorkerStatusHealthy\<rparr>) (w\<lparr>w_tick := Suc (w_tick w)\<rparr>) =
        w\<lparr>w_tick := Suc (w_tick w), w_workers := gput wid (c\<lparr>wc_info := ?i\<rparr>) (w_workers w)\<rparr>"
      using Some by (simp add: upd_worker_def)
    have "good ?w" using w by simp
    then have "wp (store_upd (\<lambda>x. js_UpsertWorker (sv_store D) x ?i))
      (\<lambda>e. Q (case map_of (w_pendingCancels w) wid of
          None \<Rightarrow> [] | Some cs \<Rightarrow> map fst (range_map (x_order ?x) cs), e)) ?w"
      by (rule wp_upsert) (rule known [OF _ Some ids], simp_all add: view_fields Let_def)
    with Some show ?thesis
      unfolding Heartbeat_def time_now_def wp_simps upd by (simp add: wp_simps cong: option.case_cong)
  qed
qed

lemma wp_RegisterWorker:
  assumes w: "good w"
    and fail: "\<And>w' e i. good w' \<Longrightarrow> wk_ID i = wk_ID wk \<Longrightarrow>
      vw w' = (vw w)\<lparr>w_store := (av (w_store w))\<lparr>a_workers := (a_workers (av (w_store w)))(wk_ID i \<mapsto> i)\<rparr>\<rparr> \<Longrightarrow>
      Q (Some e) w'"
    and ok: "\<And>w' i t. good w' \<Longrightarrow>
      i = wk\<lparr>wk_Status := WorkerStatusHealthy, wk_LastHeartbeat := t,
             wk_RegisteredAt := if wk_RegisteredAt wk = 0 then t else wk_RegisteredAt wk\<rparr> \<Longrightarrow>
      vw w' = (vw w)\<lparr>w_workers := gput (wk_ID i) \<lparr>wc_info = i\<rparr> (w_workers w),
         w_store := (av (w_store w))\<lparr>a_workers := (a_workers (av (w_store w)))(wk_ID i \<mapsto> i)\<rparr>\<rparr> \<Longrightarrow> Q None w'"
  shows "wp (RegisterWorker D wk) Q w"
proof -
  have "wp (store_upd (\<lambda>x. js_UpsertWorker (sv_store D) x i))
     (\<lambda>e. wp (case e of Some e \<Rightarrow> ret (Some e)
       | None \<Rightarrow> do {
          x \<leftarrow> next_ext;
          (case x_dial x of
             Some e \<Rightarrow> ret (Some e)
           | None \<Rightarrow> do {
               _ \<leftarrow> modifyS (\<lambda>w. w\<lparr>w_workers := gput (wk_ID i) \<lparr>wc_info = i\<rparr> (w_workers w)\<rparr>);
               _ \<leftarrow> emit D EventWorkerRegistered '''' '''' (wk_ID i) 0
                      (Some (JObj [(''address'', JStr (wk_Address i)), (''capacity'', JInt (wk_Capacity i))]));
               ret None }) }) Q) w1"
    if g1: "good w1" and v1: "vw w1 = vw w" and
      i: "i = wk\<lparr>wk_Status := WorkerStatusHealthy, wk_LastHeartbeat := t,
             wk_RegisteredAt := if wk_RegisteredAt wk = 0 then t else wk_RegisteredAt wk\<rparr>" for t w1 i
  proof (rule wp_upsert [OF g1], goal_cases)
    case (1 w2)
    let ?w = "w2\<lparr>w_tick := Suc (w_tick w2)\<rparr>"
    have ws: "w_workers w2 = w_workers w" using arg_cong [OF 1(2), of w_workers] arg_cong [OF v1, of w_workers] by simp
    have s1: "av (w_store w1) = av (w_store w)" using arg_cong [OF v1, of w_store] by simp
    have v2: "vw ?w = (vw w)\<lparr>w_store := (av (w_store w))\<lparr>a_workers := (a_workers (av (w_store w)))(wk_ID i \<mapsto> i)\<rparr>\<rparr>"
      using 1(2) by (simp add: view_fields v1 s1)
    show ?case
    proof (cases "x_dial (w_ext w2 (w_tick w2))")
      case (Some e)
      then show ?thesis using fail [of ?w i e] 1(1) v2 by (simp add: wp_simps i)
    next
      case None
      have "wp (emit D EventWorkerRegistered '''' '''' (wk_ID i) 0
                (Some (JObj [(''address'', JStr (wk_Address i)), (''capacity'', JInt (wk_Capacity i))])))
              (\<lambda>_. Q None) (?w\<lparr>w_workers := gput (wk_ID i) \<lparr>wc_info = i\<rparr> (w_workers ?w)\<rparr>)"
      proof (rule wp_emit, goal_cases)
        case (2 w3)
        then show ?case by (intro ok [OF _ i]) (simp_all add: view_fields v2 [unfolded view_fields] ws)
      qed (use 1(1) in simp)
      with None show ?thesis by (simp add: wp_simps)
    qed
  qed
  then show ?thesis
    unfolding RegisterWorker_def wp_simps Let_def
    by (intro wp_time_now [OF w]) (auto split: if_splits)
qed

lemma wp_Deregister:
  assumes w: "good w"
    and Q: "\<And>w'. good w' \<Longrightarrow> vw w' = (vw w)\<lparr>w_workers := gdel wid (w_workers w)\<rparr> \<Longrightarrow> Q None w'"
  shows "wp (Deregister D wid) Q w"
  unfolding Deregister_def wp_simps
  by (rule wp_emit) (use w Q in \<open>simp_all add: view_fields\<close>)

end

end
