(* ===== verification/ServiceInv.thy ===== *)
theory ServiceInv
  imports ApiWp SchedulerWorkers
begin

text \<open>
  An invariant that spans store, queue and scheduler, kept by every handler for every store,
  publisher and queue that meet the contracts: the messages that wait in the queue are for jobs of
  the store and carry the work of those jobs, and the registered workers are filed under their
  identifiers. No handler removes a job or changes what it is.
\<close>

section \<open>The invariant\<close>

definition carries :: "QueuedJob \<Rightarrow> Job \<Rightarrow> bool" where
  "carries m j \<longleftrightarrow>
     qj_JobID m = job_ID j \<and> qj_Name m = job_Name j \<and> qj_Type m = job_Type j \<and> qj_Payload m = job_Payload j \<and>
     qj_Priority m = job_Priority j \<and> qj_Timeout m = job_Timeout j"

definition carried :: "(string \<rightharpoonup> Job) \<Rightarrow> QueuedJob \<Rightarrow> bool" where
  "carried J m \<longleftrightarrow> (\<exists>j. J (qj_JobID m) = Some j \<and> carries m j)"

definition evolves :: "(string \<rightharpoonup> Job) \<Rightarrow> (string \<rightharpoonup> Job) \<Rightarrow> bool" where
  "evolves J K \<longleftrightarrow> (\<forall>jid j. J jid = Some j \<longrightarrow> (\<exists>k. K jid = Some k \<and> same_work j k))"

text \<open>
  A store that has grown: besides the jobs, every idempotency key still names its job, and no key
  has come to name a job that was there before.
\<close>

definition grown :: "AbsStore \<Rightarrow> AbsStore \<Rightarrow> bool" where
  "grown A B \<longleftrightarrow>
     evolves (a_jobs A) (a_jobs B) \<and>
     (\<forall>key jid. a_keys A key = Some jid \<longrightarrow> a_keys B key = Some jid) \<and>
     (\<forall>key jid. a_keys B key = Some jid \<longrightarrow> a_jobs A jid \<noteq> None \<longrightarrow> a_keys A key = Some jid)"

text \<open>The identifiers the outside world hands out are not those of the jobs \<open>J\<close>.\<close>

definition fresh_ids :: "(string \<rightharpoonup> Job) \<Rightarrow> ('s, 'q) World \<Rightarrow> bool" where
  "fresh_ids J w \<longleftrightarrow> (\<forall>n. J (x_uuid (w_ext w n) 0) = None)"

lemma carries_work: "carries m j \<Longrightarrow> same_work j k \<Longrightarrow> carries m k"
  by (simp add: carries_def same_work_def)

lemma carried_evolves: "carried J m \<Longrightarrow> evolves J K \<Longrightarrow> carried K m"
  unfolding carried_def evolves_def using carries_work by blast

lemma carried_stamp [simp]: "carried J (m\<lparr>qj_EnqueuedAt := t\<rparr>) = carried J m"
  by (simp add: carried_def carries_def)

lemma carries_queued_job: "same_work j k \<Longrightarrow> carries (queued_job t j) k"
  by (simp add: carries_def queued_job_def same_work_def)

lemma carried_queued_job: "J (job_ID j) = Some j \<Longrightarrow> carried J (queued_job t (j\<lparr>job_Metadata := md\<rparr>))"
  by (simp add: carried_def carries_def queued_job_def)

lemma evolves_refl [simp]: "evolves J J"
  by (simp add: evolves_def)

lemma grown_refl [simp]: "grown A A"
  by (simp add: grown_def)

lemma grown_evolves: "grown A B \<Longrightarrow> evolves (a_jobs A) (a_jobs B)"
  unfolding grown_def by blast

lemma grown_jobs:
  assumes "grown A B" "a_keys B' = a_keys B" "evolves (a_jobs A) (a_jobs B')"
  shows "grown A B'"
  using assms(1,3) unfolding grown_def assms(2) by blast

lemma grown_frame: "grown A B \<Longrightarrow> a_jobs B' = a_jobs B \<Longrightarrow> a_keys B' = a_keys B \<Longrightarrow> grown A B'"
  by (rule grown_jobs, assumption, assumption) (metis grown_evolves)

lemma grown_key:
  assumes "a_keys A key = None" "a_jobs A i = None" "evolves (a_jobs A) (a_jobs B)" "a_keys B = (a_keys A)(key \<mapsto> i)"
  shows "grown A B"
  unfolding grown_def assms(4) using assms(1-3) by (auto split: if_splits)

lemma evolves_trans: "evolves J K \<Longrightarrow> evolves K L \<Longrightarrow> evolves J L"
  unfolding evolves_def using same_work_trans by meson

lemma evolves_update:
  assumes "evolves J K" "K jid = Some j"
  shows "evolves J (K(jid \<mapsto> set_state t st f j))"
proof -
  have "evolves K (K(jid \<mapsto> set_state t st f j))" using assms(2) by (simp add: evolves_def)
  with assms(1) show ?thesis by (rule evolves_trans)
qed

lemma evolves_new: "evolves J K \<Longrightarrow> J jid = None \<Longrightarrow> evolves J (K(jid \<mapsto> j))"
  unfolding evolves_def by auto

lemma conns_ok_upd_worker:
  "(\<And>i. wk_ID (f i) = wk_ID i) \<Longrightarrow> conns_ok w \<Longrightarrow> conns_ok (upd_worker wid f w)"
  by (auto simp: conns_ok_def upd_worker_def split: option.splits if_splits)

lemma conns_ok_cong: "w_workers w = w_workers w' \<Longrightarrow> conns_ok w = conns_ok w'"
  by (simp add: conns_ok_def)

lemma slot_ids [simp]: "wk_ID (take_slot i) = wk_ID i" "wk_ID (release_slot i) = wk_ID i"
  by (simp_all add: take_slot_def release_slot_def)

lemma keeps_let [keeps_rules]: "(\<And>x. x = a \<Longrightarrow> keeps I (f x)) \<Longrightarrow> keeps I (Let a f)"
  by simp


section \<open>Every primitive keeps it\<close>

context scheduler_ctx
begin

definition served :: "AbsStore \<Rightarrow> ('s, 'q) World \<Rightarrow> bool" where
  "served A w \<longleftrightarrow>
     good w \<and> conns_ok w \<and> fresh_ids (a_jobs A) w \<and> grown A (w_store (vw w)) \<and>
     (\<forall>m\<in>#waiting (w_queue w). carried (a_jobs A) m)"

lemma served_fields:
  "served A (w\<lparr>w_tick := n\<rparr>) = served A w" "served A (w\<lparr>w_pendingCancels := pc\<rparr>) = served A w"
  "served A (w\<lparr>w_sent := rs\<rparr>) = served A w"
  "served A (drop_pending wid jid w) = served A w" "served A (add_pending wid jid w) = served A w"
  by (simp_all add: served_def fresh_ids_def conns_ok_def)

lemma keeps_next_ext [keeps_rules]: "keeps (served A) next_ext"
  by (simp add: keeps_def next_ext_def served_fields)

lemma keeps_readers [keeps_rules]:
  "keeps (served A) time_now" "keeps (served A) new_uuid" "keeps (served A) rand_float"
  "keeps (served A) (store_get f)" "keeps (served A) (backoff D p a)" "keeps (served A) (getJob D jid)"
  "keeps (served A) pickWorker"
  unfolding time_now_def new_uuid_def rand_float_def store_get_def backoff_def getJob_def pickWorker_def
  by (intro keeps_rules)+

lemma keeps_store_upd:
  assumes "\<And>x s a s'. ext_ok x \<Longrightarrow> sinv s \<Longrightarrow> f x s = (a, s') \<Longrightarrow> a_jobs A (x_uuid x 0) = None \<Longrightarrow>
      grown A (av s) \<Longrightarrow> sinv s' \<and> grown A (av s')"
  shows "keeps (served A) (store_upd f)"
  unfolding keeps_def
proof (intro allI impI)
  fix w
  assume w: "served A w"
  obtain a s' where s: "f (w_ext w (w_tick w)) (w_store w) = (a, s')" by (metis surj_pair)
  have "sinv s' \<and> grown A (av s')"
    using w by (intro assms [OF _ _ s]) (auto simp: served_def sound_world_def exts_ok_def fresh_ids_def)
  with s w show "served A (exec (store_upd f) w)"
    by (simp add: store_upd_def next_ext_def served_def sound_world_def exts_ok_def conns_ok_def fresh_ids_def)
qed

lemma keeps_updateJobStateIf [keeps_rules]:
  "keeps (served A) (store_upd (\<lambda>x. js_UpdateJobStateIf (sv_store D) x jid st f only))"
proof (rule keeps_store_upd)
  fix x s a s'
  assume a: "ext_ok x" "sinv s" "js_UpdateJobStateIf (sv_store D) x jid st f only s = (a, s')" "grown A (av s)"
  have "evolves (a_jobs A) (a_jobs (av s'))"
    using st.update_exact(3) [OF a(1-3)] grown_evolves [OF a(4)] evolves_update by metis
  then show "sinv s' \<and> grown A (av s')" using st.update_sound [OF a(1-3)] grown_jobs [OF a(4)] by simp
qed

lemma keeps_frame:
  assumes "\<And>x s a s'. ext_ok x \<Longrightarrow> sinv s \<Longrightarrow> f x s = (a, s') \<Longrightarrow>
      sinv s' \<and> a_jobs (av s') = a_jobs (av s) \<and> a_keys (av s') = a_keys (av s)"
  shows "keeps (served A) (store_upd f)"
  by (rule keeps_store_upd) (use assms grown_frame in blast)

lemma keeps_calls [keeps_rules]:
  "keeps (served A) (updateJobState D jid st f)"
  "keeps (served A) (store_upd (\<lambda>x. js_CreateExecution (sv_store D) x ex))"
  "keeps (served A) (store_upd (\<lambda>x. js_UpsertWorker (sv_store D) x wk))"
  "keeps (served A) (store_upd (\<lambda>x. js_MarkStaleWorkers (sv_store D) x d1 d2))"
  "keeps (served A) (store_upd (\<lambda>x. js_FinishExecution (sv_store D) x xid est r))"
  unfolding updateJobState_def js_UpdateJobState_def
  by (rule keeps_updateJobStateIf)
    (rule keeps_frame, erule (2) st.execution_sound st.upsert_sound st.stale_sound st.finish_sound)+

lemma keeps_Emit [keeps_rules]:
  "keeps (served A) (store_upd (\<lambda>x. ep_Emit (sv_events D) x et jid xid wid attempt payload))"
  by (rule keeps_frame) (use ev.emit_frame in simp)

lemma keeps_emit [keeps_rules]: "keeps (served A) (emit D et jid xid wid attempt payload)"
  unfolding emit_def by (intro keeps_rules)

lemma keeps_finishExecution [keeps_rules]: "keeps (served A) (finishExecution D xid est r)"
  unfolding finishExecution_def by (intro keeps_rules)

lemma keeps_createChild [keeps_rules]:
  "keeps (served A) (store_upd (\<lambda>x. js_CreateJob (sv_store D) x (child_job job nxt)))"
proof (rule keeps_store_upd)
  fix x s a s'
  assume a: "ext_ok x" "sinv s" "js_CreateJob (sv_store D) x (child_job job nxt) s = (a, s')"
    "a_jobs A (x_uuid x 0) = None" "grown A (av s)"
  have "new_id x (child_job job nxt) = x_uuid x 0" "job_IdempotencyKey (child_job job nxt) = ''''"
    by (simp_all add: new_id_def child_job_def)
  with st.create_total [OF a(1-3)] obtain c where
    "av s' = (av s)\<lparr>a_jobs := (a_jobs (av s))(x_uuid x 0 \<mapsto> c), a_keys := a_keys (av s)\<rparr>" by (auto simp: Let_def)
  then have "grown A (av s')"
    using grown_jobs [OF a(5), of "av s'"] evolves_new [OF grown_evolves [OF a(5)] a(4)] by simp
  with st.create_sound [OF a(1-3)] show "sinv s' \<and> grown A (av s')" by simp
qed

lemma keeps_enqueue:
  assumes "carried (a_jobs A) m"
  shows "keeps (served A) (queue_upd (\<lambda>x. q_Enqueue (sv_queue D) x m))"
  unfolding keeps_def
proof (intro allI impI)
  fix w
  assume w: "served A w"
  obtain e q' where q: "q_Enqueue (sv_queue D) (w_ext w (w_tick w)) m (w_queue w) = (e, q')" by (metis surj_pair)
  have "\<forall>m\<in>#waiting q'. carried (a_jobs A) m"
  proof (cases "accepting (w_queue w)")
    case True
    from qu.enqueue_accepted [OF True q] w assms show ?thesis by (auto simp: served_def)
  next
    case False
    from qu.enqueue_refused [OF False q] w show ?thesis by (auto simp: served_def)
  qed
  with q w show "served A (exec (queue_upd (\<lambda>x. q_Enqueue (sv_queue D) x m)) w)"
    by (simp add: queue_upd_def next_ext_def served_def fresh_ids_def conns_ok_def)
qed

text \<open>The scheduler's own maps.\<close>

lemma keeps_maps [keeps_rules]:
  "keeps (served A) (modifyS (drop_pending wid jid))"
  "keeps (served A) (modifyS (add_pending wid jid))"
  "keeps (served A) (modifyS (\<lambda>w. w\<lparr>w_pendingCancels := f w\<rparr>))"
  "keeps (served A) (modifyS (\<lambda>w. w\<lparr>w_sent := g w\<rparr>))"
  by (rule keeps_modifyS, simp only: served_fields)+

lemma keeps_upd_worker:
  "(\<And>i. wk_ID (f i) = wk_ID i) \<Longrightarrow> keeps (served A) (modifyS (upd_worker wid f))"
  by (rule keeps_modifyS) (simp add: served_def fresh_ids_def conns_ok_upd_worker)

lemma keeps_slots [keeps_rules]:
  "keeps (served A) (modifyS (upd_worker wid take_slot))" "keeps (served A) (modifyS (upd_worker wid release_slot))"
  by (rule keeps_upd_worker, simp)+

lemma keeps_gput_worker [keeps_rules]:
  "keeps (served A) (modifyS (\<lambda>w. w\<lparr>w_workers := gput (wk_ID i) \<lparr>wc_info = i\<rparr> (w_workers w)\<rparr>))"
  by (rule keeps_modifyS) (auto simp: served_def fresh_ids_def conns_ok_def)

lemma keeps_gdel_worker [keeps_rules]:
  "keeps (served A) (modifyS (\<lambda>w. w\<lparr>w_workers := gdel wid (w_workers w)\<rparr>))"
  by (rule keeps_modifyS) (auto simp: served_def fresh_ids_def conns_ok_def)


section \<open>Every handler keeps it\<close>

lemma keeps_client [keeps_rules]:
  "keeps (served A) (client_ExecuteJob wid m xid)" "keeps (served A) (client_CancelJob wid jid xid)"
  "keeps (served A) (cancel_on_worker wid jid xid)"
  unfolding client_ExecuteJob_def client_CancelJob_def cancel_on_worker_def by (intro keeps_rules)+

lemma keeps_handleQueuedJob: "keeps (served A) (handleQueuedJob D m)"
  unfolding handleQueuedJob_def assign_job_def push_job_def start_job_def by (intro keeps_rules)

lemma keeps_RegisterWorker: "keeps (served A) (RegisterWorker D wk)"
  unfolding RegisterWorker_def by (intro keeps_rules)

lemma keeps_Heartbeat: "keeps (served A) (Heartbeat D wid active capacity)"
  unfolding Heartbeat_def by (intro keeps_rules keeps_upd_worker) simp

lemma keeps_Deregister: "keeps (served A) (Deregister D wid)"
  unfolding Deregister_def by (intro keeps_rules)

lemma keeps_RequestCancel: "keeps (served A) (RequestCancel D jid)"
  unfolding RequestCancel_def by (intro keeps_rules)

lemma keeps_HandleResult [keeps_rules]: "keeps (served A) (HandleResult D jid xid wid attempt r)"
  unfolding HandleResult_def clearPendingCancel_def result_cancelled_def result_success_def result_timeout_def
    result_failed_def maybeRescheduleRecurring_def
  by (intro keeps_rules)

lemma keeps_pushPendingCancels: "keeps (served A) (pushPendingCancels D)"
  unfolding pushPendingCancels_def push_cancel_def by (intro keeps_rules)

lemma keeps_watchdogTimeouts: "keeps (served A) (watchdogTimeouts D)"
  unfolding watchdogTimeouts_def watchdog_job_def by (intro keeps_rules)

lemma keeps_checkWorkers: "keeps (served A) (checkWorkers D)"
  unfolding checkWorkers_def lose_worker_def recoverWorkerJobs_def recover_job_def by (intro keeps_rules)

lemma keeps_cancelJob: "keeps (served A) (cancelJob D jid)"
  unfolding cancelJob_def by (intro keeps_rules)

lemma keeps_promote_job: "a_jobs A (job_ID j) = Some j \<Longrightarrow> keeps (served A) (promote_job D (j\<lparr>job_Metadata := md\<rparr>))"
  unfolding promote_job_def by (intro keeps_rules keeps_enqueue carried_queued_job)

text \<open>A promotion pass starts in the world whose jobs the invariant speaks about.\<close>

lemma served_promoteDueJobs:
  assumes "served (w_store (vw w)) w"
  shows "served (w_store (vw w)) (exec (promoteDueJobs D) w)"
proof -
  let ?A = "w_store (vw w)" and ?x = "w_ext w (w_tick w)" and ?w = "w\<lparr>w_tick := Suc (w_tick w)\<rparr>"
  have w: "good w" using assms by (simp add: served_def)
  obtain js where js: "js_ListDueScheduled (sv_store D) ?x (sch_AssignBatchSize (sv_cfg D)) (w_store w) = Inr js"
    "listing (a_jobs ?A) (is_due (x_now ?x 0)) (sch_AssignBatchSize (sv_cfg D)) js"
    using st.due_total [OF good_call [OF w], of "sch_AssignBatchSize (sv_cfg D)"] by auto
  have "keeps (served ?A) (promote_job D k)" if k: "k \<in> set js" for k
  proof -
    obtain j md where j: "a_jobs ?A (job_ID k) = Some j" "k = j\<lparr>job_Metadata := md\<rparr>"
      using listing_mem [OF js(2) k] by auto
    then have "a_jobs ?A (job_ID j) = Some j" by simp
    from keeps_promote_job [where A = ?A, OF this] j(2) show ?thesis by simp
  qed
  then have "keeps (served ?A) (for_each (promote_job D) js)" by (rule keeps_for_each)
  from keepsD [OF this, of ?w] assms show ?thesis
    using js(1) by (simp add: promoteDueJobs_def store_get_def next_ext_def served_fields split_beta)
qed

lemma served_poll_tick:
  assumes "served (w_store (vw w)) w"
  shows "served (w_store (vw w)) (exec (poll_tick D) w)"
proof -
  let ?A = "w_store (vw w)"
  have "keeps (served ?A) (pushPendingCancels D \<bind> (\<lambda>_. watchdogTimeouts D \<bind> (\<lambda>_. checkWorkers D \<bind> (\<lambda>_. ret ()))))"
    by (intro keeps_rules keeps_pushPendingCancels keeps_watchdogTimeouts keeps_checkWorkers)
  from keepsD [OF this served_promoteDueJobs [OF assms]] show ?thesis
    by (simp add: poll_tick_def split_beta)
qed

text \<open>
  A creation may enqueue the job it has just created: it leads to a world whose messages are for
  its own jobs.
\<close>

definition alive :: "('s, 'q) World \<Rightarrow> bool" where
  "alive w \<longleftrightarrow> good w \<and> conns_ok w \<and> (\<forall>m\<in>#waiting (w_queue w). carried (v_jobs (vw w)) m)"

lemma served_self: "alive w \<Longrightarrow> fresh_ids (v_jobs (vw w)) w \<Longrightarrow> served (w_store (vw w)) w"
  by (simp add: alive_def served_def)

lemma served_alive: "served A w \<Longrightarrow> alive w \<and> grown A (w_store (vw w))"
  unfolding alive_def served_def using carried_evolves grown_evolves by blast

lemma alive_keeps:
  assumes "alive w" "fresh_ids (v_jobs (vw w)) w" "\<And>A. keeps (served A) m"
  shows "alive (exec m w) \<and> grown (w_store (vw w)) (w_store (vw (exec m w)))"
  by (rule served_alive) (rule keepsD [OF assms(3) served_self [OF assms(1,2)]])

lemma enqueued_sel:
  assumes "enqueued job jid j now v v'"
  shows "\<exists>t t'. v_jobs v' = (v_jobs v)(jid \<mapsto> set_state t JobStateQueued [(''queued_at'', AnyTime now)] j) \<and>
     waiting (w_queue v') = add_mset (queued_job t' job) (waiting (w_queue v)) \<and> w_workers v' = w_workers v \<and>
     a_keys (w_store v') = a_keys (w_store v)"
  using assms unfolding enqueued_def by auto

lemma alive_created:
  assumes w: "alive w" and w': "good w'" and conns: "w_workers (vw w') = w_workers (vw w)"
    and ev: "grown (w_store (vw w)) (w_store (vw w'))"
    and q: "waiting (w_queue (vw w')) = waiting (w_queue (vw w)) \<or>
       (\<exists>m. waiting (w_queue (vw w')) = add_mset m (waiting (w_queue (vw w))) \<and> carried (v_jobs (vw w')) m)"
  shows "alive w'"
proof -
  have "\<forall>m\<in>#waiting (w_queue w). carried (v_jobs (vw w')) m"
    using w carried_evolves [OF _ grown_evolves [OF ev]] by (simp add: alive_def)
  with q have "\<forall>m\<in>#waiting (w_queue w'). carried (v_jobs (vw w')) m" by auto
  moreover have "conns_ok w'" using w conns conns_ok_cong [of w' w] by (simp add: alive_def)
  ultimately show ?thesis using w' by (simp add: alive_def)
qed

lemma wp_submit_alive:
  assumes w: "alive w" and fresh: "v_jobs (vw w) (job_ID job) = None" and jid: "job_ID job \<noteq> ''''"
    and at: "job_ScheduledAt job = Some a"
  shows "wp (submit_job D now job) (\<lambda>_ w'. alive w' \<and> grown (w_store (vw w)) (w_store (vw w'))) w"
proof -
  have g: "good w" using w by (simp add: alive_def)
  let ?i = "job_ID job"
  show ?thesis
  proof (cases "key_used (vw w) (job_IdempotencyKey job)")
    case False
    have gn: "grown (w_store (vw w)) (w_store (put_new ?i k (vw w)))"
      if "job_IdempotencyKey k = job_IdempotencyKey job" for k
    proof (cases "job_IdempotencyKey job = []")
      case True
      show ?thesis
        by (rule grown_jobs [OF grown_refl]) (simp_all add: that True evolves_new fresh [simplified])
    next
      case ne: False
      with False have "a_keys (w_store (vw w)) (job_IdempotencyKey job) = None" by (simp add: key_used_def)
      from grown_key [OF this fresh] ne that show ?thesis by (simp add: evolves_new fresh [simplified])
    qed
    have new: "alive w' \<and> grown (w_store (vw w)) (w_store (vw w'))"
      if "good w'" "vw w' = put_new ?i (stored job ?i t md) (vw w)" for w' t md
    proof -
      have ev: "grown (w_store (vw w)) (w_store (vw w'))" unfolding that(2) by (rule gn) simp
      have "alive w'" by (rule alive_created [OF w that(1) _ ev]) (simp_all only: that(2) put_new_sel simp_thms)
      with ev show ?thesis by simp
    qed
    show ?thesis
    proof (rule wp_submit_new [OF g False jid at], goal_cases)
      case (2 w' t md now')
      let ?s = "stored job ?i t md"
      obtain u u' where v: "v_jobs (vw w') = (v_jobs (vw w))(?i \<mapsto> ?s, ?i \<mapsto> set_state u JobStateQueued [(''queued_at'', AnyTime now')] ?s)"
        "waiting (w_queue (vw w')) = add_mset (queued_job u' job) (waiting (w_queue (vw w)))" "w_workers (vw w') = w_workers (vw w)"
        "a_keys (w_store (vw w')) = a_keys (w_store (put_new ?i ?s (vw w)))"
        using enqueued_sel [OF 2(5)] by auto
      have "evolves (v_jobs (vw w)) (v_jobs (vw w'))"
        unfolding v(1) by (intro evolves_new evolves_refl fresh)
      then have ev: "grown (w_store (vw w)) (w_store (vw w'))"
        by (rule grown_jobs [OF gn [of ?s] v(4), rotated]) simp
      have "carried (v_jobs (vw w')) (queued_job u' job)"
        unfolding v(1) by (simp add: carried_def carries_def queued_job_def stored_def)
      then have "alive w'" by (intro alive_created [OF w 2(1) v(3) ev] disjI2 exI [of _ "queued_job u' job"] conjI v(2))
      with ev show ?case by simp
    qed (use new in blast)+
  next
    case True
    show ?thesis
    proof (rule wp_submit_replay [OF g True], goal_cases)
      case (1 w' jid j md)
      show ?case using alive_created [OF w 1(1)] 1(5) by simp
    next
      case (2 w' jid j md now')
      have i: "job_ID j = jid" using st.ids [of "w_store w"] g 2(3) by (simp add: sound_world_def)
      obtain u u' where v: "v_jobs (vw w') = (v_jobs (vw w))(jid \<mapsto> set_state u JobStateQueued [(''queued_at'', AnyTime now')] j)"
        "waiting (w_queue (vw w')) = add_mset (queued_job u' j) (waiting (w_queue (vw w)))" "w_workers (vw w') = w_workers (vw w)"
        "a_keys (w_store (vw w')) = a_keys (w_store (vw w))"
        using enqueued_sel [OF 2(6)] by auto
      have "evolves (v_jobs (vw w)) (v_jobs (vw w'))"
        unfolding v(1) by (intro evolves_update evolves_refl 2(3))
      then have ev: "grown (w_store (vw w)) (w_store (vw w'))" by (rule grown_jobs [OF grown_refl v(4)])
      have "carried (v_jobs (vw w')) (queued_job u' j)"
        unfolding v(1) by (simp add: carried_def carries_def queued_job_def i)
      then have "alive w'" by (intro alive_created [OF w 2(1) v(3) ev] disjI2 exI [of _ "queued_job u' j"] conjI v(2))
      with ev show ?case by simp
    next
      case (3 w' msg)
      show ?case using alive_created [OF w 3(1)] 3(3) by simp
    qed
  qed
qed

lemma alive_view:
  assumes "alive w" "good w'" "vw w' = vw w"
  shows "alive w'"
  by (rule alive_created [OF assms(1,2)]) (simp_all add: assms(3))

lemma alive_createJob:
  assumes w: "alive w" and fresh: "fresh_ids (v_jobs (vw w)) w"
  shows "alive (exec (createJob D body) w) \<and> grown (w_store (vw w)) (w_store (vw (exec (createJob D body) w)))"
proof -
  let ?Q = "\<lambda>_ w'. alive w' \<and> grown (w_store (vw w)) (w_store (vw w'))"
  have g: "good w" using w by (simp add: alive_def)
  have same: "?Q r w'" if "good w'" "vw w' = vw w" for r w' using that alive_view [OF w] by simp
  have "wp (createJob D body) ?Q w"
  proof (cases body)
    case (Inl e)
    with w show ?thesis by (simp add: createJob_def wp_simps)
  next
    case (Inr req)
    show ?thesis
    proof (cases "check_request (sv_cron D) 0 req")
      case (Inl msg)
      show ?thesis unfolding \<open>body = Inr req\<close> by (rule wp_createJob_invalid [OF g Inl]) (rule same)
    next
      case r: (Inr r)
      show ?thesis
        unfolding Inr
      proof (rule wp_createJob_valid [OF g r], goal_cases)
        case (1 w1 now n a)
        let ?j = "(new_job r (x_uuid (w_ext w n) 0))\<lparr>job_State := JobStateScheduled, job_ScheduledAt := Some a\<rparr>"
        have "v_jobs (vw w1) (job_ID ?j) = None" using fresh 1(2) by (simp add: new_job_def fresh_ids_def)
        moreover have "job_ID ?j \<noteq> ''''" using good_ext [OF g, of n] by (simp add: new_job_def ext_ok_def)
        ultimately have "wp (submit_job D now ?j) (\<lambda>_ w'. alive w' \<and> grown (w_store (vw w1)) (w_store (vw w'))) w1"
          by (rule wp_submit_alive [OF alive_view [OF w 1(1,2)]]) simp
        then show ?case using 1(2) by simp
      qed
    qed
  qed
  then show ?thesis by (rule wp_execD)
qed

section \<open>Jobs that are over\<close>

text \<open>No handler of the scheduler touches a job in a terminal state.\<close>

definition untouched :: "(Job \<Rightarrow> bool) \<Rightarrow> ('s, 'q) World \<Rightarrow> ('s, 'q) World \<Rightarrow> bool" where
  "untouched P w w' \<longleftrightarrow> (\<forall>jid j. v_jobs (vw w) jid = Some j \<longrightarrow> P j \<longrightarrow> v_jobs (vw w') jid = Some j)"

abbreviation ended :: "Job \<Rightarrow> bool" where
  "ended j \<equiv> terminal (job_State j)"

lemma untouched_same: "v_jobs (vw w') = v_jobs (vw w) \<Longrightarrow> untouched P w w'"
  by (simp add: untouched_def)

lemma jobs_of: "vw w' = u \<Longrightarrow> v_jobs (vw w') = v_jobs u"
  by simp

lemma untouched_trans: "untouched P w w' \<Longrightarrow> untouched P w' w'' \<Longrightarrow> untouched P w w''"
  by (simp add: untouched_def)

lemma untouched_put:
  assumes "v_jobs (vw w') = (v_jobs (vw w))(jid \<mapsto> k)" "\<And>j. v_jobs (vw w) jid = Some j \<Longrightarrow> \<not> P j"
  shows "untouched P w w'"
  using assms unfolding untouched_def by (metis fun_upd_other)

lemma wp_HandleResult_ended:
  assumes w: "good w" and fresh: "fresh_ids (v_jobs (vw w)) w"
  shows "wp (HandleResult D jid xid wid attempt r) (\<lambda>_ w'. good w' \<and> untouched ended w w') w"
proof (rule wp_HandleResult [OF w], goal_cases)
  case (1 w')
  from arg_cong [OF 1(3), of v_jobs] 1(1) show ?case by (simp add: untouched_same)
next
  case (2 w' job)
  from arg_cong [OF 2(4), of v_jobs] 2(1) show ?case by (simp add: untouched_same)
next
  case (3 w' job)
  let ?r = "default_reason r" and ?v = "drop_pending wid jid (upd_worker wid release_slot (vw w))"
  have "untouched ended w w'"
  proof (cases "settled_state job attempt ?r = JobStateCompleted")
    case False
    from settled_jobs [OF 3(4) False] obtain k where "v_jobs (vw w') = (v_jobs (vw w))(jid \<mapsto> k)" by auto
    then show ?thesis by (rule untouched_put) (use 3(2,3) in simp)
  next
    case True
    from 3(4) True obtain now t t' k where
      re: "respawned D job now (put_job jid k (end_exec xid (settled_exec job ?r) ?r t ?v)) (vw w')"
      unfolding settled_def Let_def by auto
    have "v_jobs (vw w') = (v_jobs (vw w))(jid \<mapsto> k) \<or>
        (\<exists>n c. v_jobs (vw w') = (v_jobs (vw w))(jid \<mapsto> k, x_uuid (w_ext w n) 0 \<mapsto> c))"
      using re unfolding respawned_def Let_def by (fastforce split: sum.splits if_splits dest!: jobs_of)
    then show ?thesis
      using 3(2,3) fresh unfolding untouched_def fresh_ids_def by (metis fun_upd_apply option.distinct(1) option.inject)
  qed
  with 3(1) show ?case by simp
qed

lemma wp_handleQueuedJob_ended:
  assumes w: "good w" "conns_ok w"
  shows "wp (handleQueuedJob D m) (\<lambda>_ w'. good w' \<and> untouched ended w w') w"
proof -
  have q: "\<not> ended j" if "queueable (job_State j)" for j using that by (auto simp: queueable_def terminal_def)
  have p: "v_jobs u = (v_jobs (vw w))(qj_JobID m \<mapsto> k)" if "pushed m j wid xid (vw w) u" "k = the (v_jobs u (qj_JobID m))" for u k j wid xid
    using that unfolding pushed_def by auto
  show ?thesis
  proof (rule wp_handleQueuedJob [OF w], goal_cases)
    case (4 w' j wid xid e n i)
    show ?case using untouched_put [OF p [OF 4(6) refl], of ended] 4(1-3) q by simp
  next
    case (5 w' j wid xid u n i)
    from 5(7) obtain k where "v_jobs (vw w') = (v_jobs u)(qj_JobID m \<mapsto> k)"
      unfolding started_def by (auto dest!: jobs_of)
    then have "v_jobs (vw w') = (v_jobs (vw w))(qj_JobID m \<mapsto> k)" using p [OF 5(6) refl] by (metis fun_upd_upd)
    from untouched_put [OF this, of ended] 5(1-3) q show ?case by simp
  qed (auto intro: untouched_same)
qed

lemma wp_promote_ended: "wp (promoteDueJobs D) (\<lambda>_ w'. good w' \<and> untouched ended w w') w" if w: "good w"
proof -
  let ?I = "\<lambda>w'. good w' \<and> untouched ended w w'"
  have "wp (promote_job D k) (\<lambda>_. ?I) u" if u: "?I u" for k u
  proof -
    have "wp (queue_upd f) (\<lambda>e u'. vw u' = (vw u)\<lparr>w_queue := w_queue u'\<rparr> \<and> good u') u1"
      if "good u1" "vw u1 = vw u" for u1 and f :: "ext \<Rightarrow> 'q \<Rightarrow> Error option \<times> 'q"
      using that by (auto simp: queue_upd_def wp_simps view_fields split: prod.splits)
    note enq = this
    show ?thesis
      unfolding promote_job_def wp_simps
    proof (rule wp_time_now [OF conjunct1 [OF u]], rule wp_mono, rule enq, assumption, assumption, goal_cases)
      case (1 t u1 e u2)
      then have j2: "v_jobs (vw u2) = v_jobs (vw u)" and g2: "good u2" by auto
      show ?case
      proof (cases e)
        case (Some err)
        then show ?thesis using g2 untouched_trans [OF conjunct2 [OF u] untouched_same [OF j2]] by (simp add: wp_simps)
      next
        case None
        show ?thesis
          unfolding None option.case wp_simps
        proof (rule wp_time_now [OF g2], rule wp_updateJobStateIf, assumption, goal_cases)
          case (3 now u3 u4 j t')
          have "v_jobs (vw u4) = (v_jobs (vw u))(job_ID k \<mapsto> set_state t' JobStateQueued [(''queued_at'', AnyTime now)] j)"
            using arg_cong [OF 3(6), of v_jobs] 3(2) j2 by simp
          then have "untouched ended u u4" by (rule untouched_put) (use 3(2,4,5) j2 in \<open>auto simp: terminal_def\<close>)
          from wp_emit [OF 3(3)] untouched_trans [OF conjunct2 [OF u] untouched_trans [OF this untouched_same]] show ?case
            by (metis (mono_tags, lifting))
        qed (use untouched_trans [OF conjunct2 [OF u] untouched_same] j2 in \<open>auto intro!: wp_emit dest!: jobs_of\<close>)
      qed
    qed
  qed
  note one = this
  have "wp (for_each (promote_job D) js) (\<lambda>_. ?I) u" if "?I u" for js u
    by (rule wp_for_each [where I = "\<lambda>_. ?I"]) (use that one in auto)
  moreover have "?I (w\<lparr>w_tick := n\<rparr>)" for n using w by (simp add: untouched_same)
  ultimately show ?thesis
    unfolding promoteDueJobs_def store_get_def wp_simps by (auto simp: wp_simps split: sum.splits)
qed

lemma wp_push_ended: "good w \<Longrightarrow> wp (pushPendingCancels D) (\<lambda>_ w'. good w' \<and> untouched ended w w') w"
proof (rule wp_pushPendingCancels, assumption, goal_cases)
  case (1 w' js)
  have "\<not> ended j" if "jid \<in> job_ID ` set js" "v_jobs (vw w) jid = Some j" for jid j
    using listing_mem [OF 1(3)] that by (force simp: terminal_def)
  then have "untouched ended w w'"
    using 1(4) unfolding untouched_def push_pass_def by metis
  with 1(2) show ?case by simp
qed

lemma wp_watchdog_ended: "good w \<Longrightarrow> wp (watchdogTimeouts D) (\<lambda>_ w'. good w' \<and> untouched ended w w') w"
proof (rule wp_watchdogTimeouts, assumption, goal_cases)
  case (1 w' js n)
  have "\<not> ended j" if "jid \<in> job_ID ` set js" "v_jobs (vw w) jid = Some j" for jid j
    using listing_mem [OF 1(3)] that by (force simp: terminal_def is_overdue_def)
  then have "untouched ended w w'"
    using 1(4) unfolding untouched_def expiry_def by metis
  with 1(2) show ?case by simp
qed

lemma wp_check_ended:
  assumes "good w" scan_ok
  shows "wp (checkWorkers D) (\<lambda>_ w'. good w' \<and> untouched ended w w') w"
proof (rule wp_checkWorkers [OF assms], goal_cases)
  case (1 w' una n v1)
  have "after_loss (set una) (v_jobs v1 jid) (v_jobs (vw w') jid)" for jid
    using 1(5) unfolding loss_def by blast
  moreover have "v_jobs v1 = v_jobs (vw w)" using 1(4) by simp
  moreover have "\<not> ended j" if "owned j" for j using that by (auto simp: owned_def terminal_def)
  ultimately have "untouched ended w w'" unfolding untouched_def after_loss_def by (metis option.inject)
  with 1(1) show ?case by simp
qed

lemma wp_poll_tick_ended:
  assumes w: "good w" and cfg: scan_ok
  shows "wp (poll_tick D) (\<lambda>_ w'. good w' \<and> untouched ended w w') w"
  unfolding poll_tick_def wp_simps
proof (rule wp_mono [OF wp_promote_ended [OF w]], elim conjE, goal_cases)
  case (1 a1 w1)
  show ?case
  proof (rule wp_mono [OF wp_push_ended [OF 1(1)]], elim conjE, goal_cases)
    case (1 a2 w2)
    show ?case
    proof (rule wp_mono [OF wp_watchdog_ended [OF 1(1)]], elim conjE, goal_cases)
      case (1 a3 w3)
      show ?case
        by (rule wp_mono [OF wp_check_ended [OF 1(1) cfg]])
          (use \<open>untouched ended w w1\<close> \<open>untouched ended w1 w2\<close> 1(2) untouched_trans in blast)
    qed
  qed
qed

text \<open>A client's cancellation leaves completed, cancelled and expired jobs alone; a creation every job.\<close>

abbreviation settled_for_good :: "Job \<Rightarrow> bool" where
  "settled_for_good j \<equiv> cancel_terminal (job_State j)"

lemma untouched_ended: "untouched ended w w' \<Longrightarrow> untouched settled_for_good w w'"
  unfolding untouched_def by (auto simp: cancel_terminal_def terminal_def)

lemma wp_cancelJob_ended:
  assumes w: "good w"
  shows "wp (cancelJob D jid) (\<lambda>_ w'. good w' \<and> untouched settled_for_good w w') w"
proof (rule wp_cancelJob [OF w], goal_cases)
  case (3 w' j t)
  from jobs_of [OF 3(4)] have "v_jobs (vw w') = (v_jobs (vw w))(jid \<mapsto> set_state t JobStateCancelRequested [] j)" by simp
  from untouched_put [OF this, of settled_for_good] 3(1-3) show ?case by (auto simp: cancel_terminal_def)
next
  case (4 w' j t now)
  from jobs_of [OF 4(5)]
  have "v_jobs (vw w') = (v_jobs (vw w))(jid \<mapsto> set_state t JobStateCancelled [(''completed_at'', AnyTime now)] j)" by simp
  from untouched_put [OF this, of settled_for_good] 4(1-3) show ?case by auto
qed (auto intro: untouched_same)

text \<open>The jobs a creation may not touch: all but the one its idempotency key names.\<close>

definition other_key :: "CreateJobRequest res \<Rightarrow> AbsStore \<Rightarrow> string \<Rightarrow> bool" where
  "other_key body A jid \<longleftrightarrow>
     (case body of Inl e \<Rightarrow> True
      | Inr req \<Rightarrow> cr_IdempotencyKey req = '''' \<or> a_keys A (cr_IdempotencyKey req) \<noteq> Some jid)"

lemma wp_createJob_others:
  assumes w: "good w" and fresh: "fresh_ids (v_jobs (vw w)) w"
    and jid: "v_jobs (vw w) jid = Some j" "other_key body (w_store (vw w)) jid"
  shows "wp (createJob D body) (\<lambda>_ w'. good w' \<and> v_jobs (vw w') jid = Some j) w"
proof (cases body)
  case (Inl e)
  with w jid show ?thesis by (simp add: createJob_def wp_simps)
next
  case (Inr req)
  show ?thesis
  proof (cases "check_request (sv_cron D) 0 req")
    case (Inl msg)
    show ?thesis unfolding \<open>body = Inr req\<close>
      by (rule wp_createJob_invalid [OF w Inl]) (use jid(1) in simp)
  next
    case r: (Inr r)
    show ?thesis
      unfolding Inr
    proof (rule wp_createJob_valid [OF w r], goal_cases)
      case (1 w1 now n a)
      let ?i = "x_uuid (w_ext w n) 0"
      let ?j = "(new_job r ?i)\<lparr>job_State := JobStateScheduled, job_ScheduledAt := Some a\<rparr>"
      have j: "job_ID ?j = ?i" "job_IdempotencyKey ?j = cr_IdempotencyKey req" "job_ID ?j \<noteq> ''''"
        using check_request_valid(11) [OF r] good_ext [OF w, of n] by (simp_all add: new_job_def ext_ok_def)
      have ne: "jid \<noteq> ?i" using fresh jid(1) by (auto simp: fresh_ids_def)
      have j1: "v_jobs (vw w1) jid = Some j" using jid(1) 1(2) by simp
      show ?case
      proof (cases "key_used (vw w1) (job_IdempotencyKey ?j)")
        case False
        show ?thesis
        proof (rule wp_submit_new [OF 1(1) False j(3)], simp, goal_cases)
          case (1 w' t md)
          from jobs_of [OF 1(4)] j1 ne 1(1) j(1) show ?case by simp
        next
          case (2 w' t md now')
          from enqueued_sel [OF 2(5)] j1 ne 2(1) j(1) show ?case by auto
        next
          case (3 w' t md msg)
          from jobs_of [OF 3(5)] j1 ne 3(1) j(1) show ?case by simp
        qed
      next
        case True
        show ?thesis
        proof (rule wp_submit_replay [OF 1(1) True], goal_cases)
          case (2 w' jid' j' md now')
          then have "jid' \<noteq> jid"
            using jid(2) True \<open>vw w1 = vw w\<close> j(2) by (auto simp: other_key_def Inr key_used_def)
          with enqueued_sel [OF 2(6)] j1 2(1) show ?case by auto
        qed (use j1 in simp_all)
      qed
    qed
  qed
qed

end

end
