(* ===== verification/MemoryService.thy ===== *)
theory MemoryService
  imports MemStore MemQueue Events ServiceInv
begin

text \<open>
  The scheduler and the API wired to the in-process store and queue: the interpretation of the scheduler
  context on the model's own definitions, from which the properties of the handlers are read
  off. \<^verbatim>\<open>internal/app/wire.go\<close> gives a store that is not PostgreSQL the publisher that drops events.
\<close>

definition memory_service :: "SchedulerConfig \<Rightarrow> cronlib \<Rightarrow> (rat \<Rightarrow> int) \<Rightarrow> (Store, MemQueue) Service" where
  "memory_service cfg C conv =
     \<lparr>sv_cfg = cfg, sv_store = memory_store, sv_queue = memory_queue, sv_events = NoopPublisher,
      sv_cron = C, sv_conv = conv\<rparr>"

lemma memory_service_sel [simp]:
  "sv_cfg (memory_service cfg C conv) = cfg" "sv_store (memory_service cfg C conv) = memory_store"
  "sv_queue (memory_service cfg C conv) = memory_queue"
  "sv_events (memory_service cfg C conv) = NoopPublisher"
  "sv_cron (memory_service cfg C conv) = C" "sv_conv (memory_service cfg C conv) = conv"
  by (simp_all add: memory_service_def)

interpretation ms: scheduler_ctx "memory_service cfg C conv" mem_abs mem_inv pending "\<lambda>q. \<not> mq_closed q"
  unfolding scheduler_ctx_def memory_service_sel
  by (intro conjI mem.job_store_total_axioms noop.event_sink_axioms mq.job_queue_axioms)

end
