(* ===== verification/SchedulerProps.thy ===== *)
theory SchedulerProps
  imports MemoryService
begin

text \<open>
  The properties of the scheduler wired to the in-process store and queue: the rules of the
  scheduler context, read off its interpretation, as statements about runs of the handlers.
\<close>

section \<open>Worlds for the examples\<close>

definition demo_job :: Job where
  "demo_job =
     \<lparr>job_ID = ''j'', job_Name = ''n'', job_Type = JobTypeBuiltin, job_Payload = None,
      job_Priority = 5, job_State = JobStateRunning,
      job_Schedule = \<lparr>sc_Type = ScheduleImmediate, sc_RunAt = None, sc_Delay = 0, sc_CronExpr = '''',
                      sc_Timezone = ''''\<rparr>,
      job_RetryPolicy = DefaultRetryPolicy, job_Timeout = 100, job_IdempotencyKey = '''',
      job_Attempt = 1, job_MaxAttempts = 3, job_WorkerID = ''w'', job_ExecutionID = '''',
      job_LastError = '''', job_ScheduledAt = Some 5, job_QueuedAt = None, job_StartedAt = Some 7,
      job_CompletedAt = None, job_NextRetryAt = None, job_CreatedAt = 1, job_UpdatedAt = 1,
      job_Metadata = None\<rparr>"

definition demo_worker :: Worker where
  "demo_worker =
     \<lparr>wk_ID = ''w'', wk_Address = ''w:1'', wk_Status = WorkerStatusHealthy, wk_Capacity = 2,
      wk_ActiveJobs = 0, wk_Capabilities = \<lparr>cap_Builtin = True, cap_Webhook = True\<rparr>,
      wk_Labels = None, wk_LastHeartbeat = 1, wk_RegisteredAt = 1, wk_Metadata = None\<rparr>"

text \<open>One job and one worker, known to the scheduler and to the store; a queue that is open.\<close>

definition demo_world :: "Job \<Rightarrow> (Store, MemQueue) World" where
  "demo_world j =
     (NewService (mem_New\<lparr>st_jobs := [(job_ID j, j)], st_workers := [(''w'', demo_worker)]\<rparr>) mq_New (\<lambda>_. ext0))
       \<lparr>w_workers := [(''w'', \<lparr>wc_info = demo_worker\<rparr>)]\<rparr>"

definition demo_cfg :: SchedulerConfig where
  "demo_cfg = \<lparr>sch_ID = ''s'', sch_PollInterval = Second, sch_AssignBatchSize = 10,
     sch_HeartbeatTimeout = 100, sch_SuspectGracePeriod = 50, sch_GRPCAddr = '''', sch_ListenAddr = ''''\<rparr>"

definition demo_cron :: cronlib where
  "demo_cron = \<lparr>cron_Parse = \<lambda>e. Inr (\<lambda>loc t. t + Minute), cron_LoadLocation = \<lambda>z. Inr z\<rparr>"

abbreviation demo_service :: "(Store, MemQueue) Service" where
  "demo_service \<equiv> memory_service demo_cfg demo_cron (\<lambda>_. 0)"

lemma demo_cfg_sel [simp]:
  "sch_AssignBatchSize demo_cfg = 10" "sch_HeartbeatTimeout demo_cfg = 100" "sch_SuspectGracePeriod demo_cfg = 50"
  by (simp_all add: demo_cfg_def)

lemma demo_job_sel [simp]:
  "job_ID demo_job = ''j''" "job_State demo_job = JobStateRunning" "job_Attempt demo_job = 1"
  "job_MaxAttempts demo_job = 3" "job_WorkerID demo_job = ''w''" "job_ExecutionID demo_job = ''''"
  "job_Timeout demo_job = 100" "job_StartedAt demo_job = Some 7" "job_ScheduledAt demo_job = Some 5"
  "job_RetryPolicy demo_job = DefaultRetryPolicy" "job_NextRetryAt demo_job = None"
  by (simp_all add: demo_job_def)

lemma demo_sound [simp]: "sound_world mem_inv (demo_world j)"
  by (simp add: gomap_wf_def sound_world_def exts_ok_def ext_ok_def demo_world_def NewService_def ext0_def mem_inv_def mem_New_def)

lemma demo_sel [simp]:
  "st_jobs (w_store (demo_world j)) = [(job_ID j, j)]"
  "st_workers (w_store (demo_world j)) = [(''w'', demo_worker)]"
  "w_workers (demo_world j) = [(''w'', \<lparr>wc_info = demo_worker\<rparr>)]"
  "w_queue (demo_world j) = mq_New" "w_pendingCancels (demo_world j) = []" "w_sent (demo_world j) = []"
  "w_ext (demo_world j) = (\<lambda>_. ext0)"
  by (simp_all add: demo_world_def NewService_def mem_abs_def mem_New_def)

lemma demo_conns [simp]: "conns_ok (demo_world j)"
  by (simp add: conns_ok_def demo_worker_def)


section \<open>Results\<close>






definition demo_recurring :: Job where
  "demo_recurring = demo_job\<lparr>job_Schedule := \<lparr>sc_Type = ScheduleRecurring, sc_RunAt = None, sc_Delay = 0,
     sc_CronExpr = ''* * * * *'', sc_Timezone = ''''\<rparr>\<rparr>"



section \<open>Queue messages\<close>




definition demo_due :: Job where
  "demo_due = demo_job\<lparr>job_State := JobStateScheduled\<rparr>"



section \<open>Timeouts and lost workers\<close>



text \<open>
  C10 (lost workers): with a heartbeat timeout and a grace period that are not negative and whose
  sum fits a 64-bit duration, a check of the workers marks exactly the healthy or suspected workers
  whose last heartbeat is older than timeout and grace period as unavailable, exactly the other
  healthy ones whose last heartbeat is older than the timeout as suspected, and leaves every other
  stored worker as it is. It forgets the connections and pending cancellations of the first. Only jobs those workers owned (assigned, running or asked to cancel) change, and
  each is rescheduled, failed when its attempts are used up, or cancelled when it was to be
  cancelled. With fewer than 1000 such jobs in the store, none is left with a lost worker.
\<close>

theorem checkWorkers_recovers:
  assumes "sound_world mem_inv w"
    and "0 \<le> sch_HeartbeatTimeout cfg" "0 \<le> sch_SuspectGracePeriod cfg"
      "sch_HeartbeatTimeout cfg + sch_SuspectGracePeriod cfg < 2 ^ 63"
    and "run_state (checkWorkers (memory_service cfg C conv)) w = (e, w')"
  shows "e = None \<and>
    (\<exists>now gone. clock w now \<and>
       gone = {i. \<exists>wk. a_workers (mem_abs (w_store w)) i = Some wk \<and>
                      lost now (sch_HeartbeatTimeout cfg) (sch_SuspectGracePeriod cfg) wk} \<and>
       (\<forall>i. a_workers (mem_abs (w_store w')) i =
              (case a_workers (mem_abs (w_store w)) i of
                 None \<Rightarrow> None
               | Some wk \<Rightarrow> Some (
                   if i \<in> gone then wk\<lparr>wk_Status := WorkerStatusUnavailable\<rparr>
                   else if wk_Status wk = WorkerStatusHealthy \<and> sch_HeartbeatTimeout cfg < now - wk_LastHeartbeat wk
                   then wk\<lparr>wk_Status := WorkerStatusSuspected\<rparr> else wk))) \<and>
       (\<forall>i. map_of (w_workers w') i = (if i \<in> gone then None else map_of (w_workers w) i)) \<and>
       (\<forall>i. pending_for w' i = (if i \<in> gone then {} else pending_for w i)) \<and>
       (\<forall>jid. after_loss gone (a_jobs (mem_abs (w_store w)) jid) (a_jobs (mem_abs (w_store w')) jid)) \<and>
       (few_owned (view mem_abs w) \<longrightarrow>
          (\<forall>jid j. a_jobs (mem_abs (w_store w')) jid = Some j \<longrightarrow> owned j \<longrightarrow> job_WorkerID j \<notin> gone)))"
    (is "?P e w'")
proof -
  let ?t = "sch_HeartbeatTimeout cfg" and ?g = "sch_SuspectGracePeriod cfg"
  have "wp (checkWorkers (memory_service cfg C conv)) ?P w"
  proof (rule ms.wp_checkWorkers [OF assms(1)], goal_cases)
    case 1
    then show ?case using assms(2-4) by (simp add: ms.scan_ok_def)
  next
    case (2 w1 una n v1)
    let ?now = "x_now (w_ext w n) 0"
    let ?gone = "{i. \<exists>wk. a_workers (mem_abs (w_store w)) i = Some wk \<and> lost ?now ?t ?g wk}"
    have c: "clock w ?now" unfolding clock_def by blast
    have g: "set una = ?gone" using 2(3) unfolding memory_service_sel by simp
    have v1: "v_jobs v1 = a_jobs (mem_abs (w_store w))" "w_workers v1 = w_workers w" "pending_for v1 = pending_for w"
      "few_owned v1 = few_owned (view mem_abs w)"
      "a_workers (w_store v1) = map_option (after_scan ?now ?t ?g) \<circ> a_workers (mem_abs (w_store w))"
      by (simp_all add: 2(4) pending_for_def fun_eq_iff few_owned_def owned_ids_def)
    have "a_workers (mem_abs (w_store w1)) = a_workers (w_store v1)" using 2(5) unfolding loss_def by simp
    then have st: "a_workers (mem_abs (w_store w1)) i =
              (case a_workers (mem_abs (w_store w)) i of
                 None \<Rightarrow> None
               | Some wk \<Rightarrow> Some (
                   if i \<in> ?gone then wk\<lparr>wk_Status := WorkerStatusUnavailable\<rparr>
                   else if wk_Status wk = WorkerStatusHealthy \<and> ?t < ?now - wk_LastHeartbeat wk
                   then wk\<lparr>wk_Status := WorkerStatusSuspected\<rparr> else wk))" for i
      by (auto simp: v1 after_scan_def suspect_def simp del: mem_abs_sel split: option.splits)
    show ?case
      by (rule conjI [OF refl], rule exI [of _ ?now], rule exI [of _ ?gone], intro conjI allI c refl st)
        (use 2(5) in \<open>unfold loss_def g v1 view_sel pending_for_view, blast+\<close>)
  qed
  from wp_runD [OF this assms(5)] show ?thesis .
qed

theorem checkWorkers_recovers_witness:
  "map_of (w_workers (exec (checkWorkers demo_service) (demo_world demo_job))) ''w'' = None \<and>
   \<not> (\<exists>j. a_jobs (mem_abs (w_store (exec (checkWorkers demo_service) (demo_world demo_job)))) ''j'' = Some j \<and>
          owned j \<and> job_WorkerID j = ''w'')"
proof -
  let ?m = "checkWorkers demo_service" and ?w = "demo_world demo_job"
  have "owned_ids (view mem_abs ?w) \<subseteq> {''j''}" by (auto simp: owned_ids_def split: if_splits)
  from finite_subset [OF this] card_mono [OF _ this] have few: "few_owned (view mem_abs ?w)"
    unfolding few_owned_def by simp
  have run: "run_state ?m ?w = (outcome ?m ?w, exec ?m ?w)" by simp
  have cfg: "0 \<le> sch_HeartbeatTimeout demo_cfg" "0 \<le> sch_SuspectGracePeriod demo_cfg"
    "sch_HeartbeatTimeout demo_cfg + sch_SuspectGracePeriod demo_cfg < 2 ^ 63" by simp_all
  from conjunct2 [OF checkWorkers_recovers [OF demo_sound cfg run]] obtain now gone where
    now: "clock ?w now" and gone: "gone = {i. \<exists>wk. a_workers (mem_abs (w_store ?w)) i = Some wk \<and>
        lost now (sch_HeartbeatTimeout demo_cfg) (sch_SuspectGracePeriod demo_cfg) wk}"
    and ws: "\<forall>i. map_of (w_workers (exec ?m ?w)) i = (if i \<in> gone then None else map_of (w_workers ?w) i)"
    and own: "few_owned (view mem_abs ?w) \<longrightarrow>
          (\<forall>jid j. a_jobs (mem_abs (w_store (exec ?m ?w))) jid = Some j \<longrightarrow> owned j \<longrightarrow> job_WorkerID j \<notin> gone)"
    by (elim exE conjE)
  have w: "''w'' \<in> gone"
    using now by (simp add: gone lost_def demo_worker_def clock_def ext0_def)
  have "map_of (w_workers (exec ?m ?w)) ''w'' = None" using ws [rule_format, of "''w''"] w by simp
  moreover have "job_WorkerID j \<noteq> ''w''"
    if "a_jobs (mem_abs (w_store (exec ?m ?w))) ''j'' = Some j" "owned j" for j
    using own [rule_format, OF few that] w by auto
  ultimately show ?thesis by blast
qed

text \<open>
  C11 (cancellations reach the worker): after a pass over the jobs asked to cancel, each of the
  listed ones is either cancelled (when it has no worker) or pending for its worker; pending
  cancellations are only added, and every heartbeat of a worker returns all that is pending for
  it, whether or not the direct call to the worker succeeded.
\<close>

theorem cancel_delivery:
  assumes "sound_world mem_inv w"
    and "run_state (pushPendingCancels (memory_service cfg C conv)) w = (e, w')"
    and "run_state (Heartbeat (memory_service cfg C conv) wid active capacity) w' = ((ids, e'), w'')"
  shows "e = None \<and> e' = None \<and> set ids = pending_for w' wid \<and> pending_for w'' wid = pending_for w' wid \<and>
    pending_for w wid \<subseteq> set ids \<and>
    (\<exists>js. listing (a_jobs (mem_abs (w_store w))) (\<lambda>j. job_State j = JobStateCancelRequested)
            (default_limit (sch_AssignBatchSize cfg)) js \<and>
      (\<forall>k\<in>set js. \<exists>j. a_jobs (mem_abs (w_store w)) (job_ID k) = Some j \<and>
         (job_WorkerID j = wid \<and> wid \<noteq> '''' \<longrightarrow> job_ID k \<in> set ids) \<and>
         (job_WorkerID j = '''' \<longrightarrow>
            (\<exists>j'. a_jobs (mem_abs (w_store w')) (job_ID k) = Some j' \<and> job_State j' = JobStateCancelled))))"
proof -
  have "wp (pushPendingCancels (memory_service cfg C conv))
     (\<lambda>e w1. e = None \<and> sound_world mem_inv w1 \<and> (\<exists>js. listing (a_jobs (mem_abs (w_store w)))
        (\<lambda>j. job_State j = JobStateCancelRequested) (default_limit (sch_AssignBatchSize cfg)) js \<and>
        push_pass js (view mem_abs w) (view mem_abs w1))) w"
  proof (rule ms.wp_pushPendingCancels [OF assms(1)], goal_cases)
    case (1 w1 js)
    then show ?case unfolding view_sel memory_service_sel by blast
  qed
  from wp_runD [OF this assms(2)] obtain js where e: "e = None" and s: "sound_world mem_inv w'"
    and js: "listing (a_jobs (mem_abs (w_store w)))
        (\<lambda>j. job_State j = JobStateCancelRequested) (default_limit (sch_AssignBatchSize cfg)) js"
    and p: "push_pass js (view mem_abs w) (view mem_abs w')" by blast
  have "wp (Heartbeat (memory_service cfg C conv) wid active capacity)
     (\<lambda>r w2. snd r = None \<and> set (fst r) = pending_for w' wid \<and> pending_for w2 wid = pending_for w' wid) w'"
  proof (rule ms.wp_Heartbeat [OF s], goal_cases)
    case (1 w2 ids)
    have "pending_for w2 = pending_for w'" using arg_cong [OF 1(2), of pending_for] by simp
    then show ?case using 1(4) by simp
  next
    case (2 w2 ids c t)
    have "w_pendingCancels w2 = w_pendingCancels w'"
      using arg_cong [OF 2(4), of w_pendingCancels] by (simp add: Let_def)
    then show ?case using 2(3) pending_for_cong [of w2 w'] by simp
  qed
  from wp_runD [OF this assms(3)] have h: "e' = None" "set ids = pending_for w' wid"
    "pending_for w'' wid = pending_for w' wid" by simp_all
  have mono: "pending_for w wid \<subseteq> pending_for w' wid" using p unfolding push_pass_def by simp
  have "\<exists>j. a_jobs (mem_abs (w_store w)) (job_ID k) = Some j \<and>
         (job_WorkerID j = wid \<and> wid \<noteq> '''' \<longrightarrow> job_ID k \<in> set ids) \<and>
         (job_WorkerID j = '''' \<longrightarrow>
            (\<exists>j'. a_jobs (mem_abs (w_store w')) (job_ID k) = Some j' \<and> job_State j' = JobStateCancelled))"
    if k: "k \<in> set js" for k
  proof -
    from p k obtain j where "a_jobs (mem_abs (w_store w)) (job_ID k) = Some j"
      "after_push (pending_for w') (job_ID k) j (a_jobs (mem_abs (w_store w')) (job_ID k))"
      unfolding push_pass_def view_sel pending_for_view by blast
    then show ?thesis
      using h(2) by (auto simp: after_push_def cancelled_directly_def simp del: mem_abs_sel split: if_splits)
  qed
  then have "\<exists>js. listing (a_jobs (mem_abs (w_store w))) (\<lambda>j. job_State j = JobStateCancelRequested)
            (default_limit (sch_AssignBatchSize cfg)) js \<and>
      (\<forall>k\<in>set js. \<exists>j. a_jobs (mem_abs (w_store w)) (job_ID k) = Some j \<and>
         (job_WorkerID j = wid \<and> wid \<noteq> '''' \<longrightarrow> job_ID k \<in> set ids) \<and>
         (job_WorkerID j = '''' \<longrightarrow>
            (\<exists>j'. a_jobs (mem_abs (w_store w')) (job_ID k) = Some j' \<and> job_State j' = JobStateCancelled)))"
    by (intro exI [of _ js] conjI js ballI)
  with e h mono show ?thesis by simp
qed

definition demo_cancel :: Job where
  "demo_cancel = demo_job\<lparr>job_State := JobStateCancelRequested\<rparr>"

theorem cancel_delivery_witness:
  "''j'' \<in> set (fst (outcome (Heartbeat demo_service ''w'' 1 2)
      (exec (pushPendingCancels demo_service) (demo_world demo_cancel))))"
proof -
  let ?w = "demo_world demo_cancel" and ?m = "pushPendingCancels demo_service" and ?h = "Heartbeat demo_service ''w'' 1 2"
  let ?w' = "exec ?m ?w"
  have m: "run_state ?m ?w = (outcome ?m ?w, ?w')" by simp
  have h: "run_state ?h ?w' = ((fst (outcome ?h ?w'), snd (outcome ?h ?w')), exec ?h ?w')" by simp
  from cancel_delivery [OF demo_sound m h] obtain js where
    js: "listing (a_jobs (mem_abs (w_store ?w))) (\<lambda>j. job_State j = JobStateCancelRequested)
           (default_limit (sch_AssignBatchSize demo_cfg)) js"
    and all: "\<forall>k\<in>set js. \<exists>j. a_jobs (mem_abs (w_store ?w)) (job_ID k) = Some j \<and>
         (job_WorkerID j = ''w'' \<and> ''w'' \<noteq> '''' \<longrightarrow> job_ID k \<in> set (fst (outcome ?h ?w'))) \<and>
         (job_WorkerID j = '''' \<longrightarrow>
            (\<exists>j'. a_jobs (mem_abs (w_store ?w')) (job_ID k) = Some j' \<and> job_State j' = JobStateCancelled))"
    by (elim conjE exE)
  have "''j'' \<in> job_ID ` set js"
    by (rule listing_all [OF js, of _ demo_cancel]) (auto simp: demo_cancel_def default_limit_def)
  then obtain k where k: "k \<in> set js" "job_ID k = ''j''" by auto
  from all k obtain j where "a_jobs (mem_abs (w_store ?w)) ''j'' = Some j"
    "job_WorkerID j = ''w'' \<longrightarrow> ''j'' \<in> set (fst (outcome ?h ?w'))" by auto
  moreover from this(1) have "job_WorkerID j = ''w''" by (auto simp: demo_cancel_def)
  ultimately show ?thesis by blast
qed

section \<open>Behaviours a reader may not expect\<close>

text \<open>
  A heartbeat from a worker the scheduler does not know (one it has declared lost) is answered
  without an error and registers nothing: the worker keeps believing it is connected.
\<close>

lemma heartbeat_unknown:
  assumes "sound_world mem_inv w" "map_of (w_workers w) wid = None"
    and "run_state (Heartbeat (memory_service cfg C conv) wid active capacity) w = ((ids, e), w')"
  shows "e = None \<and> view mem_abs w' = view mem_abs w"
proof -
  have "wp (Heartbeat (memory_service cfg C conv) wid active capacity)
          (\<lambda>r w'. snd r = None \<and> view mem_abs w' = view mem_abs w) w"
    by (rule ms.wp_Heartbeat [OF assms(1)]) (use assms(2) in simp_all)
  from wp_runD [OF this assms(3)] show ?thesis by simp
qed

text \<open>
  A report is settled against the job as it stands, whatever execution and attempt it belongs
  to: a late report of an abandoned execution decides over the attempt that runs now.
\<close>

lemma stale_report_settles:
  assumes "sound_world mem_inv w" "a_jobs (mem_abs (w_store w)) jid = Some job"
    and "job_State job = JobStateRunning" "job_ExecutionID job \<noteq> xid" "attempt < job_Attempt job"
    and "er_Reason r = ReasonFailed" "\<not> er_Success r" "\<not> er_Retryable r"
    and "run_state (HandleResult (memory_service cfg C conv) jid xid wid attempt r) w = (e, w')"
  shows "\<exists>job'. a_jobs (mem_abs (w_store w')) jid = Some job' \<and> job_State job' = JobStateFailed"
proof -
  have r: "default_reason r = r" using assms(6) by (simp add: default_reason_def)
  have st: "settled_state job attempt r = JobStateFailed"
    using assms(3,6-8) by (simp add: settled_state_def terminal_def)
  have "wp (HandleResult (memory_service cfg C conv) jid xid wid attempt r)
     (\<lambda>_ w'. \<exists>job'. a_jobs (mem_abs (w_store w')) jid = Some job' \<and> job_State job' = JobStateFailed) w"
  proof (rule ms.wp_HandleResult [OF assms(1)], goal_cases)
    case (3 w1 job1)
    then show ?case using settled_jobs [OF 3(4)] assms(2) by (auto simp: r st)
  qed (use assms(2,3) in \<open>auto simp: terminal_def\<close>)
  from wp_runD [OF this assms(9)] show ?thesis .
qed

text \<open>
  The watchdog asks the worker to cancel the attempt it gives up and puts the job into
  \<open>RETRYING\<close>; the worker's answer, a report with reason \<open>cancelled\<close>, then cancels the job, though
  nobody asked for that and attempts remain.
\<close>

lemma cancelled_report_ends_retrying:
  assumes "sound_world mem_inv w" "a_jobs (mem_abs (w_store w)) jid = Some job"
    and "job_State job = JobStateRetrying" "attempt < job_MaxAttempts job" "er_Reason r = ReasonCancelled"
    and "run_state (HandleResult (memory_service cfg C conv) jid xid wid attempt r) w = (e, w')"
  shows "\<exists>job'. a_jobs (mem_abs (w_store w')) jid = Some job' \<and> job_State job' = JobStateCancelled"
proof -
  have r: "default_reason r = r" using assms(5) by (simp add: default_reason_def)
  have st: "settled_state job attempt r = JobStateCancelled"
    using assms(3,5) by (simp add: settled_state_def terminal_def)
  have "wp (HandleResult (memory_service cfg C conv) jid xid wid attempt r)
     (\<lambda>_ w'. \<exists>job'. a_jobs (mem_abs (w_store w')) jid = Some job' \<and> job_State job' = JobStateCancelled) w"
  proof (rule ms.wp_HandleResult [OF assms(1)], goal_cases)
    case (3 w1 job1)
    then show ?case using settled_jobs [OF 3(4)] assms(2) by (auto simp: r st)
  qed (use assms(2,3) in \<open>auto simp: terminal_def\<close>)
  from wp_runD [OF this assms(6)] show ?thesis .
qed

text \<open>
  A job whose push to the worker failed stays \<open>ASSIGNED\<close>: the redelivered message is dropped, and
  the watchdog, which needs a start time, never acts on it.
\<close>

lemma push_failure_stuck:
  assumes "pushed m j wid xid v v'" "job_StartedAt j = None"
  shows "\<exists>j'. v_jobs v' (qj_JobID m) = Some j' \<and> \<not> queueable (job_State j') \<and> \<not> is_overdue now j'"
  using assms by (auto simp: pushed_def assigned_job_def queueable_def is_overdue_def)

end
