(* ===== verification/GrpcServer.thy ===== *)
theory GrpcServer
  imports Scheduler Auth
begin

text \<open>
  The scheduler's gRPC service, \<^verbatim>\<open>internal/scheduler/grpc_server.go\<close>: requests and responses are the
  messages of \<^verbatim>\<open>proto/chronos/v1/worker.proto\<close>, whose \<open>int32\<close> and \<open>int64\<close> fields are integers of that
  range. A handler returns its response and the status error, if any.
\<close>

section \<open>Messages\<close>

record RegisterRequest =
  rg_WorkerId :: string
  rg_Address :: string
  rg_Capacity :: int
  rg_CapBuiltin :: bool
  rg_CapWebhook :: bool
  rg_Labels :: metadata
  rg_Token :: string

record RegisterResponse =
  rr_Ok :: bool
  rr_Message :: string

record HeartbeatRequest =
  hb_WorkerId :: string
  hb_ActiveJobs :: int
  hb_Capacity :: int
  hb_Token :: string

record HeartbeatResponse =
  hr_Ok :: bool
  hr_CancelJobIds :: "string list"

record DeregisterRequest =
  dg_WorkerId :: string
  dg_Token :: string

record ReportResultRequest =
  rq_JobId :: string
  rq_ExecutionId :: string
  rq_WorkerId :: string
  rq_Attempt :: int
  rq_Success :: bool
  rq_Output :: rawmsg
  rq_Error :: string
  rq_Retryable :: bool
  rq_DurationMs :: int
  rq_Reason :: string
  rq_Token :: string


section \<open>Handlers\<close>

definition worker_of :: "RegisterRequest \<Rightarrow> Worker" where
  "worker_of req =
     \<lparr>wk_ID = rg_WorkerId req, wk_Address = rg_Address req, wk_Status = WorkerStatusOther '''',
      wk_Capacity = rg_Capacity req, wk_ActiveJobs = 0,
      wk_Capabilities = \<lparr>cap_Builtin = rg_CapBuiltin req, cap_Webhook = rg_CapWebhook req\<rparr>,
      wk_Labels = rg_Labels req, wk_LastHeartbeat = 0, wk_RegisteredAt = 0, wk_Metadata = None\<rparr>"

definition grpc_Register ::
    "('s, 'q) Service \<Rightarrow> Authenticator \<Rightarrow> RegisterRequest \<Rightarrow> ('s, 'q, RegisterResponse \<times> Error option) handler" where
  "grpc_Register D a req =
     (if \<not> ValidWorkerToken a (rg_Token req)
      then ret (\<lparr>rr_Ok = False, rr_Message = ''unauthorized''\<rparr>, None)
      else do {
        e \<leftarrow> RegisterWorker D (worker_of req);
        (case e of
           Some err \<Rightarrow> ret (\<lparr>rr_Ok = False, rr_Message = Error_text err\<rparr>, None)
         | None \<Rightarrow> ret (\<lparr>rr_Ok = True, rr_Message = ''registered''\<rparr>, None)) })"

definition grpc_Heartbeat ::
    "('s, 'q) Service \<Rightarrow> Authenticator \<Rightarrow> HeartbeatRequest \<Rightarrow> ('s, 'q, HeartbeatResponse \<times> Error option) handler" where
  "grpc_Heartbeat D a req =
     (if \<not> ValidWorkerToken a (hb_Token req)
      then ret (\<lparr>hr_Ok = False, hr_CancelJobIds = []\<rparr>, None)
      else do {
        r \<leftarrow> Heartbeat D (hb_WorkerId req) (hb_ActiveJobs req) (hb_Capacity req);
        (case snd r of
           Some err \<Rightarrow> ret (\<lparr>hr_Ok = False, hr_CancelJobIds = []\<rparr>, Some err)
         | None \<Rightarrow> ret (\<lparr>hr_Ok = True, hr_CancelJobIds = fst r\<rparr>, None)) })"

definition grpc_Deregister ::
    "('s, 'q) Service \<Rightarrow> Authenticator \<Rightarrow> DeregisterRequest \<Rightarrow> ('s, 'q, bool \<times> Error option) handler" where
  "grpc_Deregister D a req =
     (if \<not> ValidWorkerToken a (dg_Token req) then ret (False, None)
      else do { _ \<leftarrow> Deregister D (dg_WorkerId req); ret (True, None) })"

definition result_of :: "ReportResultRequest \<Rightarrow> ExecutionResult" where
  "result_of req =
     \<lparr>er_Success = rq_Success req, er_Output = rq_Output req, er_Error = rq_Error req,
      er_Retryable = rq_Retryable req, er_Duration = wrap64 (rq_DurationMs req * Millisecond),
      er_Reason = ResultReason_of (rq_Reason req)\<rparr>"

definition grpc_ReportResult ::
    "('s, 'q) Service \<Rightarrow> Authenticator \<Rightarrow> ReportResultRequest \<Rightarrow> ('s, 'q, bool \<times> Error option) handler" where
  "grpc_ReportResult D a req =
     (if \<not> ValidWorkerToken a (rq_Token req) then ret (False, None)
      else do {
        e \<leftarrow> HandleResult D (rq_JobId req) (rq_ExecutionId req) (rq_WorkerId req) (rq_Attempt req) (result_of req);
        (case e of Some err \<Rightarrow> ret (False, Some err) | None \<Rightarrow> ret (True, None)) })"


section \<open>Lemmas\<close>

text \<open>The unset reason of a report becomes the one of the success flag.\<close>

lemma default_reason_unset:
  "rq_Reason req = '''' \<Longrightarrow>
   er_Reason (default_reason (result_of req)) = (if rq_Success req then ReasonSuccess else ReasonFailed)"
  by (simp add: result_of_def default_reason_def ResultReason_of_def)

end
