(* ===== verification/ApiProps.thy ===== *)
theory ApiProps
  imports SchedulerProps GrpcServer
begin

text \<open>
  The properties of the two interfaces, HTTP for clients and gRPC for workers, on the in-process
  store and queue.
\<close>

section \<open>Creating jobs\<close>

text \<open>The requests the API means to accept, and the job that a request asks for.\<close>

definition acceptable :: "cronlib \<Rightarrow> CreateJobRequest \<Rightarrow> bool" where
  "acceptable C req \<longleftrightarrow>
     cr_Name req \<noteq> '''' \<and>
     cr_Type req \<in> {JobTypeBuiltin, JobTypeWebhook, JobTypeOther ''''} \<and>
     0 \<le> cr_Priority req \<and> cr_Priority req \<le> 10 \<and>
     (case sc_Type (cr_Schedule req) of
        ScheduleImmediate \<Rightarrow> True
      | ScheduleDelayed \<Rightarrow> True
      | ScheduleOneTime \<Rightarrow> sc_RunAt (cr_Schedule req) \<noteq> None
      | ScheduleRecurring \<Rightarrow>
          sc_CronExpr (cr_Schedule req) \<noteq> '''' \<and> (\<exists>nxt. cron_Parse C (sc_CronExpr (cr_Schedule req)) = Inr nxt) \<and>
          (sc_Timezone (cr_Schedule req) = '''' \<or> (\<exists>loc. cron_LoadLocation C (sc_Timezone (cr_Schedule req)) = Inr loc))
      | ScheduleOther s \<Rightarrow> s = '''')"

definition requested :: "CreateJobRequest \<Rightarrow> Job \<Rightarrow> bool" where
  "requested req j \<longleftrightarrow>
     job_Name j = cr_Name req \<and>
     job_Type j = (if cr_Type req = JobTypeOther '''' then JobTypeBuiltin else cr_Type req) \<and>
     job_Payload j = (if cr_Payload req = None then Some (JObj []) else cr_Payload req) \<and>
     job_Priority j = (if cr_Priority req = 0 then 5 else cr_Priority req) \<and>
     job_Schedule j = (if sc_Type (cr_Schedule req) = ScheduleOther ''''
                       then (cr_Schedule req)\<lparr>sc_Type := ScheduleImmediate\<rparr> else cr_Schedule req) \<and>
     job_RetryPolicy j =
       (case cr_RetryPolicy req of
          Some p \<Rightarrow> p
        | None \<Rightarrow> \<lparr>rp_MaxAttempts = 3, rp_BackoffStrategy = ''exponential'', rp_InitialDelay = 1000000000,
                   rp_MaxDelay = 300000000000, rp_Multiplier = 2, rp_Jitter = True\<rparr>) \<and>
     job_MaxAttempts j = (case cr_RetryPolicy req of Some p \<Rightarrow> rp_MaxAttempts p | None \<Rightarrow> 3) \<and>
     job_Timeout j =
       (if 0 < cr_TimeoutSeconds req then wrap64 (cr_TimeoutSeconds req * 1000000000) else 30000000000) \<and>
     job_IdempotencyKey j = cr_IdempotencyKey req \<and>
     same_metadata (cr_Metadata req) (job_Metadata j) \<and>
     job_Attempt j = 0 \<and> job_WorkerID j = '''' \<and> job_ExecutionID j = ''''"

text \<open>
  The instant a schedule asks for first, seen from the time of the request. For a recurring schedule it
  is the next activation that the cron library finds in the schedule's time zone, asked for the instant
  before the request so that a request made at an activation can be told from one made between two.
\<close>

definition starts_at :: "cronlib \<Rightarrow> Schedule \<Rightarrow> time \<Rightarrow> time \<Rightarrow> bool" where
  "starts_at C s now a \<longleftrightarrow>
     (case sc_Type s of
        ScheduleImmediate \<Rightarrow> a = now
      | ScheduleDelayed \<Rightarrow> a = now + sc_Delay s
      | ScheduleOneTime \<Rightarrow> sc_RunAt s = Some a
      | ScheduleRecurring \<Rightarrow>
          (\<exists>nxt loc. cron_Parse C (sc_CronExpr s) = Inr nxt \<and>
             (if sc_Timezone s = '''' then loc = ''UTC'' else cron_LoadLocation C (sc_Timezone s) = Inr loc) \<and>
             a = (if now < nxt loc (now - 1) then nxt loc (now - 1) else nxt loc now))
      | ScheduleOther _ \<Rightarrow> False)"

lemma starts_at_first_run: "first_run C s now = Inr a \<Longrightarrow> starts_at C s now a"
  by (auto simp: first_run_def starts_at_def NextRunAt_def split: ScheduleType.splits option.splits sum.splits if_splits)

lemma acceptable_check: "acceptable C req \<longleftrightarrow> (\<exists>r. check_request C t req = Inr r)"
  by (auto simp: acceptable_def check_request_def Let_def ValidateSchedule_def NextRunAt_def
      split: ScheduleType.splits option.splits sum.splits if_splits)

lemma check_request_result:
  assumes "check_request C t req = Inr r"
  shows "r = req\<lparr>cr_Type := (if cr_Type req = JobTypeOther '''' then JobTypeBuiltin else cr_Type req),
             cr_Priority := (if cr_Priority req = 0 then 5 else cr_Priority req),
             cr_Schedule := (if sc_Type (cr_Schedule req) = ScheduleOther ''''
                             then (cr_Schedule req)\<lparr>sc_Type := ScheduleImmediate\<rparr> else cr_Schedule req)\<rparr>"
  using assms by (simp add: check_request_def Let_def split: if_splits option.splits)

lemma requested_new_job:
  assumes "check_request C t req = Inr r" "same_metadata (cr_Metadata req) md"
  shows "requested req (stored ((new_job r i)\<lparr>job_State := st, job_ScheduledAt := a\<rparr>) i u md)"
  using assms(2) unfolding check_request_result [OF assms(1)]
  by (simp add: requested_def new_job_def stored_def request_retry_def request_timeout_def DefaultRetryPolicy_def
      Second_def Minute_def split: option.split)

lemma requested_set_state:
  "requested req j \<Longrightarrow> requested req (set_state t st [(''queued_at'', AnyTime u)] j)"
  by (simp add: requested_def)


definition demo_lib :: golib where
  "demo_lib = \<lparr>gl_ParseFloat = (\<lambda>_. None), gl_timeerr = (\<lambda>s. s)\<rparr>"

definition demo_create :: CreateJobRequest where
  "demo_create =
     \<lparr>cr_Name = ''n'', cr_Type = JobTypeOther '''', cr_Payload = None, cr_Priority = 0,
      cr_Schedule = \<lparr>sc_Type = ScheduleOther '''', sc_RunAt = None, sc_Delay = 0, sc_CronExpr = '''', sc_Timezone = ''''\<rparr>,
      cr_RetryPolicy = None, cr_TimeoutSeconds = 0, cr_IdempotencyKey = ''k'', cr_Metadata = None\<rparr>"

lemma demo_keys [simp]: "st_byIdem (w_store (demo_world j)) = []"
  by (simp add: demo_world_def NewService_def mem_New_def)





section \<open>Cancelling jobs\<close>

text \<open>
  C22 (cancellation by a client): an unknown job is 404 and a completed, cancelled or expired one
  409, and both change nothing; a job that is assigned or running is marked
  \<open>CANCEL_REQUESTED\<close> and keeps its worker and execution; any other job is \<open>CANCELLED\<close> at once. No
  other job changes, and no message of the queue is removed.
\<close>

theorem cancelJob_table:
  assumes "sound_world mem_inv w"
    and "run_state (cancelJob (memory_service cfg C conv) jid) w = (resp, w')"
  shows "case a_jobs (mem_abs (w_store w)) jid of
     None \<Rightarrow> fst resp = 404 \<and> view mem_abs w' = view mem_abs w
   | Some j \<Rightarrow>
       if job_State j \<in> {JobStateCompleted, JobStateCancelled, JobStateExpired}
       then fst resp = 409 \<and> view mem_abs w' = view mem_abs w
       else \<exists>j'. a_jobs (mem_abs (w_store w')) = (a_jobs (mem_abs (w_store w)))(jid \<mapsto> j') \<and>
              w_queue w' = w_queue w \<and> w_sent w' = w_sent w \<and>
              job_WorkerID j' = job_WorkerID j \<and> job_ExecutionID j' = job_ExecutionID j \<and>
              (if job_State j \<in> {JobStateRunning, JobStateAssigned}
               then fst resp = 202 \<and> job_State j' = JobStateCancelRequested
               else fst resp = 200 \<and> job_State j' = JobStateCancelled \<and> job_CompletedAt j' \<noteq> None)"
    (is "?P resp w'")
proof -
  have upd: "v_jobs (view mem_abs u) = (v_jobs (view mem_abs w))(jid \<mapsto> k) \<and> w_queue u = w_queue w \<and> w_sent u = w_sent w"
    if "view mem_abs u = put_job jid k (view mem_abs w)" for u k
    using arg_cong [OF that, of v_jobs] arg_cong [OF that, of w_queue] arg_cong [OF that, of w_sent] by simp
  have "wp (cancelJob (memory_service cfg C conv) jid) ?P w"
  proof (rule ms.wp_cancelJob [OF assms(1)], goal_cases)
    case (3 u j t)
    show ?case using 3(2,3) upd [OF 3(4)] by (auto simp del: mem_abs_sel)
  next
    case (4 u j t now)
    show ?case using 4(2-4) upd [OF 4(5)] by (auto simp: cancel_terminal_def simp del: mem_abs_sel)
  qed (simp_all add: writeErr_def cancel_terminal_def)
  from wp_runD [OF this assms(2)] show ?thesis .
qed

theorem cancelJob_table_witness:
  "fst (outcome (cancelJob demo_service ''j'') (demo_world demo_job)) = 202"
proof -
  let ?m = "cancelJob demo_service ''j''" and ?w = "demo_world demo_job"
  have "run_state ?m ?w = (outcome ?m ?w, exec ?m ?w)" by simp
  from cancelJob_table [OF demo_sound this] show ?thesis by auto
qed

section \<open>The guards\<close>

text \<open>
  C38 (the guard of the API): with authentication enabled, a request for anything but \<open>/healthz\<close> and
  \<open>/readyz\<close> is handled exactly when it carries a configured, non-empty key: as the value of the
  \<open>X-API-Key\<close> header or, if that is absent or empty, as what follows \<open>ApiKey\<close> and a blank (in any mix of
  upper and lower case, with white space around the key removed) in the \<open>Authorization\<close> header. Any other
  one is answered 401 and leaves the whole world as it is. The two health endpoints need no key and change
  nothing: \<open>/healthz\<close> is always answered 200, \<open>/readyz\<close> 200 or, when the database does not answer, 503.
\<close>

theorem api_guard:
  assumes "srv_auth srv = auth_New ks ts False"
  shows "case rq_endpoint req of
           GetHealthz \<Rightarrow> run_state (Handler srv ping req) w = ((200, BodyStrings [(''status'', ''ok'')]), w)
         | GetReadyz \<Rightarrow>
             (case run_state (Handler srv ping req) w of (resp, w') \<Rightarrow>
                fst resp = (if ping = None then 200 else 503) \<and> w' = w)
         | _ \<Rightarrow> run_state (Handler srv ping req) w =
             (if \<exists>k\<in>set ks. k \<noteq> '''' \<and> carries_key (rq_header req) k
              then run_state (dispatch srv ping (rq_endpoint req)) w
              else ((401, BodyStrings [(''error'', ''unauthorized'')]), w))"
proof (cases "is_open (rq_endpoint req)")
  case True
  then show ?thesis
    by (auto simp: Handler_def is_open_def dispatch_def split: option.split)
next
  case False
  then have "run_state (Handler srv ping req) w =
      (if request_key (rq_header req) \<in> set ks \<and> request_key (rq_header req) \<noteq> ''''
       then run_state (dispatch srv ping (rq_endpoint req)) w
       else ((401, BodyStrings [(''error'', ''unauthorized'')]), w))"
    unfolding Handler_def assms by (simp add: HTTPMiddleware_run writeErr_def)
  also have "request_key (rq_header req) \<in> set ks \<and> request_key (rq_header req) \<noteq> '''' \<longleftrightarrow>
      (\<exists>k\<in>set ks. k \<noteq> '''' \<and> carries_key (rq_header req) k)"
    unfolding request_key_carries [symmetric] by auto
  finally show ?thesis using False by (cases "rq_endpoint req") (simp_all only: is_open_def Endpoint.case simp_thms)
qed

theorem api_guard_witness:
  "let srv = \<lparr>srv_deps = demo_service, srv_auth = auth_New [''secret''] [] False, srv_backends = [''memory''], srv_analytics = None, srv_lib = demo_lib\<rparr>;
       h = header_Set ''Authorization'' ''apikey secret'' [] in
   run_state (Handler srv None \<lparr>rq_header = h, rq_endpoint = GetWorkers\<rparr>) (demo_world demo_job) =
     run_state (api_listWorkers demo_service) (demo_world demo_job) \<and>
   run_state (Handler srv None \<lparr>rq_header = [], rq_endpoint = PostCancel ''j''\<rparr>) (demo_world demo_job) =
     ((401, BodyStrings [(''error'', ''unauthorized'')]), demo_world demo_job)"
proof -
  let ?srv = "\<lparr>srv_deps = demo_service, srv_auth = auth_New [''secret''] [] False, srv_backends = [''memory''], srv_analytics = None, srv_lib = demo_lib\<rparr>"
  let ?h = "header_Set ''Authorization'' ''apikey secret'' []"
  have "request_key ?h = ''secret''" "request_key [] = ''''" by code_simp+
  then have k: "carries_key ?h ''secret''" "\<not> carries_key [] ''secret''"
    unfolding request_key_carries [symmetric] by simp_all
  have a: "srv_auth ?srv = auth_New [''secret''] [] False" by simp
  from api_guard [OF a, of None "\<lparr>rq_header = ?h, rq_endpoint = GetWorkers\<rparr>" "demo_world demo_job"]
    api_guard [OF a, of None "\<lparr>rq_header = [], rq_endpoint = PostCancel ''j''\<rparr>" "demo_world demo_job"] k
  show ?thesis by (simp add: dispatch_def)
qed

text \<open>
  C39 (the guard of the worker interface): with authentication enabled, a call of any of the four
  methods with a token that is not one of the configured, non-empty ones is answered negatively
  and leaves the scheduler, its store, its queue and its workers as they are.
\<close>

theorem grpc_guard:
  assumes "token \<notin> set ts \<or> token = ''''"
  shows "run_state (grpc_Register D (auth_New ks ts False) (rg\<lparr>rg_Token := token\<rparr>)) w =
           ((\<lparr>rr_Ok = False, rr_Message = ''unauthorized''\<rparr>, None), w) \<and>
         run_state (grpc_Heartbeat D (auth_New ks ts False) (hb\<lparr>hb_Token := token\<rparr>)) w =
           ((\<lparr>hr_Ok = False, hr_CancelJobIds = []\<rparr>, None), w) \<and>
         run_state (grpc_Deregister D (auth_New ks ts False) (dg\<lparr>dg_Token := token\<rparr>)) w = ((False, None), w) \<and>
         run_state (grpc_ReportResult D (auth_New ks ts False) (rq\<lparr>rq_Token := token\<rparr>)) w = ((False, None), w)"
  using assms
  by (auto simp: grpc_Register_def grpc_Heartbeat_def grpc_Deregister_def grpc_ReportResult_def ValidWorkerToken_New)

theorem grpc_guard_witness:
  "run_state (grpc_Deregister demo_service (auth_New [''k''] [''t''] False) \<lparr>dg_WorkerId = ''w'', dg_Token = ''k''\<rparr>)
     (demo_world demo_job) = ((False, None), demo_world demo_job)"
  using grpc_guard [of "''k''" "[''t'']" demo_service "[''k'']" _ "demo_world demo_job" _
      "\<lparr>dg_WorkerId = ''w'', dg_Token = ''k''\<rparr>"] by simp


section \<open>Deviations\<close>

text \<open>
  Replaying a creation does not stop at returning the existing job: if its scheduled time has
  come, the job is put back to \<open>QUEUED\<close> whatever its state and a second message is enqueued.
\<close>

lemma createJob_replay_requeues:
  assumes "sound_world mem_inv w" "\<not> mq_closed (w_queue w)" "acceptable C req" "cr_IdempotencyKey req \<noteq> ''''"
    and "a_keys (mem_abs (w_store w)) (cr_IdempotencyKey req) = Some jid" "a_jobs (mem_abs (w_store w)) jid = Some j"
    and "job_ScheduledAt j = Some a" "\<And>n. a \<le> x_now (w_ext w n) 0"
    and "run_state (createJob (memory_service cfg C conv) (Inr req)) w = (resp, w')"
  shows "\<exists>j' t. a_jobs (mem_abs (w_store w')) = (a_jobs (mem_abs (w_store w)))(jid \<mapsto> j') \<and> job_State j' = JobStateQueued \<and>
     pending (w_queue w') = add_mset (queued_job t j) (pending (w_queue w))"
    (is "?P resp w'")
proof -
  from assms(3) acceptable_check [of C req 0] obtain r where r: "check_request C 0 req = Inr r" by auto
  have "wp (createJob (memory_service cfg C conv) (Inr req)) ?P w"
  proof (rule ms.wp_createJob_valid [OF assms(1)], use r in simp, goal_cases)
    case (1 w1 now n b)
    let ?j = "(new_job r (x_uuid (w_ext w n) 0))\<lparr>job_State := JobStateScheduled, job_ScheduledAt := Some b\<rparr>"
    have v: "w_store (view mem_abs w1) = w_store (view mem_abs w)" "w_queue w1 = w_queue w"
      using 1(2) by (simp, metis view_sel(2))
    have k: "job_IdempotencyKey ?j = cr_IdempotencyKey req" using check_request_valid(11) [OF r] by (simp add: new_job_def)
    have due: "due_now now j" using assms(7,8) 1(3) by (auto simp: due_now_def clock_def not_less)
    have used: "key_used (view mem_abs w1) (job_IdempotencyKey ?j)"
      using assms(4,5) unfolding key_used_def v(1) k by simp
    show ?case
    proof (rule ms.wp_submit_replay [OF 1(1) used], goal_cases)
      case (1 w2 jid' j' md)
      then have "j' = j" using assms(5,6) unfolding v(1) k by simp
      with 1(4) due show ?case by simp
    next
      case (2 w2 jid' j' md now')
      then have e: "jid' = jid" "j' = j" using assms(5,6) unfolding v(1) k by simp_all
      from 2(6) [unfolded e] obtain t t' q where q: "pending q = add_mset (queued_job t' j) (pending (w_queue w))" and
        v2: "view mem_abs w2 = put_job jid (set_state t JobStateQueued [(''queued_at'', AnyTime now')] j)
               ((view mem_abs w1)\<lparr>w_queue := q\<rparr>)"
        unfolding ms.enqueued_def using v(2) by auto
      from arg_cong [OF v2, of v_jobs] arg_cong [OF v2, of w_queue] v(1)
      have "a_jobs (mem_abs (w_store w2)) =
          (a_jobs (mem_abs (w_store w)))(jid \<mapsto> set_state t JobStateQueued [(''queued_at'', AnyTime now')] j)" "w_queue w2 = q"
        by (simp_all del: mem_abs_sel)
      with q show ?case
        by (intro exI [of _ "set_state t JobStateQueued [(''queued_at'', AnyTime now')] j"] exI [of _ t'])
          (simp del: mem_abs_sel)
    next
      case (3 w2 msg)
      then show ?case using assms(2) v(2) by simp
    qed
  qed
  from wp_runD [OF this assms(9)] show ?thesis .
qed

text \<open>A failed job can still be cancelled: the conflict check does not know the states \<open>FAILED\<close> and \<open>TIMEOUT\<close>.\<close>

lemma failed_job_cancelled:
  assumes "sound_world mem_inv w" "a_jobs (mem_abs (w_store w)) jid = Some j" "job_State j \<in> {JobStateFailed, JobStateTimeout}"
    and "run_state (cancelJob (memory_service cfg C conv) jid) w = (resp, w')"
  shows "\<exists>j'. a_jobs (mem_abs (w_store w')) jid = Some j' \<and> terminal (job_State j) \<and> job_State j' = JobStateCancelled"
    (is "?P resp w'")
proof -
  have "wp (cancelJob (memory_service cfg C conv) jid) ?P w"
  proof (rule ms.wp_cancelJob [OF assms(1)], goal_cases)
    case (4 u k t now)
    from arg_cong [OF 4(5), of v_jobs] 4(2) assms(2,3) show ?case by (auto simp: terminal_def simp del: mem_abs_sel)
  qed (use assms(2,3) in \<open>auto simp: cancel_terminal_def\<close>)
  from wp_runD [OF this assms(4)] show ?thesis .
qed

section \<open>The analytical plane\<close>

text \<open>What the analytics backend answers to a question, as the body of a response.\<close>

fun backend_report ::
    "('s, 'q) Server \<Rightarrow> Querier \<Rightarrow> (string \<times> string) list \<Rightarrow> ext \<Rightarrow> TimeRange \<Rightarrow> TimeRange \<Rightarrow> AnalyticsPath \<Rightarrow> Body res" where
  "backend_report srv q params y tr base PathThroughput =
     map_sum id BodyThroughput
       (qa_Throughput q y tr (if query_get params ''grain'' = '''' then ''minute'' else query_get params ''grain''))"
| "backend_report srv q params y tr base PathLatency = map_sum id BodyLatency (qa_Latency q y tr)"
| "backend_report srv q params y tr base PathFailures = map_sum id BodyFailures (qa_Failures q y tr)"
| "backend_report srv q params y tr base PathRetries = map_sum id BodyFailures (qa_Failures q y tr)"
| "backend_report srv q params y tr base PathWorkers = map_sum id BodyWorkerStats (qa_Workers q y tr)"
| "backend_report srv q params y tr base PathQueue = map_sum id BodyQueue (qa_Queue q y tr)"
| "backend_report srv q params y tr base PathScheduler = map_sum id BodyScheduler (qa_Scheduler q y tr)"
| "backend_report srv q params y tr base PathCapacity =
     map_sum id BodyCapacity (qa_Capacity q y tr (target_of srv params))"
| "backend_report srv q params y tr base PathAnomalies = map_sum id BodyAnomalies (qa_Anomalies q y tr base)"

text \<open>The period a request asks about, with the default of its endpoint; anomalies are never refused.\<close>

definition asked_period ::
    "('s, 'q) Server \<Rightarrow> (string \<times> string) list \<Rightarrow> ext \<Rightarrow> AnalyticsPath \<Rightarrow> (TimeRange \<times> TimeRange) res" where
  "asked_period srv params x path =
     (if path = PathAnomalies then Inr (anomaly_ranges srv params x)
      else map_sum id (\<lambda>tr. (tr, tr))
        (parseRange srv params (if path \<in> {PathScheduler, PathCapacity} then 24 * 3600 * Second else 3600 * Second) x))"


end
