(* ===== verification/System.thy ===== *)
theory System
  imports ApiProps
begin

text \<open>
  The whole service as a state machine: requests of clients, calls of workers, the ticks of the
  scheduler, the consumer of the queue and the goroutine that releases delayed messages, in any
  order. A step runs one handler to its end; what the outside world hands out during a step (times,
  identifiers, replies of workers) is arbitrary, except that identifiers are not in use.
\<close>

section \<open>Steps\<close>

text \<open>One round of \<open>StartConsumer\<close>: take the first message, handle it, and put it back if that fails.\<close>

definition consume :: "('s, MemQueue) Service \<Rightarrow> ('s, MemQueue, unit) handler" where
  "consume D = do {
     t \<leftarrow> State (\<lambda>w. case mq_take (w_queue w) of (t, q) \<Rightarrow> (t, w\<lparr>w_queue := q\<rparr>));
     (case t of
        TakeWait \<Rightarrow> ret ()
      | TakeClosed \<Rightarrow> ret ()
      | TakeJob m \<Rightarrow> do {
          e \<leftarrow> handleQueuedJob D m;
          (case e of
             None \<Rightarrow> ret ()
           | Some err \<Rightarrow> do { _ \<leftarrow> queue_upd (\<lambda>x. q_Enqueue (sv_queue D) x m); ret () }) }) }"

datatype Op =
    OpHttp Request | OpRegister RegisterRequest | OpHeartbeat HeartbeatRequest
  | OpDeregister DeregisterRequest | OpReport ReportResultRequest
  | OpTick | OpConsume | OpRelease | OpClose

definition ignore :: "('s, 'a) state \<Rightarrow> ('s, unit) state" where
  "ignore m = do { _ \<leftarrow> m; ret () }"

definition perform :: "('s, MemQueue) Server \<Rightarrow> Op \<Rightarrow> ('s, MemQueue, unit) handler" where
  "perform srv p =
     (let D = srv_deps srv; a = srv_auth srv in
      case p of
        OpHttp req \<Rightarrow> ignore (Handler srv None req)
      | OpRegister r \<Rightarrow> ignore (grpc_Register D a r)
      | OpHeartbeat r \<Rightarrow> ignore (grpc_Heartbeat D a r)
      | OpDeregister r \<Rightarrow> ignore (grpc_Deregister D a r)
      | OpReport r \<Rightarrow> ignore (grpc_ReportResult D a r)
      | OpTick \<Rightarrow> poll_tick D
      | OpConsume \<Rightarrow> consume D
      | OpRelease \<Rightarrow> do { x \<leftarrow> next_ext; modifyS (\<lambda>w. w\<lparr>w_queue := releaseDelayed x (w_queue w)\<rparr>) }
      | OpClose \<Rightarrow> modifyS (\<lambda>w. w\<lparr>w_queue := mq_Close (w_queue w)\<rparr>))"

text \<open>The values the outside world may hand out in a state.\<close>

definition outside :: "(nat \<Rightarrow> ext) \<Rightarrow> (Store, MemQueue) World \<Rightarrow> bool" where
  "outside xs w \<longleftrightarrow> (\<forall>n. ext_ok (xs n) \<and> map_of (st_jobs (w_store w)) (x_uuid (xs n) 0) = None)"

inductive sys_run :: "(Store, MemQueue) Server \<Rightarrow> (Store, MemQueue) World \<Rightarrow> Op list \<Rightarrow> (Store, MemQueue) World \<Rightarrow> bool"
  for srv where
  sys_Nil: "sys_run srv w [] w"
| sys_snoc: "sys_run srv w ps u \<Longrightarrow> outside xs u \<Longrightarrow> exec (perform srv p) (u\<lparr>w_ext := xs\<rparr>) = w' \<Longrightarrow>
             sys_run srv w (ps @ [p]) w'"

section \<open>A short run\<close>

definition demo_srv :: "(Store, MemQueue) Server" where
  "demo_srv = \<lparr>srv_deps = memory_service demo_cfg demo_cron (\<lambda>_. 0), srv_auth = auth_New [] [] True, srv_backends = [''memory''], srv_analytics = None, srv_lib = demo_lib\<rparr>"

definition demo_ext :: "string \<Rightarrow> nat \<Rightarrow> ext" where
  "demo_ext u n = ext0\<lparr>x_uuid := \<lambda>_. u\<rparr>"

definition demo_post :: "CreateJobRequest \<Rightarrow> Op" where
  "demo_post req = OpHttp \<lparr>rq_header = [], rq_endpoint = PostJobs (Inr req)\<rparr>"

definition demo_step :: "string \<Rightarrow> Op \<Rightarrow> (Store, MemQueue) World \<Rightarrow> (Store, MemQueue) World" where
  "demo_step u p w = exec (perform demo_srv p) (w\<lparr>w_ext := demo_ext u\<rparr>)"

definition demo_start :: "(Store, MemQueue) World" where
  "demo_start = NewService mem_New mq_New (demo_ext ''u'')"

text \<open>A job is created and cancelled before it starts.\<close>

definition demo_created :: "(Store, MemQueue) World" where
  "demo_created = demo_step ''a'' (demo_post demo_create) demo_start"

definition demo_cancelled :: "(Store, MemQueue) World" where
  "demo_cancelled = demo_step ''b'' (OpHttp \<lparr>rq_header = [], rq_endpoint = PostCancel ''a''\<rparr>) demo_created"

lemma demo_srv_deps [simp]: "srv_deps demo_srv = memory_service demo_cfg demo_cron (\<lambda>_. 0)"
  by (simp add: demo_srv_def)

lemma demo_outside: "u \<noteq> '''' \<Longrightarrow> map_of (st_jobs (w_store w)) u = None \<Longrightarrow> outside (demo_ext u) w"
  by (simp add: outside_def demo_ext_def ext_ok_def ext0_def)

lemma demo_run_snoc:
  "sys_run demo_srv w ps u \<Longrightarrow> i \<noteq> '''' \<Longrightarrow> map_of (st_jobs (w_store u)) i = None \<Longrightarrow>
   sys_run demo_srv w (ps @ [p]) (demo_step i p u)"
  using sys_snoc [OF _ demo_outside refl] by (simp add: demo_step_def)


section \<open>The invariant\<close>

definition carried_all :: "(Store, MemQueue) World \<Rightarrow> bool" where
  "carried_all w \<longleftrightarrow> (\<forall>m\<in>#pending (w_queue w). carried (map_of (st_jobs (w_store w))) m)"

definition sys_inv :: "(Store, MemQueue) World \<Rightarrow> bool" where
  "sys_inv w \<longleftrightarrow> mem_inv (w_store w) \<and> conns_ok w \<and> carried_all w"

lemma sys_inv_alive: "(\<forall>n. ext_ok (w_ext w n)) \<Longrightarrow> sys_inv w \<longleftrightarrow> ms.alive w"
  by (simp add: sys_inv_def ms.alive_def sound_world_def exts_ok_def carried_all_def)

lemma alive_sys_inv: "ms.alive w \<Longrightarrow> sys_inv w"
  by (simp add: sys_inv_def ms.alive_def sound_world_def carried_all_def)

lemma keeps_ignore: "keeps I m \<Longrightarrow> keeps I (ignore m)"
  unfolding ignore_def by (intro keeps_rules)

lemma exec_ignore [simp]: "exec (ignore m) w = exec m w"
  by (simp add: ignore_def split_beta)

lemma pending_take: "mq_take q = (TakeJob m, q') \<Longrightarrow> pending q = add_mset m (pending q')"
  by (cases "mq_items q") (auto simp: mq_take_def pending_def split: if_splits)

lemma take_nothing: "mq_take q = (t, q') \<Longrightarrow> (\<And>m. t \<noteq> TakeJob m) \<Longrightarrow> q' = q"
  by (auto simp: mq_take_def split: if_splits)

lemma served_queue:
  assumes "ms.served A w" "pending q \<subseteq># pending (w_queue w)"
  shows "ms.served A (w\<lparr>w_queue := q\<rparr>)"
  using assms mset_subset_eqD by (fastforce simp: ms.served_def fresh_ids_def conns_ok_def)

lemma keeps_consume: "keeps (ms.served A) (consume (memory_service cfg C conv))"
  unfolding keeps_def
proof (intro allI impI)
  fix w :: "(Store, MemQueue) World"
  assume w: "ms.served A w"
  let ?D = "memory_service cfg C conv"
  obtain t q where t: "mq_take (w_queue w) = (t, q)" by (metis surj_pair)
  show "ms.served A (exec (consume ?D) w)"
  proof (cases "\<exists>m. t = TakeJob m")
    case False
    then have "q = w_queue w" using take_nothing [OF t] by blast
    with False t w show ?thesis by (cases t) (simp_all add: consume_def)
  next
    case True
    then obtain m where m: "t = TakeJob m" by blast
    have p: "pending (w_queue w) = add_mset m (pending q)" using pending_take t m by simp
    have c: "carried (a_jobs A) m" using w p by (simp add: ms.served_def)
    have u: "ms.served A (w\<lparr>w_queue := q\<rparr>)" by (rule served_queue [OF w]) (simp add: p)
    have "keeps (ms.served A) (queue_upd (\<lambda>x. q_Enqueue (sv_queue ?D) x m))"
      using ms.keeps_enqueue [OF c, of cfg C conv] .
    then have "keeps (ms.served A) (handleQueuedJob ?D m \<bind> (\<lambda>e. case e of None \<Rightarrow> ret ()
        | Some err \<Rightarrow> queue_upd (\<lambda>x. q_Enqueue (sv_queue ?D) x m) \<bind> (\<lambda>_. ret ())))"
      by (intro keeps_rules ms.keeps_handleQueuedJob)
    from keepsD [OF this u] show ?thesis using t m by (simp add: consume_def del: memory_service_sel)
  qed
qed

lemma keeps_grpc:
  fixes D :: "(Store, MemQueue) Service"
  assumes "D = memory_service cfg C conv"
  shows "keeps (ms.served A) (grpc_Register D a rg)" "keeps (ms.served A) (grpc_Heartbeat D a hb)"
    "keeps (ms.served A) (grpc_Deregister D a dg)" "keeps (ms.served A) (grpc_ReportResult D a rq)"
  unfolding assms grpc_Register_def grpc_Heartbeat_def grpc_Deregister_def grpc_ReportResult_def
  by (intro keeps_rules ms.keeps_RegisterWorker ms.keeps_Heartbeat ms.keeps_Deregister ms.keeps_HandleResult)+

lemma alive_Handler:
  fixes srv :: "(Store, MemQueue) Server"
  assumes D: "srv_deps srv = memory_service cfg C conv"
    and w: "ms.alive w" "fresh_ids (v_jobs (view mem_abs w)) w"
  shows "ms.alive (exec (Handler srv ping req) w) \<and>
    grown (w_store (view mem_abs w)) (w_store (view mem_abs (exec (Handler srv ping req) w)))"
proof -
  let ?P = "\<lambda>u. ms.alive u \<and> grown (w_store (view mem_abs w)) (w_store (view mem_abs u))"
  have k: "?P (exec m w)" if "\<And>A. keeps (ms.served A) m" for m :: "(Store, MemQueue, Response) handler"
    using ms.alive_keeps [OF w that] .
  have "?P (exec (dispatch srv ping ep) w)" for ep
  proof (cases ep)
    case (PostJobs body)
    then show ?thesis using ms.alive_createJob [OF w] D by (simp add: dispatch_def)
  next
    case (GetJobs s l)
    have "keeps (ms.served A) (dispatch srv ping ep)" for A
      unfolding GetJobs dispatch_def D api_listJobs_def Endpoint.case by (intro keeps_rules ms.keeps_readers)
    then show ?thesis by (rule k)
  next
    case (GetJobById jid)
    have "keeps (ms.served A) (dispatch srv ping ep)" for A
      unfolding GetJobById dispatch_def D api_getJob_def Endpoint.case by (intro keeps_rules ms.keeps_readers)
    then show ?thesis by (rule k)
  next
    case (PostCancel jid)
    have "keeps (ms.served A) (dispatch srv ping ep)" for A
      unfolding PostCancel dispatch_def D Endpoint.case by (rule ms.keeps_cancelJob)
    then show ?thesis by (rule k)
  next
    case GetWorkers
    have "keeps (ms.served A) (dispatch srv ping ep)" for A
      unfolding GetWorkers dispatch_def D api_listWorkers_def Endpoint.case by (intro keeps_rules ms.keeps_readers)
    then show ?thesis by (rule k)
  qed (rule k, simp add: dispatch_def keeps_ret keeps_analytics ms.served_fields split: option.split)+
  moreover have "?P w" using w by simp
  ultimately show ?thesis by (simp add: Handler_def HTTPMiddleware_def)
qed

lemma alive_perform:
  fixes srv :: "(Store, MemQueue) Server"
  assumes D: "srv_deps srv = memory_service cfg C conv"
    and w: "ms.alive w" "fresh_ids (v_jobs (view mem_abs w)) w"
  shows "ms.alive (exec (perform srv p) w) \<and>
    grown (w_store (view mem_abs w)) (w_store (view mem_abs (exec (perform srv p) w)))"
proof -
  let ?P = "\<lambda>u. ms.alive u \<and> grown (w_store (view mem_abs w)) (w_store (view mem_abs u))"
  have k: "?P (exec m w)" if "\<And>A. keeps (ms.served A) m" for m :: "(Store, MemQueue, unit) handler"
    using ms.alive_keeps [OF w that] .
  show ?thesis
  proof (cases p)
    case (OpHttp req)
    then show ?thesis using alive_Handler [OF D w] by (simp add: perform_def)
  next
    case OpTick
    then show ?thesis
      using ms.served_alive [OF ms.served_poll_tick [OF ms.served_self [OF w]]] D by (simp add: perform_def)
  next
    case OpRelease
    have "keeps (ms.served A) (modifyS (\<lambda>w. w\<lparr>w_queue := releaseDelayed x (w_queue w)\<rparr>))" for A x
      by (rule keeps_modifyS) (auto intro!: served_queue simp: releaseDelayed_spec)
    then have "keeps (ms.served A) (perform srv p)" for A
      unfolding OpRelease perform_def Let_def Op.case by (intro keeps_rules ms.keeps_next_ext)
    then show ?thesis by (rule k)
  next
    case OpClose
    have "keeps (ms.served A) (modifyS (\<lambda>w. w\<lparr>w_queue := mq_Close (w_queue w)\<rparr>))" for A
      by (rule keeps_modifyS) (auto intro!: served_queue simp: mq_Close_def pending_def)
    then have "keeps (ms.served A) (perform srv p)" for A unfolding OpClose perform_def Let_def Op.case .
    then show ?thesis by (rule k)
  next
    case OpConsume
    then show ?thesis using k [OF keeps_consume] D by (simp add: perform_def)
  qed (rule k, simp add: perform_def keeps_ignore keeps_grpc [OF D])+
qed

section \<open>Runs\<close>

lemma grown_trans:
  assumes "grown A B" "grown B C"
  shows "grown A C"
proof -
  have ev: "evolves (a_jobs A) (a_jobs C)" using assms grown_evolves evolves_trans by blast
  have "a_jobs B jid \<noteq> None" if "a_jobs A jid \<noteq> None" for jid
    using grown_evolves [OF assms(1)] that unfolding evolves_def by fastforce
  with ev assms show ?thesis unfolding grown_def by blast
qed

lemma outside_world:
  assumes "outside xs u" "sys_inv u"
  shows "ms.alive (u\<lparr>w_ext := xs\<rparr>)" "fresh_ids (v_jobs (view mem_abs (u\<lparr>w_ext := xs\<rparr>))) (u\<lparr>w_ext := xs\<rparr>)"
  using assms by (simp_all add: outside_def sys_inv_def ms.alive_def sound_world_def exts_ok_def carried_all_def
      fresh_ids_def conns_ok_def)

lemma sys_step_inv:
  assumes D: "srv_deps srv = memory_service cfg C conv" and "outside xs u" "sys_inv u"
  shows "sys_inv (exec (perform srv p) (u\<lparr>w_ext := xs\<rparr>)) \<and>
    grown (mem_abs (w_store u)) (mem_abs (w_store (exec (perform srv p) (u\<lparr>w_ext := xs\<rparr>))))"
  using alive_perform [OF D outside_world [OF assms(2,3)], of p] alive_sys_inv by auto

lemma sys_run_inv:
  assumes "srv_deps srv = memory_service cfg C conv" "sys_run srv w ps u" "sys_inv w"
  shows "sys_inv u \<and> grown (mem_abs (w_store w)) (mem_abs (w_store u))"
  using assms(2,3)
proof (induction rule: sys_run.induct)
  case (sys_Nil w)
  then show ?case by simp
next
  case (sys_snoc w ps u xs p w')
  then have u: "sys_inv u" "grown (mem_abs (w_store w)) (mem_abs (w_store u))" by simp_all
  from sys_step_inv [OF assms(1) sys_snoc.hyps(2) u(1), of p] sys_snoc.hyps(3) grown_trans [OF u(2)] show ?case by auto
qed

lemma sys_inv_initial [simp]: "sys_inv (NewService mem_New mq_New xs)"
  by (simp add: sys_inv_def NewService_def conns_ok_def carried_all_def mq_New_def pending_def)

text \<open>
  C1 (the system invariant): whatever clients, workers, the scheduler's ticks and the consumer do,
  and in whatever order, every message that waits in the queue is for a stored job and carries
  the name, type, payload, priority and timeout of that job; no job disappears or changes what it
  is; and an idempotency key goes on naming the same job.
\<close>

theorem system_invariant:
  assumes "srv_deps srv = memory_service cfg C conv"
    and "sys_run srv (NewService mem_New mq_New xs) ps w" "sys_run srv w qs w'"
  shows "(\<forall>m\<in>#pending (w_queue w'). \<exists>j. map_of (st_jobs (w_store w')) (qj_JobID m) = Some j \<and> carries m j) \<and>
    (\<forall>jid j. map_of (st_jobs (w_store w)) jid = Some j \<longrightarrow>
       (\<exists>j'. map_of (st_jobs (w_store w')) jid = Some j' \<and> same_work j j')) \<and>
    (\<forall>key jid. map_of (st_byIdem (w_store w)) key = Some jid \<longrightarrow> map_of (st_byIdem (w_store w')) key = Some jid)"
proof -
  have w: "sys_inv w" using sys_run_inv [OF assms(1,2)] by simp
  from sys_run_inv [OF assms(1,3) w] show ?thesis
    unfolding sys_inv_def carried_all_def carried_def grown_def evolves_def mem_abs_sel by blast
qed

theorem system_invariant_witness:
  "mq_items (w_queue demo_created) \<noteq> [] \<and> carried_all demo_created"
proof -
  have r0: "sys_run demo_srv demo_start [] demo_start" by (rule sys_Nil)
  have "sys_run demo_srv demo_start ([] @ [demo_post demo_create]) demo_created"
    unfolding demo_created_def by (rule demo_run_snoc [OF r0]) (simp_all add: demo_start_def NewService_def mem_New_def)
  from system_invariant [OF demo_srv_deps r0 [unfolded demo_start_def] this [unfolded demo_start_def]]
  have "carried_all demo_created" by (simp add: carried_all_def carried_def)
  moreover have "mq_items (w_queue demo_created) \<noteq> []" by code_simp
  ultimately show ?thesis by simp
qed


section \<open>Jobs that are over\<close>

definition kept :: "string \<Rightarrow> Job \<Rightarrow> (Store, MemQueue) World \<Rightarrow> bool" where
  "kept jid j w \<longleftrightarrow> map_of (st_jobs (w_store w)) jid = Some j"

lemma keeps_kept_readers [keeps_rules]:
  "keeps (kept jid j) next_ext" "keeps (kept jid j) (store_get f)"
  "keeps (kept jid j) (queue_upd g)" "keeps (kept jid j) (modifyS (\<lambda>w. w\<lparr>w_queue := h w\<rparr>))"
  by (simp_all add: keeps_def kept_def next_ext_def store_get_def queue_upd_def split_beta)

text \<open>A step that does not create a job under a key of the job \<open>jid\<close>.\<close>

definition other_request :: "Store \<Rightarrow> string \<Rightarrow> Op \<Rightarrow> bool" where
  "other_request s jid p \<longleftrightarrow>
     (case p of
        OpHttp req \<Rightarrow>
          (case rq_endpoint req of
             PostJobs (Inr r) \<Rightarrow> cr_IdempotencyKey r = '''' \<or> map_of (st_byIdem s) (cr_IdempotencyKey r) \<noteq> Some jid
           | _ \<Rightarrow> True)
      | _ \<Rightarrow> True)"

lemma other_request_mono:
  assumes "\<And>key. map_of (st_byIdem s) key \<noteq> Some jid \<Longrightarrow> map_of (st_byIdem s') key \<noteq> Some jid" "other_request s jid p"
  shows "other_request s' jid p"
proof (cases "\<exists>req r. p = OpHttp req \<and> rq_endpoint req = PostJobs (Inr r)")
  case True
  with assms show ?thesis by (auto simp: other_request_def)
next
  case False
  then show ?thesis by (auto simp: other_request_def split: Op.split Endpoint.split sum.split)
qed

lemma kept_untouched:
  "wp m (\<lambda>_ w'. sound_world mem_inv w' \<and> ms.untouched P w w') w \<Longrightarrow> kept jid j w \<Longrightarrow> P j \<Longrightarrow> kept jid j (exec m w)"
  by (drule wp_execD) (simp add: ms.untouched_def kept_def)

lemma kept_dispatch:
  assumes D: "srv_deps srv = memory_service cfg C conv"
    and w: "ms.alive w" "fresh_ids (v_jobs (view mem_abs w)) w"
    and j: "kept jid j w" "cancel_terminal (job_State j)"
    and other: "other_request (w_store w) jid (OpHttp req)"
  shows "kept jid j (exec (dispatch srv ping (rq_endpoint req)) w)"
proof -
  have g: "sound_world mem_inv w" using w(1) by (simp add: ms.alive_def)
  have k: "kept jid j (exec m w)" if "keeps (kept jid j) m" for m :: "(Store, MemQueue, Response) handler"
    by (rule keepsD [OF that j(1)])
  show ?thesis
  proof (cases "rq_endpoint req")
    case (PostJobs body)
    have "ms.other_key body (w_store (view mem_abs w)) jid"
      using other PostJobs by (simp add: other_request_def ms.other_key_def split: sum.splits)
    with wp_execD [OF ms.wp_createJob_others [OF g w(2), of jid j body cfg C conv]] j(1)
    show ?thesis using PostJobs D by (simp add: dispatch_def kept_def)
  next
    case (PostCancel i)
    then show ?thesis
      using kept_untouched [OF ms.wp_cancelJob_ended [OF g, of cfg C conv i] j] D by (simp add: dispatch_def)
  next
    case (GetJobs s l)
    show ?thesis unfolding GetJobs dispatch_def D api_listJobs_def Endpoint.case by (intro k keeps_rules)
  next
    case (GetJobById i)
    show ?thesis unfolding GetJobById dispatch_def D api_getJob_def getJob_def Endpoint.case by (intro k keeps_rules)
  next
    case GetWorkers
    show ?thesis unfolding GetWorkers dispatch_def D api_listWorkers_def Endpoint.case by (intro k keeps_rules)
  next
    case (GetAnalytics path params)
    show ?thesis unfolding GetAnalytics dispatch_def Endpoint.case by (rule k, rule keeps_analytics) (simp add: kept_def)
  qed (rule k, simp add: dispatch_def keeps_ret split: option.split)+
qed

lemma kept_view: "view mem_abs w' = u \<Longrightarrow> v_jobs u = v_jobs (view mem_abs w) \<Longrightarrow> kept jid j w \<Longrightarrow> kept jid j w'"
  by (auto simp: kept_def dest: arg_cong [of _ _ v_jobs])

lemma kept_consume:
  assumes w: "ms.alive w" and j: "kept jid j w" "terminal (job_State j)"
  shows "kept jid j (exec (consume (memory_service cfg C conv)) w)"
proof -
  let ?D = "memory_service cfg C conv"
  obtain t q where t: "mq_take (w_queue w) = (t, q)" by (metis surj_pair)
  let ?w = "w\<lparr>w_queue := q\<rparr>"
  have u: "kept jid j ?w" "sound_world mem_inv ?w" "conns_ok ?w"
    using w j by (simp_all add: kept_def ms.alive_def conns_ok_def)
  have h: "kept jid j (exec (handleQueuedJob ?D m) ?w)" for m
    by (rule kept_untouched [OF ms.wp_handleQueuedJob_ended [OF u(2,3)] u(1) j(2)])
  have "keeps (kept jid j) (queue_upd (\<lambda>x. q_Enqueue (sv_queue ?D) x m) \<bind> (\<lambda>_. ret ()))" for m
    by (intro keeps_rules)
  from keepsD [OF this h] h u(1) t show ?thesis
    by (cases t) (auto simp: consume_def split_beta split: option.splits simp del: memory_service_sel)
qed

lemma kept_workers:
  assumes "sound_world mem_inv w" "kept jid j w"
  shows "kept jid j (exec (RegisterWorker (memory_service cfg C conv) wk) w)"
    "kept jid j (exec (Heartbeat (memory_service cfg C conv) wid active cap) w)"
    "kept jid j (exec (Deregister (memory_service cfg C conv) wid) w)"
proof -
  have "wp (RegisterWorker (memory_service cfg C conv) wk) (\<lambda>_. kept jid j) w"
    by (rule ms.wp_RegisterWorker [OF assms(1)]) (erule kept_view, simp, rule assms(2))+
  then show "kept jid j (exec (RegisterWorker (memory_service cfg C conv) wk) w)" by (rule wp_execD)
  have "wp (Heartbeat (memory_service cfg C conv) wid active cap) (\<lambda>_. kept jid j) w"
    by (rule ms.wp_Heartbeat [OF assms(1)]) (erule kept_view, simp add: Let_def, rule assms(2))+
  then show "kept jid j (exec (Heartbeat (memory_service cfg C conv) wid active cap) w)" by (rule wp_execD)
  have "wp (Deregister (memory_service cfg C conv) wid) (\<lambda>_. kept jid j) w"
    by (rule ms.wp_Deregister [OF assms(1)]) (erule kept_view, simp, rule assms(2))
  then show "kept jid j (exec (Deregister (memory_service cfg C conv) wid) w)" by (rule wp_execD)
qed

lemma kept_grpc:
  assumes D: "D = memory_service cfg C conv"
    and w: "ms.alive w" "fresh_ids (v_jobs (view mem_abs w)) w"
    and j: "kept jid j w" "terminal (job_State j)"
  shows "kept jid j (exec (grpc_Register D a rg) w)" "kept jid j (exec (grpc_Heartbeat D a hb) w)"
    "kept jid j (exec (grpc_Deregister D a dg) w)" "kept jid j (exec (grpc_ReportResult D a rq) w)"
proof -
  have g: "sound_world mem_inv w" using w(1) by (simp add: ms.alive_def)
  show "kept jid j (exec (grpc_Register D a rg) w)"
    using kept_workers(1) [OF g j(1), of cfg C conv "worker_of rg"] j(1)
    by (simp add: D grpc_Register_def split_beta split: option.split)
  show "kept jid j (exec (grpc_Heartbeat D a hb) w)"
    using kept_workers(2) [OF g j(1), of cfg C conv "hb_WorkerId hb" "hb_ActiveJobs hb" "hb_Capacity hb"] j(1)
    by (simp add: D grpc_Heartbeat_def split_beta split: option.split)
  show "kept jid j (exec (grpc_Deregister D a dg) w)"
    using kept_workers(3) [OF g j(1), of cfg C conv "dg_WorkerId dg"] j(1) by (simp add: D grpc_Deregister_def split_beta)
  show "kept jid j (exec (grpc_ReportResult D a rq) w)"
    using kept_untouched [OF ms.wp_HandleResult_ended [OF g w(2)] j] j(1)
    by (simp add: D grpc_ReportResult_def split_beta split: option.split)
qed

lemma kept_perform:
  assumes D: "srv_deps srv = memory_service cfg C conv"
    and cfg: "0 \<le> sch_HeartbeatTimeout cfg" "0 \<le> sch_SuspectGracePeriod cfg"
      "sch_HeartbeatTimeout cfg + sch_SuspectGracePeriod cfg < 2 ^ 63"
    and w: "ms.alive w" "fresh_ids (v_jobs (view mem_abs w)) w"
    and j: "kept jid j w" "cancel_terminal (job_State j)"
    and other: "other_request (w_store w) jid p"
  shows "kept jid j (exec (perform srv p) w)"
proof -
  have t: "terminal (job_State j)" using j(2) by (auto simp: cancel_terminal_def terminal_def)
  have g: "sound_world mem_inv w" using w(1) by (simp add: ms.alive_def)
  show ?thesis
  proof (cases p)
    case (OpHttp req)
    then show ?thesis using kept_dispatch [OF D w j, of req None] other j(1)
      by (simp add: perform_def Handler_def HTTPMiddleware_def)
  next
    case OpTick
    have "ms.scan_ok cfg C conv" using cfg by (simp add: ms.scan_ok_def)
    from kept_untouched [OF ms.wp_poll_tick_ended [OF g this] j(1) t] OpTick D show ?thesis by (simp add: perform_def)
  next
    case OpConsume
    then show ?thesis using kept_consume [OF w(1) j(1) t] D by (simp add: perform_def)
  next
    case OpRelease
    then show ?thesis using j(1) by (simp add: perform_def kept_def next_ext_def)
  next
    case OpClose
    then show ?thesis using j(1) by (simp add: perform_def kept_def)
  qed (use kept_grpc [OF D w j(1) t] in \<open>simp_all add: perform_def\<close>)
qed



end
