(* ===== verification/MemStoreProps.thy ===== *)
theory MemStoreProps
  imports MemStore
begin

text \<open>
  Properties of the in-process store over arbitrary sequences of its operations: what a job is
  never changes, an idempotency key names the same job forever, a created job is read back, and
  the listing loops compute what their specification says.
\<close>

section \<open>Sequences of operations\<close>

text \<open>
  One mutating call on the store, with any outside values. The set names the identifiers under which
  no job is created by the step (the service draws a new UUID for every job); it may be empty.
\<close>

inductive mem_step :: "string set \<Rightarrow> Store \<Rightarrow> Store \<Rightarrow> bool" for P where
  step_CreateJob: "new_id x job \<notin> P \<Longrightarrow> mem_CreateJob x job s = (r, s') \<Longrightarrow> mem_step P s s'"
| step_UpdateJobStateIf: "mem_UpdateJobStateIf x jid st f onlyFrom s = (e, s') \<Longrightarrow> mem_step P s s'"
| step_CreateExecution: "mem_CreateExecution x ex s = (r', s') \<Longrightarrow> mem_step P s s'"
| step_FinishExecution: "mem_FinishExecution x xid est res s = (e, s') \<Longrightarrow> mem_step P s s'"
| step_UpsertWorker: "mem_UpsertWorker x wk s = (e, s') \<Longrightarrow> mem_step P s s'"
| step_MarkStaleWorkers: "mem_MarkStaleWorkers x d1 d2 s = (r'', s') \<Longrightarrow> mem_step P s s'"
| step_InsertOutbox: "mem_InsertOutbox x ev s = (e, s') \<Longrightarrow> mem_step P s s'"
| step_MarkOutboxPublished: "mem_MarkOutboxPublished x ids s = (e, s') \<Longrightarrow> mem_step P s s'"

definition keeps_work :: "string set \<Rightarrow> Store \<Rightarrow> Store \<Rightarrow> bool" where
  "keeps_work P s s' \<longleftrightarrow>
     (\<forall>jid j. map_of (st_jobs s) jid = Some j \<longrightarrow>
        (\<exists>k. map_of (st_jobs s') jid = Some k \<and> (jid \<in> P \<longrightarrow> same_work j k))) \<and>
     (\<forall>key jid. map_of (st_byIdem s) key = Some jid \<longrightarrow> map_of (st_byIdem s') key = Some jid)"

lemma keeps_work_refl: "keeps_work P s s"
  by (simp add: keeps_work_def)

lemma keeps_work_trans:
  assumes "keeps_work P s t" "keeps_work P t u"
  shows "keeps_work P s u"
  using assms same_work_trans unfolding keeps_work_def by meson

lemma keeps_work_same: "st_jobs s' = st_jobs s \<Longrightarrow> st_byIdem s' = st_byIdem s \<Longrightarrow> keeps_work P s s'"
  by (simp add: keeps_work_def)

lemma keeps_work_CreateJob:
  assumes "mem_inv s" "new_id x job \<notin> P" "mem_CreateJob x job s = (r, s')"
  shows "keeps_work P s s'"
proof (cases "job_IdempotencyKey job = '''' \<or> map_of (st_byIdem s) (job_IdempotencyKey job) = None")
  case True
  from mem_CreateJob_new [OF this, of x] assms(2,3) True show ?thesis
    by (auto simp: keeps_work_def)
next
  case False
  then obtain jid j where "map_of (st_byIdem s) (job_IdempotencyKey job) = Some jid"
    "map_of (st_jobs s) jid = Some j"
    using assms(1) unfolding mem_inv_def by blast
  with False assms show ?thesis by (simp add: mem_CreateJob_replay keeps_work_refl)
qed

lemma mem_step_keeps:
  assumes "mem_step P s s'" "mem_inv s"
  shows "mem_inv s' \<and> keeps_work P s s'"
  using assms
proof (induction rule: mem_step.induct)
  case (step_CreateJob s x job r s')
  then show ?case using mem_inv_CreateJob keeps_work_CreateJob by blast
next
  case (step_UpdateJobStateIf x jid st f onlyFrom s e s')
  then have "keeps_work P s s'"
    by (auto simp: keeps_work_def mem_UpdateJobStateIf_def split: option.splits if_splits)
  with step_UpdateJobStateIf mem_inv_UpdateJobStateIf show ?case by blast
qed (auto intro: keeps_work_same mem_inv_frame mem_inv_MarkStaleWorkers dest: mem_jobs_frame mem_keys_frame
      simp: mem_InsertOutbox_def mem_MarkOutboxPublished_def)

lemma mem_run_keeps:
  assumes "(mem_step P)\<^sup>*\<^sup>* s s'" "mem_inv s"
  shows "mem_inv s' \<and> keeps_work P s s'"
  using assms(1)
proof (induction rule: rtranclp_induct)
  case base
  then show ?case using assms(2) keeps_work_refl by blast
next
  case (step t u)
  then show ?case using mem_step_keeps keeps_work_trans by blast
qed


section \<open>Properties\<close>


text \<open>A store with one job, under an idempotency key.\<close>

definition demo_request :: Job where
  "demo_request =
     \<lparr>job_ID = ''j'', job_Name = ''n'', job_Type = JobTypeBuiltin, job_Payload = None,
      job_Priority = 5, job_State = JobStateScheduled,
      job_Schedule = \<lparr>sc_Type = ScheduleImmediate, sc_RunAt = None, sc_Delay = 0, sc_CronExpr = '''',
                      sc_Timezone = ''''\<rparr>,
      job_RetryPolicy = DefaultRetryPolicy, job_Timeout = 100, job_IdempotencyKey = ''k'',
      job_Attempt = 0, job_MaxAttempts = 3, job_WorkerID = '''', job_ExecutionID = '''',
      job_LastError = '''', job_ScheduledAt = Some 5, job_QueuedAt = None, job_StartedAt = None,
      job_CompletedAt = None, job_NextRetryAt = None, job_CreatedAt = 0, job_UpdatedAt = 0,
      job_Metadata = Some [(''a'', ''1''), (''b'', ''2'')]\<rparr>"

definition demo_store :: Store where
  "demo_store = snd (mem_CreateJob ext0 demo_request mem_New)"

lemma demo_store_eq:
  "demo_store = mem_New\<lparr>st_jobs := [(''j'', stored demo_request ''j'' 1000 (job_Metadata demo_request))],
                        st_byIdem := [(''k'', ''j'')]\<rparr>"
  by (simp add: demo_store_def mem_CreateJob_def mem_New_def demo_request_def ext0_def Let_def gput_def
      stored_def clone_def cloneJob_def range_map_def)

lemma demo_store_run: "(mem_step {})\<^sup>*\<^sup>* mem_New demo_store"
proof -
  have "mem_CreateJob ext0 demo_request mem_New = (fst (mem_CreateJob ext0 demo_request mem_New), demo_store)"
    by (simp add: demo_store_def)
  then have "mem_step {} mem_New demo_store" by (rule step_CreateJob [rotated]) simp
  then show ?thesis by blast
qed


text \<open>
  C13 (idempotency): once a job has been created under an idempotency key, every later creation
  with that key, after any sequence of store operations, returns that very job, as it stands,
  and leaves the store as it is.
\<close>

theorem idempotency_key_permanent:
  assumes "(mem_step {})\<^sup>*\<^sup>* mem_New s" "(mem_step {})\<^sup>*\<^sup>* s s'" "ext_ok x"
    and "map_of (st_byIdem s) (job_IdempotencyKey job) = Some jid" "job_IdempotencyKey job \<noteq> ''''"
  shows "\<exists>j md. map_of (st_jobs s') jid = Some j \<and> same_metadata (job_Metadata j) md \<and>
     mem_CreateJob x job s' = (Inr (j\<lparr>job_Metadata := md\<rparr>), s')"
proof -
  have inv: "mem_inv s" using mem_run_keeps [OF assms(1)] by simp
  from mem_run_keeps [OF assms(2) this] assms(4)
  have inv': "mem_inv s'" and key: "map_of (st_byIdem s') (job_IdempotencyKey job) = Some jid"
    unfolding keeps_work_def by blast+
  then obtain j where j: "map_of (st_jobs s') jid = Some j" unfolding mem_inv_def by blast
  obtain md where md: "clone (x_order x) j = j\<lparr>job_Metadata := md\<rparr>" "same_metadata (job_Metadata j) md"
    using clone_eq [of "x_order x" j] assms(3) unfolding ext_ok_def by blast
  from mem_CreateJob_replay [OF assms(5) key j, of x] md j show ?thesis by auto
qed

theorem idempotency_key_permanent_witness:
  "snd (mem_CreateJob ext0 (demo_request\<lparr>job_ID := ''other'', job_Name := ''m''\<rparr>) demo_store) = demo_store"
  using idempotency_key_permanent [OF demo_store_run, of demo_store ext0 "demo_request\<lparr>job_ID := ''other'', job_Name := ''m''\<rparr>" "''j''"]
  by (auto simp: demo_store_eq demo_request_def ext_ok_def ext0_def)

text \<open>
  A created job is read back: a job created under a fresh key, or without one, is returned
  by the next read of its identifier field by field, with the same metadata.
\<close>

theorem create_get_roundtrip:
  assumes "ext_ok x" "ext_ok y"
    and "job_IdempotencyKey job = '''' \<or> map_of (st_byIdem s) (job_IdempotencyKey job) = None"
  shows "\<exists>k s' md. mem_CreateJob x job s = (Inr k, s') \<and> mem_GetJob y (job_ID k) s' = Inr (k\<lparr>job_Metadata := md\<rparr>) \<and>
     same_metadata (job_Metadata job) md \<and> same_work (job\<lparr>job_ID := job_ID k, job_CreatedAt := x_now x 0\<rparr>) k \<and>
     job_State k = job_State job"
proof -
  let ?k = "stored job (new_id x job) (x_now x 0) (job_Metadata job)"
  obtain md where md: "clone (x_order x) ?k = ?k\<lparr>job_Metadata := md\<rparr>" "same_metadata (job_Metadata ?k) md"
    using clone_eq [of "x_order x" ?k] assms(1) unfolding ext_ok_def by blast
  obtain md' where md': "clone (x_order y) (?k\<lparr>job_Metadata := md\<rparr>) = ?k\<lparr>job_Metadata := md'\<rparr>"
    "same_metadata md md'"
    using clone_eq [of "x_order y" "?k\<lparr>job_Metadata := md\<rparr>"] assms(2) unfolding ext_ok_def by auto
  have "same_metadata (job_Metadata job) md'"
    using md(2) md'(2) by (simp add: same_metadata_def stored_def)
  then show ?thesis
    using mem_CreateJob_new [OF assms(3), of x] md(1) md'
    by (auto simp: mem_GetJob_def same_work_def stored_def)
qed

theorem create_get_roundtrip_witness:
  "\<exists>k md. mem_GetJob ext0 (job_ID k) demo_store = Inr (k\<lparr>job_Metadata := md\<rparr>) \<and> job_Name k = ''n''"
proof -
  have "ext_ok ext0" "map_of (st_byIdem mem_New) (job_IdempotencyKey demo_request) = None"
    by (simp_all add: ext_ok_def ext0_def mem_New_def)
  from create_get_roundtrip [OF this(1) this(1) disjI2, OF this(2)] obtain k s' md where
    "mem_CreateJob ext0 demo_request mem_New = (Inr k, s')" "mem_GetJob ext0 (job_ID k) s' = Inr (k\<lparr>job_Metadata := md\<rparr>)"
    "job_Name k = job_Name demo_request" by (auto simp: same_work_def)
  then show ?thesis by (intro exI [of _ k] exI [of _ md]) (simp add: demo_store_def demo_request_def)
qed

text \<open>
  C36 (listings): the loop of \<open>ListJobs\<close>, with its early exit, computes the first jobs, up to the
  limit (50 when none is given), among those in the requested state in the order in which the map
  is visited, each as a copy.
\<close>

theorem ListJobs_reference:
  "mem_ListJobs x state limit s =
     Inr (map (clone (x_order x))
           (take (nat (if limit \<le> 0 then 50 else limit))
             (filter (\<lambda>j. state = '''' \<or> JobState_string (job_State j) = state) (jobs_in_order x s))))"
proof -
  have "(\<lambda>j. \<not> (state \<noteq> '''' \<and> JobState_string (job_State j) \<noteq> state)) =
      (\<lambda>j. state = '''' \<or> JobState_string (job_State j) = state)" by auto
  then show ?thesis by (simp add: mem_ListJobs_def Let_def list_loop_exact)
qed

end
