(* ===== verification/Execution.thy ===== *)
theory Execution
  imports Json
begin

text \<open>
  The executors a worker runs, \<^verbatim>\<open>internal/execution\<close>. A context is the instant at which it is
  done, with its error; the outcome of an HTTP request is a parameter.
\<close>

section \<open>Payloads\<close>

record BuiltinPayload =
  bp_Handler :: string
  bp_Args :: rawmsg

definition builtin_fields :: "(string \<times> BuiltinPayload setter) list" where
  "builtin_fields =
     [(''handler'', set_string (\<lambda>s p. p\<lparr>bp_Handler := s\<rparr>)), (''args'', set_raw (\<lambda>r p. p\<lparr>bp_Args := r\<rparr>))]"

record WebhookPayload =
  hp_URL :: string
  hp_Method :: string
  hp_Headers :: metadata
  hp_Body :: rawmsg

definition webhook_fields :: "(string \<times> WebhookPayload setter) list" where
  "webhook_fields =
     [(''url'', set_string (\<lambda>s p. p\<lparr>hp_URL := s\<rparr>)), (''method'', set_string (\<lambda>s p. p\<lparr>hp_Method := s\<rparr>)),
      (''headers'', set_string_map (\<lambda>m p. p\<lparr>hp_Headers := m\<rparr>)), (''body'', set_raw (\<lambda>r p. p\<lparr>hp_Body := r\<rparr>))]"

definition duration_args :: "rawmsg \<Rightarrow> int" where
  "duration_args raw = snd (Unmarshal [(''duration_ms'', set_int (\<lambda>n _. n))] 0 raw)"

definition echo_args :: "rawmsg \<Rightarrow> string" where
  "echo_args raw = snd (Unmarshal [(''message'', set_string (\<lambda>s _. s))] '''' raw)"

record failArgs =
  fa_Message :: string
  fa_Retryable :: bool

definition fail_args :: "rawmsg \<Rightarrow> failArgs" where
  "fail_args raw =
     snd (Unmarshal [(''message'', set_string (\<lambda>s p. p\<lparr>fa_Message := s\<rparr>)),
                     (''retryable'', set_bool (\<lambda>b p. p\<lparr>fa_Retryable := b\<rparr>))]
            \<lparr>fa_Message = '''', fa_Retryable = False\<rparr> raw)"


section \<open>Contexts and the environment of an execution\<close>

text \<open>
  A context created with a timeout when the execution starts: it is done at its deadline, or
  when it is cancelled before. Times are relative to the start.
\<close>

record Context =
  cx_deadline :: duration
  cx_cancelled :: "duration option"

definition ctx_done :: "Context \<Rightarrow> duration \<times> Error" where
  "ctx_done c =
     (case cx_cancelled c of
        Some t \<Rightarrow> if t < cx_deadline c then (t, ErrCanceled) else (cx_deadline c, ErrDeadlineExceeded)
      | None \<Rightarrow> (cx_deadline c, ErrDeadlineExceeded))"

datatype HttpOutcome =
    HttpFailed Error string
  | HttpResponse int string

record HttpRequest =
  hq_Method :: string
  hq_URL :: string
  hq_Header :: header
  hq_Body :: rawmsg

text \<open>
  What an execution reads from outside: the elapsed time its result carries, the text of a JSON
  error, which branch a \<open>select\<close> takes when both are ready, the clock and the state of the context
  at each turn of a busy loop, the iteration order of a map, whether an HTTP request can be
  built, and what it yields.
\<close>

record exec_env =
  ee_elapsed :: duration
  ee_jsonerr :: "rawmsg \<Rightarrow> string"
  ee_tie :: bool
  ee_clock :: "nat \<Rightarrow> duration"
  ee_done :: "nat \<Rightarrow> bool"
  ee_order :: order
  ee_newreq :: "string \<Rightarrow> string \<Rightarrow> Error option"
  ee_http :: "HttpRequest \<Rightarrow> HttpOutcome"

definition mk_result ::
    "exec_env \<Rightarrow> bool \<Rightarrow> rawmsg \<Rightarrow> string \<Rightarrow> bool \<Rightarrow> ResultReason \<Rightarrow> ExecutionResult" where
  "mk_result E success out err retryable reason =
     \<lparr>er_Success = success, er_Output = out, er_Error = err, er_Retryable = retryable,
      er_Duration = ee_elapsed E, er_Reason = reason\<rparr>"

definition ctxResult :: "exec_env \<Rightarrow> Error \<Rightarrow> ExecutionResult" where
  "ctxResult E err =
     (if err = ErrDeadlineExceeded then mk_result E False None ''timeout'' True ReasonTimeout
      else mk_result E False None ''cancelled'' False ReasonCancelled)"

section \<open>Builtin jobs\<close>

definition run_sleep :: "exec_env \<Rightarrow> Context \<Rightarrow> rawmsg \<Rightarrow> ExecutionResult" where
  "run_sleep E ctx args =
     (let ms = duration_args args;
          ms = (if ms \<le> 0 then 100 else ms);
          d = wrap64 (ms * Millisecond);
          (t, err) = ctx_done ctx
      in if t < d \<or> t = d \<and> ee_tie E then ctxResult E err
         else mk_result E True (Some (JObj [(''slept_ms'', JInt ms)])) '''' False ReasonSuccess)"

definition run_echo :: "exec_env \<Rightarrow> rawmsg \<Rightarrow> ExecutionResult" where
  "run_echo E args =
     mk_result E True (Some (JObj [(''echo'', JStr (echo_args args))])) '''' False ReasonSuccess"

definition run_fail :: "exec_env \<Rightarrow> rawmsg \<Rightarrow> ExecutionResult" where
  "run_fail E args =
     (let a = fail_args args;
          msg = (if fa_Message a = '''' then ''intentional failure'' else fa_Message a)
      in mk_result E False None msg (fa_Retryable a) ReasonFailed)"

text \<open>
  The busy loop: it reads the clock, then the context, then counts. It ends only if the clock
  reaches the deadline or the context is done, so its value is an option.
\<close>

partial_function (option) burn_loop ::
    "(nat \<Rightarrow> duration) \<Rightarrow> (nat \<Rightarrow> bool) \<Rightarrow> duration \<Rightarrow> nat \<Rightarrow> int \<Rightarrow> (unit + int) option" where
  "burn_loop clk don deadline i x =
     (if clk i < deadline
      then if don i then Some (Inl ()) else burn_loop clk don deadline (Suc i) (x + 1)
      else Some (Inr x))"

definition run_cpu_burn :: "exec_env \<Rightarrow> Context \<Rightarrow> rawmsg \<Rightarrow> ExecutionResult option" where
  "run_cpu_burn E ctx args =
     (let ms = duration_args args;
          ms = (if ms \<le> 0 then 50 else ms);
          deadline = ee_clock E 0 + wrap64 (ms * Millisecond)
      in case burn_loop (ee_clock E) (ee_done E) deadline 1 0 of
           None \<Rightarrow> None
         | Some (Inl _) \<Rightarrow> Some (ctxResult E (snd (ctx_done ctx)))
         | Some (Inr x) \<Rightarrow>
             Some (mk_result E True (Some (JObj [(''iterations'', JInt x)])) '''' False ReasonSuccess))"

definition builtin_Execute :: "exec_env \<Rightarrow> Context \<Rightarrow> rawmsg \<Rightarrow> ExecutionResult option" where
  "builtin_Execute E ctx payload =
     (case Unmarshal builtin_fields \<lparr>bp_Handler = '''', bp_Args = None\<rparr> payload of
        (False, _) \<Rightarrow>
          Some (mk_result E False None (''invalid builtin payload: '' @ ee_jsonerr E payload) False ReasonFailed)
      | (True, p) \<Rightarrow>
          if bp_Handler p = ''sleep'' then Some (run_sleep E ctx (bp_Args p))
          else if bp_Handler p = ''echo'' then Some (run_echo E (bp_Args p))
          else if bp_Handler p = ''fail'' then Some (run_fail E (bp_Args p))
          else if bp_Handler p = ''cpu_burn'' then run_cpu_burn E ctx (bp_Args p)
          else Some (mk_result E False None (''unknown builtin handler '' @ quote_go (bp_Handler p)) False ReasonFailed))"


section \<open>Webhooks\<close>

fun set_headers :: "(string \<times> string) list \<Rightarrow> header \<Rightarrow> header" where
  "set_headers [] h = h"
| "set_headers ((k, v) # kvs) h =
     (if ToLower k = ''host'' then set_headers kvs h else set_headers kvs (header_Set k v h))"

definition webhook_request :: "exec_env \<Rightarrow> WebhookPayload \<Rightarrow> HttpRequest" where
  "webhook_request E p =
     (let h = header_Set ''User-Agent'' ''chronos-worker/1.0'' (header_Set ''Content-Type'' ''application/json'' []);
          hs = (case hp_Headers p of None \<Rightarrow> [] | Some m \<Rightarrow> range_map (ee_order E) m)
      in \<lparr>hq_Method = (if hp_Method p = '''' then ''POST'' else hp_Method p), hq_URL = hp_URL p,
          hq_Header = set_headers hs h, hq_Body = hp_Body p\<rparr>)"

text \<open>The context's error at the time a failed request returns, as the environment sees it.\<close>

definition webhook_error :: "exec_env \<Rightarrow> Error option \<Rightarrow> Error \<Rightarrow> string \<Rightarrow> ExecutionResult" where
  "webhook_error E ctxErr err msg =
     (if err = ErrDeadlineExceeded \<or> ctxErr = Some ErrDeadlineExceeded
      then mk_result E False None ''timeout'' True ReasonTimeout
      else if err = ErrCanceled \<or> ctxErr = Some ErrCanceled
      then mk_result E False None ''cancelled'' False ReasonCancelled
      else mk_result E False None msg True ReasonFailed)"

definition webhook_reply :: "exec_env \<Rightarrow> int \<Rightarrow> string \<Rightarrow> ExecutionResult" where
  "webhook_reply E status body =
     (let out = Some (JObj [(''body'', JStr (take (2 ^ 20) body)), (''status_code'', JInt status)])
      in if 200 \<le> status \<and> status < 300 then mk_result E True out '''' False ReasonSuccess
         else mk_result E False out (''webhook status '' @ show_int status) (status \<ge> 500 \<or> status = 429) ReasonFailed)"

definition ctx_err :: "exec_env \<Rightarrow> Context \<Rightarrow> Error option" where
  "ctx_err E ctx = (if fst (ctx_done ctx) \<le> ee_elapsed E then Some (snd (ctx_done ctx)) else None)"

definition webhook_Execute :: "exec_env \<Rightarrow> Context \<Rightarrow> rawmsg \<Rightarrow> ExecutionResult" where
  "webhook_Execute E ctx payload =
     (case Unmarshal webhook_fields \<lparr>hp_URL = '''', hp_Method = '''', hp_Headers = None, hp_Body = None\<rparr> payload of
        (False, _) \<Rightarrow>
          mk_result E False None (''invalid webhook payload: '' @ ee_jsonerr E payload) False ReasonFailed
      | (True, p) \<Rightarrow>
          if hp_URL p = '''' then mk_result E False None ''webhook url required'' False ReasonFailed
          else if \<not> HasPrefix (hp_URL p) ''http://'' \<and> \<not> HasPrefix (hp_URL p) ''https://''
          then mk_result E False None ''webhook url must be http(s)'' False ReasonFailed
          else
            let req = webhook_request E p in
            case ee_newreq E (hq_Method req) (hq_URL req) of
              Some err \<Rightarrow> mk_result E False None (Error_text err) False ReasonFailed
            | None \<Rightarrow>
                (case ee_http E req of
                   HttpFailed err msg \<Rightarrow> webhook_error E (ctx_err E ctx) err msg
                 | HttpResponse status body \<Rightarrow> webhook_reply E status body))"


section \<open>The executor\<close>

definition Execute :: "exec_env \<Rightarrow> Context \<Rightarrow> JobType \<Rightarrow> rawmsg \<Rightarrow> ExecutionResult option" where
  "Execute E ctx jobType payload =
     (case jobType of
        JobTypeBuiltin \<Rightarrow> builtin_Execute E ctx payload
      | JobTypeWebhook \<Rightarrow> Some (webhook_Execute E ctx payload)
      | JobTypeOther t \<Rightarrow>
          Some \<lparr>er_Success = False, er_Output = None, er_Error = ''unsupported job type '' @ quote_go t,
                er_Retryable = False, er_Duration = 0, er_Reason = ReasonOther ''''\<rparr>)"

section \<open>Lemmas\<close>

text \<open>What the fields of a result say of each other.\<close>

definition coherent :: "ExecutionResult \<Rightarrow> bool" where
  "coherent r \<longleftrightarrow>
     er_Reason r \<in> {ReasonSuccess, ReasonFailed, ReasonTimeout, ReasonCancelled} \<and>
     (er_Success r \<longleftrightarrow> er_Reason r = ReasonSuccess) \<and>
     (er_Success r \<longrightarrow> er_Error r = '''' \<and> \<not> er_Retryable r) \<and>
     (er_Reason r = ReasonTimeout \<longrightarrow> er_Retryable r) \<and>
     (er_Reason r = ReasonCancelled \<longrightarrow> \<not> er_Retryable r)"

lemma coherent_mk_result [simp]:
  "coherent (mk_result E success out err retryable reason) \<longleftrightarrow>
     reason \<in> {ReasonSuccess, ReasonFailed, ReasonTimeout, ReasonCancelled} \<and>
     (success \<longleftrightarrow> reason = ReasonSuccess) \<and> (success \<longrightarrow> err = '''' \<and> \<not> retryable) \<and>
     (reason = ReasonTimeout \<longrightarrow> retryable) \<and> (reason = ReasonCancelled \<longrightarrow> \<not> retryable)"
  by (simp add: coherent_def mk_result_def)

lemma coherent_ctxResult [simp]: "coherent (ctxResult E err)"
  by (simp add: ctxResult_def)

lemma builtin_coherent:
  assumes "builtin_Execute E ctx payload = Some r"
  shows "coherent r"
  using assms
  by (auto simp: builtin_Execute_def run_sleep_def run_echo_def run_fail_def run_cpu_burn_def Let_def
      split: prod.splits bool.splits if_splits option.splits sum.splits)

lemma webhook_coherent: "coherent (webhook_Execute E ctx payload)"
  by (auto simp: webhook_Execute_def webhook_error_def webhook_reply_def Let_def
      split: prod.splits bool.splits option.splits HttpOutcome.splits)

lemma mk_result_sel [simp]:
  "er_Duration (mk_result E success out err retryable reason) = ee_elapsed E"
  "er_Duration (ctxResult E e) = ee_elapsed E"
  by (simp_all add: mk_result_def ctxResult_def)

lemma Execute_range:
  assumes "Execute E ctx jobType payload = Some r"
  shows "er_Duration r \<in> {0, ee_elapsed E} \<and>
    er_Reason r \<in> {ReasonSuccess, ReasonFailed, ReasonTimeout, ReasonCancelled, ReasonOther ''''}"
proof (cases jobType)
  case JobTypeBuiltin
  with assms have b: "builtin_Execute E ctx payload = Some r" by (simp add: Execute_def)
  then have "er_Duration r = ee_elapsed E"
    by (auto simp: builtin_Execute_def run_sleep_def run_echo_def run_fail_def run_cpu_burn_def Let_def
        split: prod.splits bool.splits if_splits option.splits sum.splits)
  with builtin_coherent [OF b] show ?thesis by (auto simp: coherent_def)
next
  case JobTypeWebhook
  with assms have r: "r = webhook_Execute E ctx payload" by (simp add: Execute_def)
  have "er_Duration r = ee_elapsed E"
    unfolding r by (auto simp: webhook_Execute_def webhook_error_def webhook_reply_def Let_def
      split: prod.splits bool.splits option.splits HttpOutcome.splits)
  with webhook_coherent [of E ctx payload] show ?thesis by (auto simp: coherent_def r)
next
  case (JobTypeOther t)
  with assms show ?thesis by (auto simp: Execute_def)
qed

text \<open>The busy loop ends as soon as the clock has reached the deadline.\<close>

lemma burn_loop_ends:
  assumes "deadline \<le> clk (i + n)"
  shows "\<exists>r. burn_loop clk don deadline i x = Some r"
  using assms
proof (induction n arbitrary: i x)
  case 0
  then show ?case by (simp add: burn_loop.simps [of _ _ _ i])
next
  case (Suc n)
  then have "\<exists>r. burn_loop clk don deadline (Suc i) (x + 1) = Some r" by simp
  then show ?case by (simp add: burn_loop.simps [of _ _ _ i])
qed

lemma set_headers_other:
  assumes "\<And>k v. (k, v) \<in> set kvs \<Longrightarrow> ToLower k \<noteq> ''host'' \<Longrightarrow> CanonicalHeaderKey k \<noteq> n"
  shows "map_of (set_headers kvs h) n = map_of h n"
  using assms
proof (induction kvs arbitrary: h)
  case (Cons kv kvs)
  obtain k v where kv: "kv = (k, v)" by (cases kv)
  have "map_of (set_headers kvs h') n = map_of h' n" for h'
    by (rule Cons.IH) (use Cons.prems in auto)
  then show ?case using Cons.prems [of k v] by (auto simp: kv header_Set_def)
qed simp

lemma canonical_length [simp]: "length (canonical up s) = length s"
  by (induction up s rule: canonical.induct) simp_all

lemma to_lower_upper [simp]: "to_lower (to_upper c) = to_lower c" "to_lower (to_lower c) = to_lower c"
  by (auto simp: to_lower_def to_upper_def Let_def)

lemma ToLower_canonical: "ToLower (canonical up s) = ToLower s"
  by (induction up s rule: canonical.induct) (simp_all add: ToLower_def)

lemma ToLower_CanonicalHeaderKey [simp]: "ToLower (CanonicalHeaderKey s) = ToLower s"
  by (simp add: CanonicalHeaderKey_def ToLower_canonical)


section \<open>Properties\<close>

text \<open>
  C30 (results are coherent): whatever the payload and the outside world, the result of a builtin
  or webhook job is a success exactly when its reason says so, a success carries no error and is
  never retryable, a timeout is always retryable and a cancellation never is; a job of another
  type fails without a retry.
\<close>

theorem Execute_coherent:
  assumes "Execute E ctx jobType payload = Some r"
  shows "case jobType of JobTypeOther t \<Rightarrow> \<not> er_Success r \<and> \<not> er_Retryable r | _ \<Rightarrow> coherent r"
  using assms builtin_coherent webhook_coherent by (auto simp: Execute_def split: JobType.splits)

definition demo_env :: exec_env where
  "demo_env = \<lparr>ee_elapsed = 3, ee_jsonerr = \<lambda>_. ''bad json'', ee_tie = True, ee_clock = \<lambda>n. int n * 1000000000,
     ee_done = \<lambda>_. False, ee_order = \<lambda>ks. ks, ee_newreq = \<lambda>_ _. None,
     ee_http = \<lambda>_. HttpResponse 503 ''busy''\<rparr>"

definition demo_hook :: rawmsg where
  "demo_hook = Some (JObj [(''url'', JStr ''https://x''), (''headers'', JObj [(''Host'', JStr ''y''), (''x-a'', JStr ''z'')])])"

theorem Execute_coherent_witness:
  "\<exists>r. Execute demo_env \<lparr>cx_deadline = 9, cx_cancelled = None\<rparr> JobTypeWebhook demo_hook = Some r \<and>
       er_Retryable r \<and> \<not> er_Success r"
proof -
  let ?c = "\<lparr>cx_deadline = 9, cx_cancelled = None\<rparr>"
  have r: "Execute demo_env ?c JobTypeWebhook demo_hook = Some (webhook_Execute demo_env ?c demo_hook)"
    by (simp add: Execute_def)
  have u: "Unmarshal webhook_fields \<lparr>hp_URL = '''', hp_Method = '''', hp_Headers = None, hp_Body = None\<rparr> demo_hook =
      (True, \<lparr>hp_URL = ''https://x'', hp_Method = '''', hp_Headers = Some [(''Host'', ''y''), (''x-a'', ''z'')], hp_Body = None\<rparr>)"
    by code_simp
  have "er_Retryable (webhook_Execute demo_env ?c demo_hook)"
    by (simp add: webhook_Execute_def u) (simp add: HasPrefix_def demo_env_def webhook_reply_def mk_result_def Let_def)
  moreover have "coherent (webhook_Execute demo_env ?c demo_hook)"
    using Execute_coherent [OF r] by simp
  ultimately show ?thesis using r by (auto simp: coherent_def)
qed



text \<open>
  Timeouts and cancellations of a sleep: a sleeping job that is cancelled, or whose timeout
  passes, before its time is up ends as cancelled or timed out; otherwise it succeeds and
  reports how long it slept.
\<close>

theorem sleep_outcome:
  assumes "0 < ms" "ms < 2 ^ 43" "fst (ctx_done ctx) \<noteq> ms * Millisecond"
  shows "builtin_Execute E ctx (Some (JObj [(''handler'', JStr ''sleep''), (''args'', JObj [(''duration_ms'', JInt ms)])])) =
     Some (if fst (ctx_done ctx) < ms * Millisecond
           then (case cx_cancelled ctx of
                   Some t \<Rightarrow> if t < cx_deadline ctx then mk_result E False None ''cancelled'' False ReasonCancelled
                             else mk_result E False None ''timeout'' True ReasonTimeout
                 | None \<Rightarrow> mk_result E False None ''timeout'' True ReasonTimeout)
           else mk_result E True (Some (JObj [(''slept_ms'', JInt ms)])) '''' False ReasonSuccess)"
proof -
  have f: "ToLower ''handler'' = ''handler''" "ToLower ''args'' = ''args''" "ToLower ''duration_ms'' = ''duration_ms''"
    by code_simp+
  have w: "wrap64 (ms * Millisecond) = ms * Millisecond" using assms(1,2) by (simp add: Millisecond_def)
  have a: "duration_args (Some (JObj [(''duration_ms'', JInt ms)])) = ms"
    using assms(1,2) by (simp add: duration_args_def Unmarshal_def f set_int_def)
  have "builtin_Execute E ctx (Some (JObj [(''handler'', JStr ''sleep''), (''args'', JObj [(''duration_ms'', JInt ms)])])) =
      Some (run_sleep E ctx (Some (JObj [(''duration_ms'', JInt ms)])))"
    by (simp add: builtin_Execute_def Unmarshal_def builtin_fields_def f set_string_def set_raw_def)
  also have "run_sleep E ctx (Some (JObj [(''duration_ms'', JInt ms)])) =
      (if fst (ctx_done ctx) < ms * Millisecond then ctxResult E (snd (ctx_done ctx))
       else mk_result E True (Some (JObj [(''slept_ms'', JInt ms)])) '''' False ReasonSuccess)"
    using assms(1,3) by (cases "ctx_done ctx") (simp add: run_sleep_def a w Let_def)
  finally show ?thesis
    by (auto simp: ctx_done_def ctxResult_def split: option.splits)
qed

theorem sleep_outcome_witness:
  "builtin_Execute demo_env \<lparr>cx_deadline = 5 * Millisecond, cx_cancelled = None\<rparr>
     (Some (JObj [(''handler'', JStr ''sleep''), (''args'', JObj [(''duration_ms'', JInt 7)])])) =
   Some (mk_result demo_env False None ''timeout'' True ReasonTimeout)"
  using sleep_outcome [of 7 "\<lparr>cx_deadline = 5 * Millisecond, cx_cancelled = None\<rparr>" demo_env]
  by (simp add: ctx_done_def Millisecond_def)

text \<open>
  Webhook headers: no header of the payload can set \<open>Host\<close> on the request, however it is
  spelt, and the request is sent as JSON unless the payload names a content type of its own.
\<close>

theorem webhook_headers:
  assumes "order_ok (ee_order E)"
  shows "map_of (hq_Header (webhook_request E p)) ''Host'' = None \<and>
    ((\<forall>m k v. hp_Headers p = Some m \<and> map_of m k = Some v \<longrightarrow> ToLower k \<noteq> ''content-type'') \<longrightarrow>
     map_of (hq_Header (webhook_request E p)) ''Content-Type'' = Some [''application/json''])"
proof -
  define hs where "hs = (case hp_Headers p of None \<Rightarrow> [] | Some m \<Rightarrow> range_map (ee_order E) m)"
  define h where "h = header_Set ''User-Agent'' ''chronos-worker/1.0'' (header_Set ''Content-Type'' ''application/json'' [])"
  have H: "hq_Header (webhook_request E p) = set_headers hs h"
    by (simp add: webhook_request_def hs_def h_def Let_def)
  have c: "CanonicalHeaderKey ''User-Agent'' = ''User-Agent''" "CanonicalHeaderKey ''Content-Type'' = ''Content-Type''"
    "ToLower ''Host'' = ''host''" "ToLower ''Content-Type'' = ''content-type''" by code_simp+
  have "map_of (set_headers hs h) ''Host'' = map_of h ''Host''"
    by (rule set_headers_other) (metis c(3) ToLower_CanonicalHeaderKey)
  then have host: "map_of (hq_Header (webhook_request E p)) ''Host'' = None"
    by (simp add: H h_def header_Set_def c)
  have "map_of (set_headers hs h) ''Content-Type'' = map_of h ''Content-Type''"
    if u: "\<forall>m k v. hp_Headers p = Some m \<and> map_of m k = Some v \<longrightarrow> ToLower k \<noteq> ''content-type''"
  proof (rule set_headers_other)
    fix k v
    assume "(k, v) \<in> set hs"
    then obtain m where "hp_Headers p = Some m" "map_of m k = Some v"
      using assms by (cases "hp_Headers p") (auto simp: hs_def set_range_map)
    with u have "ToLower k \<noteq> ''content-type''" by blast
    then show "CanonicalHeaderKey k \<noteq> ''Content-Type''" by (metis c(4) ToLower_CanonicalHeaderKey)
  qed
  then show ?thesis using host by (simp add: H h_def header_Set_def c)
qed

theorem webhook_headers_witness:
  "map_of (hq_Header (webhook_request demo_env
     \<lparr>hp_URL = ''https://x'', hp_Method = '''', hp_Headers = Some [(''hOST'', ''y'')], hp_Body = None\<rparr>)) ''Host'' = None"
  using webhook_headers [of demo_env] by (simp add: demo_env_def)

end
