(* ===== verification/WorkerNode.thy ===== *)
theory WorkerNode
  imports Execution GrpcServer
begin

text \<open>
  The worker process, \<^verbatim>\<open>internal/worker/worker.go\<close>: its gRPC service, its session with the scheduler,
  and the goroutine of each accepted job. A job's context is a handle; the map of cancel
  functions holds handles, and the goroutines still running are a list, newest first. The
  capacity test and the increment of the counter are separate steps of \<open>ExecuteJob\<close>, which runs
  concurrently with itself.
\<close>

section \<open>State\<close>

record WorkerConfig =
  wf_ID :: string
  wf_ListenAddr :: string
  wf_AdvertiseAddr :: string
  wf_SchedulerAddr :: string
  wf_Capacity :: int
  wf_HeartbeatEvery :: duration
  wf_HTTPClientTimeout :: duration

record Running =
  ru_handle :: nat
  ru_req :: ExecuteJobRequest
  ru_timeout :: duration
  ru_cancelled :: bool

record WorkerState =
  ws_active :: int
  ws_cancels :: "(string, nat) gomap"
  ws_running :: "Running list"
  ws_next :: nat

definition worker_New :: WorkerState where
  "worker_New = \<lparr>ws_active = 0, ws_cancels = [], ws_running = [], ws_next = 0\<rparr>"


section \<open>The worker's gRPC service\<close>

definition at_capacity :: "WorkerConfig \<Rightarrow> WorkerState \<Rightarrow> bool" where
  "at_capacity cfg w \<longleftrightarrow> ws_active w \<ge> wf_Capacity cfg"

definition job_timeout :: "ExecuteJobRequest \<Rightarrow> duration" where
  "job_timeout req =
     (let timeout = wrap64 (xr_TimeoutMs req * Millisecond) in
      if timeout \<le> 0 then 30 * Second else timeout)"

definition start_run :: "ExecuteJobRequest \<Rightarrow> WorkerState \<Rightarrow> WorkerState" where
  "start_run req w =
     w\<lparr>ws_active := wrap32 (ws_active w + 1),
       ws_cancels := gput (xr_JobId req) (ws_next w) (ws_cancels w),
       ws_running := \<lparr>ru_handle = ws_next w, ru_req = req, ru_timeout = job_timeout req,
                      ru_cancelled = False\<rparr> # ws_running w,
       ws_next := Suc (ws_next w)\<rparr>"

definition worker_ExecuteJob ::
    "WorkerConfig \<Rightarrow> ExecuteJobRequest \<Rightarrow> WorkerState \<Rightarrow> (bool \<times> string) \<times> WorkerState" where
  "worker_ExecuteJob cfg req w =
     (if at_capacity cfg w then ((False, ''at capacity''), w)
      else ((True, ''''), start_run req w))"

definition cancel_handle :: "nat \<Rightarrow> WorkerState \<Rightarrow> WorkerState" where
  "cancel_handle h w =
     w\<lparr>ws_running := map (\<lambda>r. if ru_handle r = h then r\<lparr>ru_cancelled := True\<rparr> else r) (ws_running w)\<rparr>"

definition cancelLocal :: "string \<Rightarrow> WorkerState \<Rightarrow> WorkerState" where
  "cancelLocal jobID w =
     (case map_of (ws_cancels w) jobID of None \<Rightarrow> w | Some h \<Rightarrow> cancel_handle h w)"

definition worker_CancelJob :: "string \<Rightarrow> WorkerState \<Rightarrow> bool \<times> WorkerState" where
  "worker_CancelJob jobID w = (map_of (ws_cancels w) jobID \<noteq> None, cancelLocal jobID w)"

record HealthResponse =
  hl_WorkerId :: string
  hl_Capacity :: int
  hl_ActiveJobs :: int
  hl_Healthy :: bool

definition worker_Health :: "WorkerConfig \<Rightarrow> WorkerState \<Rightarrow> HealthResponse" where
  "worker_Health cfg w =
     \<lparr>hl_WorkerId = wf_ID cfg, hl_Capacity = wrap32 (wf_Capacity cfg), hl_ActiveJobs = ws_active w,
      hl_Healthy = True\<rparr>"


section \<open>The goroutine of a job\<close>

definition report_reason :: "ExecutionResult \<Rightarrow> string" where
  "report_reason r =
     (let reason = ResultReason_string (er_Reason r) in
      if reason = '''' then ResultReason_string (if er_Success r then ReasonSuccess else ReasonFailed)
      else reason)"

definition report_request ::
    "WorkerConfig \<Rightarrow> string \<Rightarrow> ExecuteJobRequest \<Rightarrow> ExecutionResult \<Rightarrow> ReportResultRequest" where
  "report_request cfg token req r =
     \<lparr>rq_JobId = xr_JobId req, rq_ExecutionId = xr_ExecutionId req, rq_WorkerId = wf_ID cfg,
      rq_Attempt = xr_Attempt req, rq_Success = er_Success r, rq_Output = er_Output r,
      rq_Error = er_Error r, rq_Retryable = er_Retryable r,
      rq_DurationMs = Milliseconds (er_Duration r), rq_Reason = report_reason r, rq_Token = token\<rparr>"

text \<open>The deferred calls, in the order they run: forget the cancel function, cancel, count down.\<close>

definition end_run :: "Running \<Rightarrow> WorkerState \<Rightarrow> WorkerState" where
  "end_run r w =
     (let w = w\<lparr>ws_cancels := gdel (xr_JobId (ru_req r)) (ws_cancels w)\<rparr>;
          w = w\<lparr>ws_running := filter (\<lambda>r'. ru_handle r' \<noteq> ru_handle r) (ws_running w)\<rparr>
      in w\<lparr>ws_active := wrap32 (ws_active w + - 1)\<rparr>)"

definition run_context :: "Running \<Rightarrow> duration option \<Rightarrow> Context" where
  "run_context r cancelledAt =
     \<lparr>cx_deadline = ru_timeout r, cx_cancelled = (if ru_cancelled r then cancelledAt else None)\<rparr>"

definition job_goroutine ::
    "WorkerConfig \<Rightarrow> string \<Rightarrow> exec_env \<Rightarrow> duration option \<Rightarrow> Running \<Rightarrow> WorkerState \<Rightarrow>
     (ReportResultRequest \<times> WorkerState) option" where
  "job_goroutine cfg token E cancelledAt r w =
     (case Execute E (run_context r cancelledAt) (JobType_of (xr_Type (ru_req r))) (xr_Payload (ru_req r)) of
        None \<Rightarrow> None
      | Some res \<Rightarrow> Some (report_request cfg token (ru_req r) res, end_run r w))"


section \<open>The session with the scheduler\<close>

definition register_request :: "WorkerConfig \<Rightarrow> string \<Rightarrow> RegisterRequest" where
  "register_request cfg token =
     \<lparr>rg_WorkerId = wf_ID cfg, rg_Address = wf_AdvertiseAddr cfg, rg_Capacity = wrap32 (wf_Capacity cfg),
      rg_CapBuiltin = True, rg_CapWebhook = True, rg_Labels = None, rg_Token = token\<rparr>"

definition register_error :: "RegisterResponse option \<times> Error option \<Rightarrow> Error option" where
  "register_error reply =
     (case snd reply of
        Some e \<Rightarrow> Some e
      | None \<Rightarrow>
          (case fst reply of
             Some resp \<Rightarrow> if \<not> rr_Ok resp then Some (ErrMsg (''register: '' @ rr_Message resp)) else None
           | None \<Rightarrow> None))"

definition heartbeat_request :: "WorkerConfig \<Rightarrow> string \<Rightarrow> WorkerState \<Rightarrow> HeartbeatRequest" where
  "heartbeat_request cfg token w =
     \<lparr>hb_WorkerId = wf_ID cfg, hb_ActiveJobs = ws_active w, hb_Capacity = wrap32 (wf_Capacity cfg), hb_Token = token\<rparr>"

definition deregister_request :: "WorkerConfig \<Rightarrow> string \<Rightarrow> DeregisterRequest" where
  "deregister_request cfg token = \<lparr>dg_WorkerId = wf_ID cfg, dg_Token = token\<rparr>"

text \<open>
  What a heartbeat's reply does: only a failed call makes the worker dial and register again; a
  reply, whatever its \<open>ok\<close>, has its cancellations applied.
\<close>

datatype SessionNext = Redial | Keep

definition on_heartbeat ::
    "HeartbeatResponse option \<times> Error option \<Rightarrow> WorkerState \<Rightarrow> SessionNext \<times> WorkerState" where
  "on_heartbeat reply w =
     (case snd reply of
        Some e \<Rightarrow> (Redial, w)
      | None \<Rightarrow>
          (case fst reply of
             Some resp \<Rightarrow> (Keep, fold cancelLocal (hr_CancelJobIds resp) w)
           | None \<Rightarrow> (Keep, w)))"

section \<open>Runs of a worker\<close>

text \<open>
  The worker with its calls to \<open>ExecuteJob\<close> one at a time: job requests, cancellations from the
  scheduler or from a heartbeat, and the end of a job's goroutine.
\<close>

inductive worker_step :: "WorkerConfig \<Rightarrow> WorkerState \<Rightarrow> WorkerState \<Rightarrow> bool" for cfg where
  step_execute: "worker_ExecuteJob cfg req w = (resp, w') \<Longrightarrow> worker_step cfg w w'"
| step_cancel: "worker_CancelJob jobID w = (b, w') \<Longrightarrow> worker_step cfg w w'"
| step_heartbeat: "on_heartbeat reply w = (n, w') \<Longrightarrow> worker_step cfg w w'"
| step_end: "r \<in> set (ws_running w) \<Longrightarrow> worker_step cfg w (end_run r w)"

definition worker_inv :: "WorkerConfig \<Rightarrow> WorkerState \<Rightarrow> bool" where
  "worker_inv cfg w \<longleftrightarrow>
     ws_active w = int (length (ws_running w)) \<and> ws_active w \<le> wf_Capacity cfg \<and>
     distinct (map ru_handle (ws_running w)) \<and> (\<forall>r\<in>set (ws_running w). ru_handle r < ws_next w) \<and>
     (\<forall>jid h. map_of (ws_cancels w) jid = Some h \<longrightarrow>
        (\<exists>r\<in>set (ws_running w). ru_handle r = h \<and> xr_JobId (ru_req r) = jid))"

lemma cancel_handle_sel [simp]:
  "ws_active (cancel_handle h w) = ws_active w" "ws_cancels (cancel_handle h w) = ws_cancels w"
  "ws_next (cancel_handle h w) = ws_next w"
  "map ru_handle (ws_running (cancel_handle h w)) = map ru_handle (ws_running w)"
  "length (ws_running (cancel_handle h w)) = length (ws_running w)"
  by (simp_all add: cancel_handle_def)

lemma set_cancel_handle:
  "r \<in> set (ws_running w) \<Longrightarrow> \<exists>r'\<in>set (ws_running (cancel_handle h w)). ru_handle r' = ru_handle r \<and> ru_req r' = ru_req r"
  by (rule bexI [of _ "if ru_handle r = h then r\<lparr>ru_cancelled := True\<rparr> else r"]) (auto simp: cancel_handle_def)

lemma length_filter_key:
  "distinct (map f xs) \<Longrightarrow> x \<in> set xs \<Longrightarrow> Suc (length (filter (\<lambda>y. f y \<noteq> f x) xs)) = length xs"
proof (induction xs)
  case (Cons a xs)
  show ?case
  proof (cases "a = x")
    case True
    with Cons.prems have "filter (\<lambda>y. f y \<noteq> f x) xs = xs" by (auto intro!: filter_True simp: image_iff)
    with True show ?thesis by simp
  next
    case False
    with Cons.prems have "f a \<noteq> f x" by force
    with False Cons show ?thesis by simp
  qed
qed simp

lemma worker_inv_cancel_handle:
  assumes "worker_inv cfg w"
  shows "worker_inv cfg (cancel_handle h w)"
proof -
  have "ru_handle ` set (ws_running (cancel_handle h w)) = ru_handle ` set (ws_running w)"
    by (simp only: set_map [symmetric] cancel_handle_sel)
  moreover have "\<forall>n\<in>ru_handle ` set (ws_running w). n < ws_next w"
    using assms unfolding worker_inv_def by blast
  ultimately have "\<forall>r\<in>set (ws_running (cancel_handle h w)). ru_handle r < ws_next w" by blast
  moreover have "\<exists>r\<in>set (ws_running (cancel_handle h w)). ru_handle r = k \<and> xr_JobId (ru_req r) = jid"
    if "map_of (ws_cancels w) jid = Some k" for jid k
  proof -
    from assms that obtain r where r: "r \<in> set (ws_running w)" "ru_handle r = k" "xr_JobId (ru_req r) = jid"
      unfolding worker_inv_def by blast
    from set_cancel_handle [OF r(1), of h] r(2,3) show ?thesis by auto
  qed
  ultimately show ?thesis using assms unfolding worker_inv_def by (simp del: length_map)
qed

lemma worker_inv_cancelLocal: "worker_inv cfg w \<Longrightarrow> worker_inv cfg (cancelLocal jid w)"
  by (simp add: cancelLocal_def worker_inv_cancel_handle split: option.splits)

lemma worker_inv_fold: "worker_inv cfg w \<Longrightarrow> worker_inv cfg (fold cancelLocal ids w)"
  by (induction ids arbitrary: w) (simp_all add: worker_inv_cancelLocal)

lemma worker_inv_start:
  assumes "worker_inv cfg w" "\<not> at_capacity cfg w" "wf_Capacity cfg < 2 ^ 31"
  shows "worker_inv cfg (start_run req w)"
proof -
  have "wrap32 (ws_active w + 1) = ws_active w + 1"
    using assms by (intro wrap32_id) (auto simp: worker_inv_def at_capacity_def)
  with assms show ?thesis
    by (auto simp: worker_inv_def start_run_def at_capacity_def less_Suc_eq)
qed

lemma worker_inv_end:
  assumes "worker_inv cfg w" "r \<in> set (ws_running w)" "wf_Capacity cfg < 2 ^ 31"
  shows "worker_inv cfg (end_run r w)"
proof -
  let ?f = "filter (\<lambda>r'. ru_handle r' \<noteq> ru_handle r) (ws_running w)"
  have "Suc (length ?f) = length (ws_running w)"
    by (rule length_filter_key) (use assms(1,2) in \<open>simp_all add: worker_inv_def\<close>)
  then have len: "int (length ?f) = ws_active w - 1" using assms(1) by (simp add: worker_inv_def)
  have "wrap32 (ws_active w - 1) = ws_active w - 1"
    using assms by (intro wrap32_id) (auto simp: worker_inv_def)
  with assms len show ?thesis
    by (auto simp: worker_inv_def end_run_def Let_def distinct_map inj_on_def split: if_splits) metis+
qed

lemma worker_step_inv:
  assumes "worker_step cfg w w'" "worker_inv cfg w" "wf_Capacity cfg < 2 ^ 31"
  shows "worker_inv cfg w'"
  using assms
proof (induction rule: worker_step.induct)
  case (step_heartbeat reply w n w')
  then show ?case
    using worker_inv_fold by (auto simp: on_heartbeat_def split: option.splits)
qed (auto simp: worker_ExecuteJob_def worker_CancelJob_def worker_inv_start worker_inv_end worker_inv_cancelLocal
      split: if_splits)

lemma worker_run_inv:
  assumes "(worker_step cfg)\<^sup>*\<^sup>* worker_New w" "0 \<le> wf_Capacity cfg" "wf_Capacity cfg < 2 ^ 31"
  shows "worker_inv cfg w"
  using assms(1)
proof (induction rule: rtranclp_induct)
  case base
  then show ?case using assms(2) by (simp add: worker_inv_def worker_New_def)
next
  case (step y z)
  then show ?case using worker_step_inv assms(3) by blast
qed

lemma map_of_cancels_own:
  assumes "worker_inv cfg w" "map_of (ws_cancels w) jid = Some h" "r \<in> set (ws_running w)" "ru_handle r = h"
  shows "xr_JobId (ru_req r) = jid"
  using assms unfolding worker_inv_def by (metis distinct_map inj_onD)


section \<open>Properties\<close>

text \<open>
  C32 (the worker's capacity): as long as job requests are handled one at a time, the active
  counter a worker reports in its heartbeats is exactly the number of jobs it runs, it never
  exceeds the configured capacity, and every cancel function it keeps belongs to a running job of
  that identifier.
\<close>

theorem worker_capacity:
  assumes "(worker_step cfg)\<^sup>*\<^sup>* worker_New w" "0 \<le> wf_Capacity cfg" "wf_Capacity cfg < 2 ^ 31"
  shows "hb_ActiveJobs (heartbeat_request cfg token w) = int (length (ws_running w)) \<and>
    ws_active w \<le> wf_Capacity cfg \<and>
    (\<forall>jid h. map_of (ws_cancels w) jid = Some h \<longrightarrow>
       (\<exists>r\<in>set (ws_running w). ru_handle r = h \<and> xr_JobId (ru_req r) = jid))"
  using worker_run_inv [OF assms] by (simp add: worker_inv_def heartbeat_request_def)

definition demo_wcfg :: WorkerConfig where
  "demo_wcfg = \<lparr>wf_ID = ''w'', wf_ListenAddr = '''', wf_AdvertiseAddr = '''', wf_SchedulerAddr = '''',
     wf_Capacity = 1, wf_HeartbeatEvery = Second, wf_HTTPClientTimeout = Second\<rparr>"

definition demo_req :: "string \<Rightarrow> ExecuteJobRequest" where
  "demo_req xid = \<lparr>xr_JobId = ''j'', xr_ExecutionId = xid, xr_Name = '''', xr_Type = ''builtin'',
     xr_Payload = Some (JObj [(''handler'', JStr ''sleep'')]), xr_Attempt = 1, xr_TimeoutMs = 5, xr_TraceId = ''''\<rparr>"

lemma demo_worker_run: "(worker_step demo_wcfg)\<^sup>*\<^sup>* worker_New (start_run (demo_req ''x'') worker_New)"
  by (rule r_into_rtranclp, rule step_execute [of _ "demo_req ''x''"])
    (simp add: worker_ExecuteJob_def at_capacity_def demo_wcfg_def worker_New_def)

theorem worker_capacity_witness:
  "hb_ActiveJobs (heartbeat_request demo_wcfg ''t'' (start_run (demo_req ''x'') worker_New)) = 1"
  using worker_capacity [OF demo_worker_run, of "''t''"]
  by (simp add: demo_wcfg_def start_run_def worker_New_def)



text \<open>
  C31 (reports arrive as they were made): the result an execution produces, put into a report by
  the worker and read back by the scheduler's handler, is the same result with its duration cut
  to whole milliseconds and an unset reason filled in from the success flag.
\<close>

theorem report_roundtrip:
  assumes "Execute E ctx jobType payload = Some r" "0 \<le> ee_elapsed E" "ee_elapsed E < 2 ^ 63"
  shows "result_of (report_request cfg token req r) =
     (default_reason r)\<lparr>er_Duration := Milliseconds (er_Duration r) * Millisecond\<rparr>"
proof -
  have d: "0 \<le> er_Duration r" "er_Duration r < 2 ^ 63"
    and re: "er_Reason r \<in> {ReasonSuccess, ReasonFailed, ReasonTimeout, ReasonCancelled, ReasonOther ''''}"
    using assms(2,3) Execute_range [OF assms(1)] by auto
  have "0 \<le> Milliseconds (er_Duration r) * Millisecond \<and> Milliseconds (er_Duration r) * Millisecond \<le> er_Duration r"
    using Milliseconds_floor [OF d(1)] by simp
  then have w: "wrap64 (Milliseconds (er_Duration r) * Millisecond) = Milliseconds (er_Duration r) * Millisecond"
    using d(2) by (intro wrap64_id) auto
  have reason: "ResultReason_of (report_reason r) = er_Reason (default_reason r)"
    using re by (auto simp: report_reason_def default_reason_def ResultReason_of_def)
  show ?thesis
    by (simp add: result_of_def report_request_def reason w) (simp add: default_reason_def)
qed

theorem report_roundtrip_witness:
  "er_Reason (result_of (report_request demo_wcfg ''t'' (demo_req ''x'')
     (webhook_Execute demo_env \<lparr>cx_deadline = 9, cx_cancelled = None\<rparr> None))) = ReasonFailed"
proof -
  let ?c = "\<lparr>cx_deadline = 9, cx_cancelled = None\<rparr>"
  have "Execute demo_env ?c JobTypeWebhook None = Some (webhook_Execute demo_env ?c None)" by (simp add: Execute_def)
  from report_roundtrip [OF this, of demo_wcfg "''t''" "demo_req ''x''"] show ?thesis
    by (simp add: demo_env_def webhook_Execute_def Unmarshal_def mk_result_def default_reason_def)
qed

text \<open>
  The timeout reaches the worker: the timeout a worker runs a job with is the one of the
  queue message cut to whole milliseconds, never longer than asked; 30 seconds if none was set,
  or if it was below one millisecond.
\<close>

theorem timeout_passed_on:
  assumes "qj_Timeout m < 2 ^ 63"
  shows "job_timeout (execute_request m xid) =
     (if qj_Timeout m < Millisecond then 30 * Second else qj_Timeout m - qj_Timeout m mod Millisecond)"
proof -
  have ms: "Milliseconds t = t div Millisecond" if "0 \<le> t" for t
    using that by (cases "t = 0") (simp_all add: Milliseconds_def quot_go_def Millisecond_def sgn_if)
  consider "qj_Timeout m \<le> 0" | "0 < qj_Timeout m" "qj_Timeout m < Millisecond" | "Millisecond \<le> qj_Timeout m"
    by linarith
  then show ?thesis
  proof cases
    case 1
    then show ?thesis
      by (simp add: job_timeout_def execute_request_def Let_def ms Second_def Millisecond_def)
  next
    case 2
    then show ?thesis
      by (simp add: job_timeout_def execute_request_def Let_def ms Second_def)
  next
    case 3
    let ?t = "qj_Timeout m"
    have pos: "0 < ?t" using 3 by (simp add: Millisecond_def)
    have "?t div Millisecond * Millisecond = ?t - ?t mod Millisecond" by (simp add: minus_mod_eq_div_mult [symmetric])
    moreover have "0 < ?t - ?t mod Millisecond" "?t - ?t mod Millisecond \<le> ?t"
      using 3 by (simp_all add: Millisecond_def)
    moreover have "wrap64 (?t - ?t mod Millisecond) = ?t - ?t mod Millisecond"
      using calculation(2,3) assms by (intro wrap64_id) auto
    ultimately show ?thesis
      using 3 pos by (simp add: job_timeout_def execute_request_def Let_def ms)
  qed
qed

theorem timeout_passed_on_witness:
  "job_timeout (execute_request
     \<lparr>qj_JobID = ''j'', qj_ExecutionID = '''', qj_Name = '''', qj_Type = JobTypeBuiltin, qj_Payload = None,
      qj_Priority = 5, qj_Attempt = 0, qj_Timeout = 2 * Second + 7, qj_EnqueuedAt = 0, qj_TraceID = ''''\<rparr> ''x'') =
   2 * Second"
  by (subst timeout_passed_on) (simp_all add: Second_def Millisecond_def)


section \<open>Behaviours a reader may not expect\<close>

text \<open>
  Two requests that both pass the capacity test before either counts itself in are both started:
  the worker runs more jobs than its capacity.
\<close>

lemma capacity_check_race:
  "\<not> at_capacity demo_wcfg worker_New \<and>
   wf_Capacity demo_wcfg < ws_active (start_run (demo_req ''y'') (start_run (demo_req ''x'') worker_New))"
  by (simp add: at_capacity_def demo_wcfg_def worker_New_def start_run_def)

text \<open>
  Cancel functions are filed per job, not per execution: when an earlier attempt of a job ends
  after a later one has started on the same worker, the later one can no longer be cancelled.
\<close>

lemma earlier_attempt_drops_cancel:
  assumes "ws_running w = [r2, r1]" "xr_JobId (ru_req r1) = xr_JobId (ru_req r2)" "ru_handle r1 \<noteq> ru_handle r2"
  shows "ws_running (end_run r1 w) = [r2] \<and> map_of (ws_cancels (end_run r1 w)) (xr_JobId (ru_req r2)) = None \<and>
    worker_CancelJob (xr_JobId (ru_req r2)) (end_run r1 w) = (False, end_run r1 w)"
  using assms by (simp add: end_run_def Let_def worker_CancelJob_def cancelLocal_def)

end
