(* ===== verification/PgStore.thy ===== *)
theory PgStore
  imports Contracts Json
begin

text \<open>
  The PostgreSQL job store, \<^verbatim>\<open>internal/store/postgres/store.go\<close>, over the tables of
  \<^verbatim>\<open>migrations/001_init.sql\<close>. A table is an association list from primary keys to rows; each SQL
  statement of the source is a function on the tables, and a method is the sequence of its
  statements. The server's reply to each statement comes from outside: \<open>x_db\<close> gives the replies to
  the statements of one call. What the server and its driver do with values is the parameter \<open>pgx\<close>:
  the precision of \<open>timestamptz\<close> and the normal form of \<open>jsonb\<close>. The order of rows that an \<open>ORDER BY\<close>
  leaves open is an outside value too. The column \<open>state\<close> is kept as a value of the enumeration whose
  text it holds. Opening and pinging the connection have no model.
\<close>

section \<open>Tables\<close>

record JobRow =
  jr_id :: string
  jr_name :: string
  jr_type :: string
  jr_payload :: json
  jr_priority :: int
  jr_state :: JobState
  jr_schedule :: json
  jr_retry_policy :: json
  jr_timeout_ms :: int
  jr_idempotency_key :: "string option"
  jr_attempt :: int
  jr_max_attempts :: int
  jr_worker_id :: "string option"
  jr_execution_id :: "string option"
  jr_last_error :: "string option"
  jr_scheduled_at :: "time option"
  jr_queued_at :: "time option"
  jr_started_at :: "time option"
  jr_completed_at :: "time option"
  jr_next_retry_at :: "time option"
  jr_metadata :: json
  jr_created_at :: time
  jr_updated_at :: time

record ExecRow =
  xw_id :: string
  xw_job_id :: string
  xw_worker_id :: string
  xw_attempt :: int
  xw_state :: ExecutionState
  xw_started_at :: "time option"
  xw_finished_at :: "time option"
  xw_duration_ms :: "int option"
  xw_error :: "string option"
  xw_output :: rawmsg
  xw_retryable :: bool
  xw_created_at :: time

record WorkerRow =
  wr_id :: string
  wr_address :: string
  wr_status :: WorkerStatus
  wr_capacity :: int
  wr_active_jobs :: int
  wr_capabilities :: json
  wr_labels :: json
  wr_last_heartbeat :: time
  wr_registered_at :: time
  wr_metadata :: json

record OutRow =
  ow_id :: string
  ow_event_type :: string
  ow_aggregate_id :: string
  ow_payload :: json
  ow_created_at :: time
  ow_published_at :: "time option"

record PgDB =
  db_jobs :: "(string, JobRow) gomap"
  db_execs :: "(string, ExecRow) gomap"
  db_workers :: "(string, WorkerRow) gomap"
  db_outbox :: "(string, OutRow) gomap"

definition pg_empty :: PgDB where
  "pg_empty = \<lparr>db_jobs = [], db_execs = [], db_workers = [], db_outbox = []\<rparr>"

record pgx =
  pg_time :: "time \<Rightarrow> time"
  pg_jsonb :: "json \<Rightarrow> json"

text \<open>
  The documented behaviour of the column types: \<open>timestamptz\<close> keeps microseconds and orders instants;
  \<open>jsonb\<close> keeps the members of an object, in an order of its own, and the value \<open>null\<close>.
\<close>

fun json_atom :: "json \<Rightarrow> bool" where
  "json_atom (JArr _) = False" | "json_atom (JObj _) = False" | "json_atom _ = True"

definition pgx_ok :: "pgx \<Rightarrow> bool" where
  "pgx_ok P \<longleftrightarrow>
     (\<forall>t. pg_time P t \<le> t \<and> t < pg_time P t + 1000 \<and> pg_time P (pg_time P t) = pg_time P t) \<and>
     (\<forall>s t. s \<le> t \<longrightarrow> pg_time P s \<le> pg_time P t) \<and>
     pg_jsonb P JNull = JNull \<and>
     (\<forall>kvs. distinct (map fst kvs) \<longrightarrow> (\<forall>v\<in>snd ` set kvs. json_atom v) \<longrightarrow>
        (\<exists>kvs'. pg_jsonb P (JObj kvs) = JObj kvs' \<and> mset kvs' = mset kvs))"

text \<open>A statement and the server's reply to it.\<close>

definition exec_stmt :: "DbReply \<Rightarrow> ('d \<Rightarrow> 'a res \<times> 'd) \<Rightarrow> 'd \<Rightarrow> 'a res \<times> 'd" where
  "exec_stmt r f d =
     (case r of
        DbOk \<Rightarrow> f d
      | DbRefused e \<Rightarrow> (Inl e, d)
      | DbLost e \<Rightarrow> (Inl e, snd (f d)))"

definition query_stmt :: "DbReply \<Rightarrow> 'a res \<Rightarrow> 'a res" where
  "query_stmt r a = (case r of DbOk \<Rightarrow> a | DbRefused e \<Rightarrow> Inl e | DbLost e \<Rightarrow> Inl e)"

definition err_of :: "unit res \<times> 'd \<Rightarrow> Error option \<times> 'd" where
  "err_of p = (case p of (Inl e, d) \<Rightarrow> (Some e, d) | (Inr _, d) \<Rightarrow> (None, d))"

definition table_rows :: "ext \<Rightarrow> (string, 'r) gomap \<Rightarrow> 'r list" where
  "table_rows x t = map snd (range_map (x_order x) t)"

definition limit_rows :: "int \<Rightarrow> 'r list \<Rightarrow> 'r list res" where
  "limit_rows n rs = (if n < 0 then Inl (ErrMsg ''LIMIT must not be negative'') else Inr (take (nat n) rs))"

definition nullStr :: "string \<Rightarrow> string option" where
  "nullStr s = (if s = '''' then None else Some s)"

definition coalesce :: "string option \<Rightarrow> string" where
  "coalesce s = (case s of None \<Rightarrow> '''' | Some v \<Rightarrow> v)"


section \<open>Rows and structs\<close>

definition decode_map :: "json \<Rightarrow> metadata" where
  "decode_map v = snd (set_string_map (\<lambda>m _. m) v None)"

definition scanJob :: "JobRow \<Rightarrow> Job" where
  "scanJob r =
     \<lparr>job_ID = jr_id r, job_Name = jr_name r, job_Type = JobType_of (jr_type r),
      job_Payload = Some (jr_payload r), job_Priority = jr_priority r, job_State = jr_state r,
      job_Schedule = snd (Unmarshal Schedule_fields zeroSchedule (Some (jr_schedule r))),
      job_RetryPolicy = snd (Unmarshal RetryPolicy_fields zeroRetryPolicy (Some (jr_retry_policy r))),
      job_Timeout = wrap64 (jr_timeout_ms r * Millisecond),
      job_IdempotencyKey = coalesce (jr_idempotency_key r),
      job_Attempt = jr_attempt r, job_MaxAttempts = jr_max_attempts r,
      job_WorkerID = coalesce (jr_worker_id r), job_ExecutionID = coalesce (jr_execution_id r),
      job_LastError = coalesce (jr_last_error r),
      job_ScheduledAt = jr_scheduled_at r, job_QueuedAt = jr_queued_at r,
      job_StartedAt = jr_started_at r, job_CompletedAt = jr_completed_at r,
      job_NextRetryAt = jr_next_retry_at r, job_CreatedAt = jr_created_at r,
      job_UpdatedAt = jr_updated_at r, job_Metadata = decode_map (jr_metadata r)\<rparr>"

text \<open>The values of the \<open>INSERT\<close> of a job; the columns it does not name are \<open>NULL\<close>.\<close>

definition job_row :: "pgx \<Rightarrow> Job \<Rightarrow> JobRow" where
  "job_row P job =
     \<lparr>jr_id = job_ID job, jr_name = job_Name job, jr_type = JobType_string (job_Type job),
      jr_payload = pg_jsonb P (case job_Payload job of None \<Rightarrow> JObj [] | Some d \<Rightarrow> d),
      jr_priority = job_Priority job, jr_state = job_State job,
      jr_schedule = pg_jsonb P (Schedule_json (job_Schedule job)),
      jr_retry_policy = pg_jsonb P (RetryPolicy_json (job_RetryPolicy job)),
      jr_timeout_ms = Milliseconds (job_Timeout job),
      jr_idempotency_key = nullStr (job_IdempotencyKey job),
      jr_attempt = job_Attempt job, jr_max_attempts = job_MaxAttempts job,
      jr_worker_id = None, jr_execution_id = None, jr_last_error = None,
      jr_scheduled_at = map_option (pg_time P) (job_ScheduledAt job), jr_queued_at = None,
      jr_started_at = None, jr_completed_at = None, jr_next_retry_at = None,
      jr_metadata = pg_jsonb P (map_json (job_Metadata job)),
      jr_created_at = pg_time P (job_CreatedAt job), jr_updated_at = pg_time P (job_UpdatedAt job)\<rparr>"

definition Capabilities_json :: "WorkerCapabilities \<Rightarrow> json" where
  "Capabilities_json c = JObj [(''builtin'', JBool (cap_Builtin c)), (''webhook'', JBool (cap_Webhook c))]"

definition Capabilities_fields :: "(string \<times> WorkerCapabilities setter) list" where
  "Capabilities_fields =
     [(''builtin'', set_bool (\<lambda>b c. c\<lparr>cap_Builtin := b\<rparr>)), (''webhook'', set_bool (\<lambda>b c. c\<lparr>cap_Webhook := b\<rparr>))]"

definition worker_row :: "pgx \<Rightarrow> Worker \<Rightarrow> WorkerRow" where
  "worker_row P w =
     \<lparr>wr_id = wk_ID w, wr_address = wk_Address w, wr_status = wk_Status w, wr_capacity = wk_Capacity w,
      wr_active_jobs = wk_ActiveJobs w, wr_capabilities = pg_jsonb P (Capabilities_json (wk_Capabilities w)),
      wr_labels = pg_jsonb P (map_json (wk_Labels w)), wr_last_heartbeat = pg_time P (wk_LastHeartbeat w),
      wr_registered_at = pg_time P (wk_RegisteredAt w), wr_metadata = pg_jsonb P (map_json (wk_Metadata w))\<rparr>"

definition scanWorker :: "WorkerRow \<Rightarrow> Worker" where
  "scanWorker r =
     \<lparr>wk_ID = wr_id r, wk_Address = wr_address r, wk_Status = wr_status r, wk_Capacity = wr_capacity r,
      wk_ActiveJobs = wr_active_jobs r,
      wk_Capabilities = snd (Unmarshal Capabilities_fields \<lparr>cap_Builtin = False, cap_Webhook = False\<rparr> (Some (wr_capabilities r))),
      wk_Labels = decode_map (wr_labels r), wk_LastHeartbeat = wr_last_heartbeat r,
      wk_RegisteredAt = wr_registered_at r, wk_Metadata = decode_map (wr_metadata r)\<rparr>"

section \<open>Jobs\<close>

definition row_by_key :: "string \<Rightarrow> (string, JobRow) gomap \<Rightarrow> JobRow option" where
  "row_by_key key t = find (\<lambda>r. jr_idempotency_key r = Some key) (map snd t)"

text \<open>
  \<open>INSERT INTO jobs ... ON CONFLICT (idempotency_key) ... DO NOTHING\<close>, with the table's \<open>CHECK\<close> and
  its primary key.
\<close>

definition insert_job :: "JobRow \<Rightarrow> PgDB \<Rightarrow> unit res \<times> PgDB" where
  "insert_job r d =
     (if jr_type r \<noteq> ''builtin'' \<and> jr_type r \<noteq> ''webhook'' then (Inl (ErrMsg ''violates check constraint''), d)
      else if (case jr_idempotency_key r of
                 None \<Rightarrow> False
               | Some key \<Rightarrow> key \<noteq> '''' \<and> row_by_key key (db_jobs d) \<noteq> None) then (Inr (), d)
      else if map_of (db_jobs d) (jr_id r) \<noteq> None then (Inl (ErrMsg ''duplicate key value violates unique constraint''), d)
      else (Inr (), d\<lparr>db_jobs := gput (jr_id r) r (db_jobs d)\<rparr>))"

definition select_job :: "DbReply \<Rightarrow> string \<Rightarrow> PgDB \<Rightarrow> Job res" where
  "select_job reply jid d =
     query_stmt reply (case map_of (db_jobs d) jid of None \<Rightarrow> Inl ErrNotFound | Some r \<Rightarrow> Inr (scanJob r))"

definition pg_GetJob :: "ext \<Rightarrow> string \<Rightarrow> PgDB \<Rightarrow> Job res" where
  "pg_GetJob x jid d = select_job (x_db x 0) jid d"

definition select_by_key :: "DbReply \<Rightarrow> string \<Rightarrow> PgDB \<Rightarrow> Job res" where
  "select_by_key reply key d =
     query_stmt reply (case row_by_key key (db_jobs d) of None \<Rightarrow> Inl ErrNotFound | Some r \<Rightarrow> Inr (scanJob r))"

definition pg_GetJobByIdempotencyKey :: "ext \<Rightarrow> string \<Rightarrow> PgDB \<Rightarrow> Job option res" where
  "pg_GetJobByIdempotencyKey x key d = map_sum (\<lambda>e. e) Some (select_by_key (x_db x 0) key d)"

text \<open>A job state is never the empty string here, so its default \<open>CREATED\<close> does not apply.\<close>

definition pg_CreateJob :: "pgx \<Rightarrow> ext \<Rightarrow> Job \<Rightarrow> PgDB \<Rightarrow> Job res \<times> PgDB" where
  "pg_CreateJob P x job d =
     (let job = (if job_ID job = '''' then job\<lparr>job_ID := x_uuid x 0\<rparr> else job);
          now = x_now x 0;
          job = job\<lparr>job_CreatedAt := now, job_UpdatedAt := now\<rparr>;
          job = (if job_Priority job = 0 then job\<lparr>job_Priority := 5\<rparr> else job)
      in case exec_stmt (x_db x 0) (insert_job (job_row P job)) d of
           (Inl e, d) \<Rightarrow> (Inl e, d)
         | (Inr _, d) \<Rightarrow>
             if job_IdempotencyKey job \<noteq> '''' then
               (case select_by_key (x_db x 1) (job_IdempotencyKey job) d of
                  Inl e \<Rightarrow> (Inr job, d)
                | Inr existing \<Rightarrow>
                    if job_ID existing \<noteq> job_ID job then (Inr existing, d) else (Inr job, d))
             else (Inr job, d))"

text \<open>\<open>UPDATE jobs SET ... WHERE id=$1\<close>\<close>

definition state_columns :: "pgx \<Rightarrow> Job \<Rightarrow> JobRow \<Rightarrow> JobRow" where
  "state_columns P job r =
     r\<lparr>jr_state := job_State job, jr_worker_id := nullStr (job_WorkerID job),
       jr_execution_id := nullStr (job_ExecutionID job), jr_last_error := nullStr (job_LastError job),
       jr_attempt := job_Attempt job, jr_queued_at := map_option (pg_time P) (job_QueuedAt job),
       jr_started_at := map_option (pg_time P) (job_StartedAt job),
       jr_completed_at := map_option (pg_time P) (job_CompletedAt job),
       jr_next_retry_at := map_option (pg_time P) (job_NextRetryAt job),
       jr_scheduled_at := map_option (pg_time P) (job_ScheduledAt job),
       jr_updated_at := pg_time P (job_UpdatedAt job)\<rparr>"

definition update_job :: "pgx \<Rightarrow> Job \<Rightarrow> PgDB \<Rightarrow> unit res \<times> PgDB" where
  "update_job P job d =
     (case map_of (db_jobs d) (job_ID job) of
        None \<Rightarrow> (Inr (), d)
      | Some r \<Rightarrow> (Inr (), d\<lparr>db_jobs := gput (job_ID job) (state_columns P job r) (db_jobs d)\<rparr>))"

definition pg_UpdateJobStateIf ::
    "pgx \<Rightarrow> ext \<Rightarrow> string \<Rightarrow> JobState \<Rightarrow> fields \<Rightarrow> JobState list \<Rightarrow> PgDB \<Rightarrow> Error option \<times> PgDB" where
  "pg_UpdateJobStateIf P x jid st f onlyFrom d =
     (case select_job (x_db x 0) jid d of
        Inl e \<Rightarrow> (Some e, d)
      | Inr job \<Rightarrow>
          if onlyFrom \<noteq> [] \<and> job_State job \<notin> set onlyFrom then (None, d)
          else err_of (exec_stmt (x_db x 1) (update_job P (set_state (x_now x 0) st f job)) d))"

definition select_jobs ::
    "ext \<Rightarrow> (JobRow \<Rightarrow> bool) \<Rightarrow> (JobRow list \<Rightarrow> JobRow list) \<Rightarrow> int \<Rightarrow> PgDB \<Rightarrow> Job list res" where
  "select_jobs x cond ord limit d =
     query_stmt (x_db x 0)
       (map_sum (\<lambda>e. e) (map scanJob) (limit_rows limit (ord (filter cond (table_rows x (db_jobs d))))))"

definition pg_ListJobs :: "ext \<Rightarrow> string \<Rightarrow> int \<Rightarrow> PgDB \<Rightarrow> Job list res" where
  "pg_ListJobs x state limit d =
     (let limit = (if limit \<le> 0 then 50 else limit) in
      if state = '''' then select_jobs x (\<lambda>r. True) (sort_key (\<lambda>r. - jr_created_at r)) limit d
      else select_jobs x (\<lambda>r. JobState_string (jr_state r) = state) (sort_key (\<lambda>r. - jr_created_at r)) limit d)"

text \<open>\<open>ORDER BY priority DESC, scheduled_at ASC NULLS FIRST\<close> as stable sorts, the last key first.\<close>

definition due_row :: "time \<Rightarrow> JobRow \<Rightarrow> bool" where
  "due_row now r \<longleftrightarrow>
     JobState_string (jr_state r) = ''SCHEDULED'' \<and> (case jr_scheduled_at r of None \<Rightarrow> False | Some t \<Rightarrow> t \<le> now) \<or>
     JobState_string (jr_state r) = ''RETRYING'' \<and> (case jr_next_retry_at r of None \<Rightarrow> False | Some t \<Rightarrow> t \<le> now)"

definition due_order :: "JobRow list \<Rightarrow> JobRow list" where
  "due_order rs =
     sort_key (\<lambda>r. - jr_priority r)
       (sort_key (\<lambda>r. if jr_scheduled_at r = None then 0 else 1 :: nat)
         (sort_key (\<lambda>r. case jr_scheduled_at r of None \<Rightarrow> 0 | Some t \<Rightarrow> t) rs))"

definition pg_ListDueScheduled :: "pgx \<Rightarrow> ext \<Rightarrow> int \<Rightarrow> PgDB \<Rightarrow> Job list res" where
  "pg_ListDueScheduled P x limit d = select_jobs x (due_row (pg_time P (x_now x 0))) due_order limit d"

definition pg_ListCancelRequested :: "ext \<Rightarrow> int \<Rightarrow> PgDB \<Rightarrow> Job list res" where
  "pg_ListCancelRequested x limit d =
     (let limit = (if limit \<le> 0 then 50 else limit) in
      select_jobs x (\<lambda>r. JobState_string (jr_state r) = ''CANCEL_REQUESTED'') (sort_key jr_updated_at) limit d)"

definition overdue_row :: "time \<Rightarrow> JobRow \<Rightarrow> bool" where
  "overdue_row now r \<longleftrightarrow>
     (JobState_string (jr_state r) = ''RUNNING'' \<or> JobState_string (jr_state r) = ''ASSIGNED'') \<and>
     (case jr_started_at r of None \<Rightarrow> False | Some t \<Rightarrow> t + jr_timeout_ms r * Millisecond < now)"

definition started_key :: "JobRow \<Rightarrow> time" where
  "started_key r = (case jr_started_at r of None \<Rightarrow> 0 | Some t \<Rightarrow> t)"

definition pg_ListTimedOutRunning :: "pgx \<Rightarrow> ext \<Rightarrow> time \<Rightarrow> int \<Rightarrow> PgDB \<Rightarrow> Job list res" where
  "pg_ListTimedOutRunning P x now limit d =
     (let limit = (if limit \<le> 0 then 50 else limit) in
      select_jobs x (overdue_row (pg_time P now)) (sort_key started_key) limit d)"


section \<open>Executions\<close>

definition exec_row :: "pgx \<Rightarrow> JobExecution \<Rightarrow> ExecRow" where
  "exec_row P ex =
     \<lparr>xw_id = ex_ID ex, xw_job_id = ex_JobID ex, xw_worker_id = ex_WorkerID ex, xw_attempt = ex_Attempt ex,
      xw_state = ex_State ex, xw_started_at = None, xw_finished_at = None, xw_duration_ms = None,
      xw_error = None, xw_output = None, xw_retryable = False, xw_created_at = pg_time P (ex_CreatedAt ex)\<rparr>"

definition insert_exec :: "ExecRow \<Rightarrow> PgDB \<Rightarrow> unit res \<times> PgDB" where
  "insert_exec r d =
     (if map_of (db_execs d) (xw_id r) \<noteq> None then (Inl (ErrMsg ''duplicate key value violates unique constraint''), d)
      else if map_of (db_jobs d) (xw_job_id r) = None then (Inl (ErrMsg ''violates foreign key constraint''), d)
      else (Inr (), d\<lparr>db_execs := gput (xw_id r) r (db_execs d)\<rparr>))"

definition pg_CreateExecution :: "pgx \<Rightarrow> ext \<Rightarrow> JobExecution \<Rightarrow> PgDB \<Rightarrow> JobExecution res \<times> PgDB" where
  "pg_CreateExecution P x ex d =
     (let ex = (if ex_ID ex = '''' then ex\<lparr>ex_ID := x_uuid x 0\<rparr> else ex);
          ex = ex\<lparr>ex_CreatedAt := x_now x 0\<rparr>
      in case exec_stmt (x_db x 0) (insert_exec (exec_row P ex)) d of
           (Inl e, d) \<Rightarrow> (Inl e, d)
         | (Inr _, d) \<Rightarrow> (Inr ex, d))"

definition finish_row :: "pgx \<Rightarrow> time \<Rightarrow> ExecutionState \<Rightarrow> ExecutionResult \<Rightarrow> ExecRow \<Rightarrow> ExecRow" where
  "finish_row P now st res r =
     r\<lparr>xw_state := st, xw_finished_at := Some (pg_time P now), xw_duration_ms := Some (Milliseconds (er_Duration res)),
       xw_error := nullStr (er_Error res), xw_output := map_option (pg_jsonb P) (er_Output res),
       xw_retryable := er_Retryable res\<rparr>"

definition pg_FinishExecution ::
    "pgx \<Rightarrow> ext \<Rightarrow> string \<Rightarrow> ExecutionState \<Rightarrow> ExecutionResult \<Rightarrow> PgDB \<Rightarrow> Error option \<times> PgDB" where
  "pg_FinishExecution P x xid st res d =
     err_of (exec_stmt (x_db x 0)
       (\<lambda>d. case map_of (db_execs d) xid of
              None \<Rightarrow> (Inr (), d)
            | Some r \<Rightarrow> (Inr (), d\<lparr>db_execs := gput xid (finish_row P (x_now x 0) st res r) (db_execs d)\<rparr>)) d)"

section \<open>Workers\<close>

text \<open>\<open>INSERT INTO workers ... ON CONFLICT (id) DO UPDATE\<close>, which leaves \<open>registered_at\<close> as it was.\<close>

definition upsert_worker :: "WorkerRow \<Rightarrow> PgDB \<Rightarrow> unit res \<times> PgDB" where
  "upsert_worker r d =
     (let r = (case map_of (db_workers d) (wr_id r) of
                 None \<Rightarrow> r
               | Some old \<Rightarrow> r\<lparr>wr_registered_at := wr_registered_at old\<rparr>)
      in (Inr (), d\<lparr>db_workers := gput (wr_id r) r (db_workers d)\<rparr>))"

definition pg_UpsertWorker :: "pgx \<Rightarrow> ext \<Rightarrow> Worker \<Rightarrow> PgDB \<Rightarrow> Error option \<times> PgDB" where
  "pg_UpsertWorker P x w d = err_of (exec_stmt (x_db x 0) (upsert_worker (worker_row P w)) d)"

definition pg_ListHealthyWorkers :: "ext \<Rightarrow> PgDB \<Rightarrow> Worker list res" where
  "pg_ListHealthyWorkers x d =
     query_stmt (x_db x 0)
       (Inr (map scanWorker (sort_key wr_active_jobs
          (filter (\<lambda>r. wr_status r = WorkerStatusHealthy) (table_rows x (db_workers d))))))"

definition pg_ListWorkers :: "ext \<Rightarrow> PgDB \<Rightarrow> Worker list res" where
  "pg_ListWorkers x d =
     query_stmt (x_db x 0) (Inr (map scanWorker (sort_key wr_registered_at (table_rows x (db_workers d)))))"

text \<open>\<open>UPDATE workers SET status=... WHERE ... RETURNING id\<close>\<close>

definition mark_workers :: "ext \<Rightarrow> (WorkerRow \<Rightarrow> bool) \<Rightarrow> WorkerStatus \<Rightarrow> PgDB \<Rightarrow> string list res \<times> PgDB" where
  "mark_workers x cond st d =
     (Inr (map wr_id (filter cond (table_rows x (db_workers d)))),
      d\<lparr>db_workers := map (\<lambda>(i, r). (i, if cond r then r\<lparr>wr_status := st\<rparr> else r)) (db_workers d)\<rparr>)"

text \<open>
  The clock is read twice. With an error of the second statement the source also returns the workers
  the first one marked; the interface drops them, as its only caller does.
\<close>

definition pg_MarkStaleWorkers ::
    "pgx \<Rightarrow> ext \<Rightarrow> duration \<Rightarrow> duration \<Rightarrow> PgDB \<Rightarrow> (string list \<times> string list) res \<times> PgDB" where
  "pg_MarkStaleWorkers P x heartbeatTimeout grace d =
     (let suspectBefore = pg_time P (x_now x 0 + wrap64 (- heartbeatTimeout));
          deadBefore = pg_time P (x_now x 1 + wrap64 (- wrap64 (heartbeatTimeout + grace)))
      in case exec_stmt (x_db x 0)
                (mark_workers x
                  (\<lambda>r. (wr_status r = WorkerStatusHealthy \<or> wr_status r = WorkerStatusSuspected) \<and>
                       wr_last_heartbeat r < deadBefore) WorkerStatusUnavailable) d of
           (Inl e, d) \<Rightarrow> (Inl e, d)
         | (Inr unavailable, d) \<Rightarrow>
             (case exec_stmt (x_db x 1)
                     (mark_workers x
                       (\<lambda>r. wr_status r = WorkerStatusHealthy \<and> wr_last_heartbeat r < suspectBefore \<and>
                            deadBefore \<le> wr_last_heartbeat r) WorkerStatusSuspected) d of
                (Inl e, d) \<Rightarrow> (Inl e, d)
              | (Inr suspected, d) \<Rightarrow> (Inr (suspected, unavailable), d)))"


section \<open>Outbox\<close>

definition Event_json :: "Event \<Rightarrow> json" where
  "Event_json e =
     JObj ([(''event_id'', JStr (ev_EventID e)), (''event_type'', JStr (EventType_string (ev_EventType e))),
            (''event_version'', JInt (ev_EventVersion e)), (''event_time'', JTime (ev_EventTime e))] @
           omitempty (ev_IngestedAt e = None) ''ingested_at'' (time_ptr_json (ev_IngestedAt e)) @
           omitempty (ev_JobID e = '''') ''job_id'' (JStr (ev_JobID e)) @
           omitempty (ev_ExecutionID e = '''') ''execution_id'' (JStr (ev_ExecutionID e)) @
           omitempty (ev_WorkerID e = '''') ''worker_id'' (JStr (ev_WorkerID e)) @
           omitempty (ev_SchedulerID e = '''') ''scheduler_id'' (JStr (ev_SchedulerID e)) @
           omitempty (ev_Attempt e = 0) ''attempt'' (JInt (ev_Attempt e)) @
           omitempty (ev_TraceID e = '''') ''trace_id'' (JStr (ev_TraceID e)) @
           (case ev_Payload e of None \<Rightarrow> [] | Some v \<Rightarrow> [(''payload'', v)]))"

definition out_row :: "pgx \<Rightarrow> Event \<Rightarrow> OutRow" where
  "out_row P e =
     \<lparr>ow_id = ev_EventID e, ow_event_type = EventType_string (ev_EventType e), ow_aggregate_id = ev_JobID e,
      ow_payload = pg_jsonb P (Event_json e), ow_created_at = pg_time P (ev_EventTime e), ow_published_at = None\<rparr>"

definition insert_out :: "OutRow \<Rightarrow> PgDB \<Rightarrow> unit res \<times> PgDB" where
  "insert_out r d =
     (if map_of (db_outbox d) (ow_id r) \<noteq> None then (Inl (ErrMsg ''duplicate key value violates unique constraint''), d)
      else (Inr (), d\<lparr>db_outbox := gput (ow_id r) r (db_outbox d)\<rparr>))"

text \<open>Every caller passes a nil transaction.\<close>

definition pg_InsertOutbox :: "pgx \<Rightarrow> ext \<Rightarrow> Event \<Rightarrow> PgDB \<Rightarrow> Error option \<times> PgDB" where
  "pg_InsertOutbox P x e d = err_of (exec_stmt (x_db x 0) (insert_out (out_row P e)) d)"

definition OutboxRow_of :: "OutRow \<Rightarrow> OutboxRow" where
  "OutboxRow_of r =
     \<lparr>or_ID = ow_id r, or_EventType = ow_event_type r, or_AggregateID = ow_aggregate_id r,
      or_Payload = Some (ow_payload r), or_CreatedAt = ow_created_at r\<rparr>"

definition pg_FetchOutboxBatch :: "ext \<Rightarrow> int \<Rightarrow> PgDB \<Rightarrow> OutboxRow list res" where
  "pg_FetchOutboxBatch x limit d =
     query_stmt (x_db x 0)
       (map_sum (\<lambda>e. e) (map OutboxRow_of)
         (limit_rows limit (sort_key ow_created_at
            (filter (\<lambda>r. ow_published_at r = None) (table_rows x (db_outbox d))))))"

text \<open>One \<open>UPDATE\<close> per identifier; an error ends the loop.\<close>

definition publish_row :: "time \<Rightarrow> string \<Rightarrow> PgDB \<Rightarrow> unit res \<times> PgDB" where
  "publish_row now i d =
     (case map_of (db_outbox d) i of
        None \<Rightarrow> (Inr (), d)
      | Some r \<Rightarrow> (Inr (), d\<lparr>db_outbox := gput i (r\<lparr>ow_published_at := Some now\<rparr>) (db_outbox d)\<rparr>))"

fun publish_loop :: "time \<Rightarrow> (nat \<Rightarrow> DbReply) \<Rightarrow> nat \<Rightarrow> string list \<Rightarrow> PgDB \<Rightarrow> Error option \<times> PgDB" where
  "publish_loop now replies n [] d = (None, d)"
| "publish_loop now replies n (i # is) d =
     (case exec_stmt (replies n) (publish_row now i) d of
        (Inl e, d) \<Rightarrow> (Some e, d)
      | (Inr _, d) \<Rightarrow> publish_loop now replies (Suc n) is d)"

definition pg_MarkOutboxPublished :: "pgx \<Rightarrow> ext \<Rightarrow> string list \<Rightarrow> PgDB \<Rightarrow> Error option \<times> PgDB" where
  "pg_MarkOutboxPublished P x ids d =
     (if ids = [] then (None, d) else publish_loop (pg_time P (x_now x 0)) (x_db x) 0 ids d)"


section \<open>The store as a \<open>JobStore\<close>\<close>

definition postgres_store :: "pgx \<Rightarrow> PgDB JobStore" where
  "postgres_store P =
     \<lparr>js_CreateJob = pg_CreateJob P, js_GetJob = pg_GetJob,
      js_GetJobByIdempotencyKey = pg_GetJobByIdempotencyKey,
      js_UpdateJobStateIf = pg_UpdateJobStateIf P, js_ListJobs = pg_ListJobs,
      js_ListDueScheduled = pg_ListDueScheduled P,
      js_ListCancelRequested = pg_ListCancelRequested,
      js_ListTimedOutRunning = pg_ListTimedOutRunning P,
      js_CreateExecution = pg_CreateExecution P, js_FinishExecution = pg_FinishExecution P,
      js_UpsertWorker = pg_UpsertWorker P, js_ListHealthyWorkers = pg_ListHealthyWorkers,
      js_ListWorkers = pg_ListWorkers, js_MarkStaleWorkers = pg_MarkStaleWorkers P,
      js_InsertOutbox = pg_InsertOutbox P, js_FetchOutboxBatch = pg_FetchOutboxBatch,
      js_MarkOutboxPublished = pg_MarkOutboxPublished P\<rparr>"

section \<open>Abstraction and representation invariant\<close>

definition exec_of :: "ExecRow \<Rightarrow> JobExecution" where
  "exec_of r =
     \<lparr>ex_ID = xw_id r, ex_JobID = xw_job_id r, ex_WorkerID = xw_worker_id r, ex_Attempt = xw_attempt r,
      ex_State = xw_state r, ex_StartedAt = xw_started_at r, ex_FinishedAt = xw_finished_at r,
      ex_DurationMs = (case xw_duration_ms r of None \<Rightarrow> 0 | Some n \<Rightarrow> n), ex_Error = coalesce (xw_error r),
      ex_Output = xw_output r, ex_Retryable = xw_retryable r, ex_CreatedAt = xw_created_at r\<rparr>"

definition pg_abs :: "PgDB \<Rightarrow> AbsStore" where
  "pg_abs d =
     \<lparr>a_jobs = map_option scanJob \<circ> map_of (db_jobs d),
      a_keys = (\<lambda>key. map_option jr_id (row_by_key key (db_jobs d))),
      a_execs = map_option exec_of \<circ> map_of (db_execs d),
      a_workers = map_option scanWorker \<circ> map_of (db_workers d)\<rparr>"

text \<open>What the primary keys and the partial unique index enforce.\<close>

definition jobs_ok :: "(string, JobRow) gomap \<Rightarrow> bool" where
  "jobs_ok t \<longleftrightarrow>
     gomap_wf t \<and>
     (\<forall>i r. map_of t i = Some r \<longrightarrow> jr_id r = i \<and> jr_idempotency_key r \<noteq> Some []) \<and>
     (\<forall>i r i' r'. map_of t i = Some r \<longrightarrow> map_of t i' = Some r' \<longrightarrow>
        jr_idempotency_key r = jr_idempotency_key r' \<longrightarrow> jr_idempotency_key r \<noteq> None \<longrightarrow> i = i')"

definition pg_inv :: "PgDB \<Rightarrow> bool" where
  "pg_inv d \<longleftrightarrow>
     jobs_ok (db_jobs d) \<and> gomap_wf (db_execs d) \<and> gomap_wf (db_workers d) \<and> gomap_wf (db_outbox d) \<and>
     (\<forall>i r. map_of (db_outbox d) i = Some r \<longrightarrow> ow_id r = i)"

lemma pg_inv_empty [simp]: "pg_inv pg_empty"
  by (simp add: pg_inv_def pg_empty_def jobs_ok_def)

lemma pg_abs_sel [simp]:
  "a_jobs (pg_abs d) jid = map_option scanJob (map_of (db_jobs d) jid)"
  "a_keys (pg_abs d) key = map_option jr_id (row_by_key key (db_jobs d))"
  by (simp_all add: pg_abs_def)

lemma option_eqI: "(\<And>k. a = Some k \<longleftrightarrow> b = Some k) \<Longrightarrow> a = b"
  by (cases a; cases b) auto

lemma coalesce_nullStr [simp]: "coalesce (nullStr s) = s"
  by (simp add: coalesce_def nullStr_def)

lemma gput_new: "map_of m k = None \<Longrightarrow> gput k v m = m @ [(k, v)]"
  by (induction m) (auto simp: gput_def)

lemma jobs_okD:
  assumes "jobs_ok t" "map_of t i = Some r"
  shows "jr_id r = i" "jr_idempotency_key r \<noteq> Some []"
  using assms by (auto simp: jobs_ok_def)

lemma jobs_ok_unique:
  "jobs_ok t \<Longrightarrow> map_of t i = Some r \<Longrightarrow> map_of t i' = Some r' \<Longrightarrow>
   jr_idempotency_key r = Some key \<Longrightarrow> jr_idempotency_key r' = Some key \<Longrightarrow> i = i'"
  unfolding jobs_ok_def by (metis option.distinct(1))

lemma row_of_table: "gomap_wf t \<Longrightarrow> r \<in> snd ` set t \<longleftrightarrow> (\<exists>i. map_of t i = Some r)"
  by (force simp: gomap_wf_def)

lemma row_by_key_mem:
  assumes "row_by_key key t = Some q"
  shows "q \<in> snd ` set t \<and> jr_idempotency_key q = Some key"
proof -
  have "q \<in> set (map snd t) \<and> jr_idempotency_key q = Some key"
    using assms [unfolded row_by_key_def find_Some_iff] by (elim exE conjE) (simp only: nth_mem simp_thms)
  then show ?thesis by simp
qed

lemma row_by_key_iff:
  assumes "jobs_ok t"
  shows "row_by_key key t = Some r \<longleftrightarrow> jr_idempotency_key r = Some key \<and> map_of t (jr_id r) = Some r"
proof -
  have wf: "gomap_wf t" using assms by (simp add: jobs_ok_def)
  have some: "jr_idempotency_key q = Some key \<and> map_of t (jr_id q) = Some q" if "row_by_key key t = Some q" for q
    using row_by_key_mem [OF that] row_of_table [OF wf, of q] jobs_okD(1) [OF assms] by metis
  have "row_by_key key t = Some r" if r: "jr_idempotency_key r = Some key" "map_of t (jr_id r) = Some r"
  proof -
    have "r \<in> set (map snd t)" unfolding set_map row_of_table [OF wf] using r(2) by (rule exI)
    then have "row_by_key key t \<noteq> None" using r(1) unfolding row_by_key_def find_None_iff by blast
    then obtain q where q: "row_by_key key t = Some q" by blast
    then have "jr_id q = jr_id r"
      using jobs_ok_unique [OF assms _ r(2) _ r(1)] some by blast
    with some [OF q] r(2) q show ?thesis by metis
  qed
  with some show ?thesis by blast
qed

text \<open>Replacing a row by one with the same identifier and key.\<close>

lemma jobs_ok_replace:
  assumes "jobs_ok t" "map_of t i = Some r" "jr_id r' = jr_id r" "jr_idempotency_key r' = jr_idempotency_key r"
  shows "jobs_ok (gput i r' t)" "map_option jr_id (row_by_key key (gput i r' t)) = map_option jr_id (row_by_key key t)"
proof -
  have same: "\<exists>q. map_of t k = Some q \<and> jr_id q = jr_id q' \<and> jr_idempotency_key q = jr_idempotency_key q'"
    if "map_of (gput i r' t) k = Some q'" for k q'
    using that assms(2-4) by (auto split: if_splits)
  show ok: "jobs_ok (gput i r' t)"
    unfolding jobs_ok_def
  proof (intro conjI allI impI)
    show "gomap_wf (gput i r' t)" using assms(1) by (simp add: jobs_ok_def)
  next
    fix k q assume "map_of (gput i r' t) k = Some q"
    from same [OF this] jobs_okD [OF assms(1)] show "jr_id q = k" "jr_idempotency_key q \<noteq> Some []" by metis+
  next
    fix k q k' q'
    assume "map_of (gput i r' t) k = Some q" "map_of (gput i r' t) k' = Some q'"
      "jr_idempotency_key q = jr_idempotency_key q'" "jr_idempotency_key q \<noteq> None"
    then show "k = k'" using same jobs_ok_unique [OF assms(1)] by (metis not_None_eq)
  qed
  have i: "jr_id r = i" by (rule jobs_okD(1) [OF assms(1,2)])
  have "map_option jr_id (row_by_key key (gput i r' t)) = Some k \<longleftrightarrow> map_option jr_id (row_by_key key t) = Some k" for k
  proof (cases "k = i")
    case True
    then show ?thesis
      unfolding map_option_eq_Some row_by_key_iff [OF ok] row_by_key_iff [OF assms(1)]
      using assms(2-4) i by auto
  next
    case False
    then show ?thesis
      unfolding map_option_eq_Some row_by_key_iff [OF ok] row_by_key_iff [OF assms(1)] by auto
  qed
  then show "map_option jr_id (row_by_key key (gput i r' t)) = map_option jr_id (row_by_key key t)"
    by (rule option_eqI)
qed

text \<open>Adding a row under a new identifier and a new key.\<close>

lemma jobs_ok_insert:
  assumes "jobs_ok t" "map_of t (jr_id r) = None" "jr_idempotency_key r \<noteq> Some []"
    and "\<And>key. jr_idempotency_key r = Some key \<Longrightarrow> row_by_key key t = None"
  shows "jobs_ok (gput (jr_id r) r t)"
    "row_by_key key (gput (jr_id r) r t) = (if jr_idempotency_key r = Some key then Some r else row_by_key key t)"
proof -
  have other: "jr_idempotency_key q \<noteq> jr_idempotency_key r" if "map_of t k = Some q" "jr_idempotency_key q \<noteq> None" for k q
  proof
    assume e: "jr_idempotency_key q = jr_idempotency_key r"
    from that(2) obtain key where key: "jr_idempotency_key q = Some key" by blast
    then have "row_by_key key t = Some q" using that(1) jobs_okD(1) [OF assms(1) that(1)] by (simp add: row_by_key_iff [OF assms(1)])
    with assms(4) [of key] e key show False by simp
  qed
  show ok: "jobs_ok (gput (jr_id r) r t)"
    unfolding jobs_ok_def
  proof (intro conjI allI impI)
    show "gomap_wf (gput (jr_id r) r t)" using assms(1) by (simp add: jobs_ok_def)
  next
    fix k q assume "map_of (gput (jr_id r) r t) k = Some q"
    then show "jr_id q = k" "jr_idempotency_key q \<noteq> Some []"
      using jobs_okD [OF assms(1)] assms(3) by (auto split: if_splits)
  next
    fix k q k' q'
    assume "map_of (gput (jr_id r) r t) k = Some q" "map_of (gput (jr_id r) r t) k' = Some q'"
      "jr_idempotency_key q = jr_idempotency_key q'" "jr_idempotency_key q \<noteq> None"
    then show "k = k'" using other jobs_ok_unique [OF assms(1)] by (auto split: if_splits)
  qed
  have "row_by_key key (gput (jr_id r) r t) = Some q \<longleftrightarrow>
      (if jr_idempotency_key r = Some key then q = r else row_by_key key t = Some q)" for q
    unfolding row_by_key_iff [OF ok] row_by_key_iff [OF assms(1)]
    using other [of "jr_id q" q] assms(2) by (auto split: if_splits)
  then show "row_by_key key (gput (jr_id r) r t) = (if jr_idempotency_key r = Some key then Some r else row_by_key key t)"
    by (intro option_eqI) auto
qed

section \<open>What the statements do\<close>

text \<open>A statement with its reply either ran or left the tables alone.\<close>

lemma exec_stmt_cases:
  assumes "exec_stmt reply f d = (r, d')"
  obtains "f d = (r, d')" | e where "r = Inl e" "d' = d" | e a where "r = Inl e" "f d = (a, d')"
  using assms by (cases "f d") (auto simp: exec_stmt_def split: DbReply.splits)

lemma exec_stmt_state: "exec_stmt reply f d = (r, d') \<Longrightarrow> d' = d \<or> d' = snd (f d)"
  by (auto simp: exec_stmt_def split: DbReply.splits)

lemma exec_stmt_Inr: "exec_stmt reply f d = (Inr a, d') \<Longrightarrow> f d = (Inr a, d')"
  by (simp add: exec_stmt_def split: DbReply.splits)

lemma query_stmt_Inr: "query_stmt reply a = Inr v \<longleftrightarrow> reply = DbOk \<and> a = Inr v"
  by (simp add: query_stmt_def split: DbReply.splits)

lemma err_of_snd [simp]: "snd (err_of p) = snd p"
  by (cases p) (auto simp: err_of_def split: sum.splits)

lemma select_job_Inr:
  "select_job reply jid d = Inr j \<longleftrightarrow> reply = DbOk \<and> (\<exists>r. map_of (db_jobs d) jid = Some r \<and> j = scanJob r)"
  by (auto simp: select_job_def query_stmt_Inr split: option.splits)

lemma pg_inv_jobs: "pg_inv d \<Longrightarrow> jobs_ok (db_jobs d)"
  by (simp add: pg_inv_def)

lemma pg_inv_put_jobs: "pg_inv d \<Longrightarrow> jobs_ok t \<Longrightarrow> pg_inv (d\<lparr>db_jobs := t\<rparr>)"
  by (simp add: pg_inv_def)

lemma scanJob_sel [simp]:
  "job_ID (scanJob r) = jr_id r" "job_State (scanJob r) = jr_state r"
  "job_IdempotencyKey (scanJob r) = coalesce (jr_idempotency_key r)"
  by (simp_all add: scanJob_def)

lemma scan_state_columns: "moved st f (scanJob r) (scanJob (state_columns P (set_state now st f (scanJob r)) r))"
  by (simp add: moved_def same_work_def scanJob_def state_columns_def)

lemma state_columns_sel [simp]:
  "jr_id (state_columns P j r) = jr_id r" "jr_idempotency_key (state_columns P j r) = jr_idempotency_key r"
  by (simp_all add: state_columns_def)

lemma update_job_effect:
  assumes "pg_inv d" "map_of (db_jobs d) jid = Some r" "d' = snd (update_job P (set_state now st f (scanJob r)) d)"
  shows "pg_inv d'" "a_keys (pg_abs d') = a_keys (pg_abs d)"
    "a_jobs (pg_abs d') = (a_jobs (pg_abs d))(jid \<mapsto> scanJob (state_columns P (set_state now st f (scanJob r)) r))"
proof -
  note ok = pg_inv_jobs [OF assms(1)]
  have i: "jr_id r = jid" by (rule jobs_okD(1) [OF ok assms(2)])
  let ?r = "state_columns P (set_state now st f (scanJob r)) r"
  have d': "d' = d\<lparr>db_jobs := gput jid ?r (db_jobs d)\<rparr>" by (simp add: assms(3) update_job_def i assms(2))
  note rp = jobs_ok_replace [OF ok assms(2), of ?r]
  show "pg_inv d'" unfolding d' by (intro pg_inv_put_jobs assms(1) rp(1)) simp_all
  show "a_keys (pg_abs d') = a_keys (pg_abs d)"
    unfolding d' fun_eq_iff pg_abs_sel PgDB.simps using rp(2) by simp
  show "a_jobs (pg_abs d') = (a_jobs (pg_abs d))(jid \<mapsto> scanJob ?r)"
    unfolding d' fun_eq_iff pg_abs_sel by simp
qed

lemma pg_UpdateJobStateIf_sound:
  assumes "pg_inv d" "pg_UpdateJobStateIf P x jid st f onlyFrom d = (e, d')"
  shows "pg_inv d' \<and> a_keys (pg_abs d') = a_keys (pg_abs d) \<and>
    (a_jobs (pg_abs d') = a_jobs (pg_abs d) \<or>
     (\<exists>j k. a_jobs (pg_abs d) jid = Some j \<and> (onlyFrom = [] \<or> job_State j \<in> set onlyFrom) \<and>
            moved st f j k \<and> a_jobs (pg_abs d') = (a_jobs (pg_abs d))(jid \<mapsto> k)))"
proof (cases "select_job (x_db x 0) jid d")
  case (Inl e')
  with assms show ?thesis by (auto simp: pg_UpdateJobStateIf_def)
next
  case (Inr job)
  then obtain r where r: "map_of (db_jobs d) jid = Some r" "job = scanJob r" by (auto simp: select_job_Inr)
  let ?k = "set_state (x_now x 0) st f job"
  show ?thesis
  proof (cases "onlyFrom \<noteq> [] \<and> job_State job \<notin> set onlyFrom")
    case True
    with assms Inr show ?thesis by (auto simp: pg_UpdateJobStateIf_def)
  next
    case False
    obtain q d1 where q: "exec_stmt (x_db x 1) (update_job P ?k) d = (q, d1)" by (metis surj_pair)
    have "snd (pg_UpdateJobStateIf P x jid st f onlyFrom d) = d1"
      using Inr False q by (auto simp: pg_UpdateJobStateIf_def)
    with assms(2) have d1: "d1 = d'" by simp
    from exec_stmt_state [OF q] have "d' = d \<or> d' = snd (update_job P ?k d)" unfolding d1 .
    then show ?thesis
    proof
      assume "d' = snd (update_job P ?k d)"
      note eff = update_job_effect [OF assms(1) r(1) this [unfolded r(2)], folded r(2)]
      have "a_jobs (pg_abs d) jid = Some job" "onlyFrom = [] \<or> job_State job \<in> set onlyFrom"
        using r False by auto
      with eff scan_state_columns [of st f r P "x_now x 0", folded r(2)] show ?thesis by blast
    qed (use assms(1) in simp)
  qed
qed

lemma insert_job_effect:
  assumes "pg_inv d" "insert_job r d = (q, d')" "jr_idempotency_key r = nullStr key"
  shows "d' = d \<and> (q = Inr () \<longrightarrow> key \<noteq> '''' \<and> row_by_key key (db_jobs d) \<noteq> None) \<or>
    q = Inr () \<and> pg_inv d' \<and> d' = d\<lparr>db_jobs := gput (jr_id r) r (db_jobs d)\<rparr> \<and>
    (\<forall>k. row_by_key k (db_jobs d') = (if key \<noteq> '''' \<and> k = key then Some r else row_by_key k (db_jobs d)))"
proof (cases "d' = d \<and> (q = Inr () \<longrightarrow> key \<noteq> '''' \<and> row_by_key key (db_jobs d) \<noteq> None)")
  case False
  with assms(2,3) have q: "q = Inr ()" "d' = d\<lparr>db_jobs := gput (jr_id r) r (db_jobs d)\<rparr>"
    and n: "map_of (db_jobs d) (jr_id r) = None" "key \<noteq> '''' \<Longrightarrow> row_by_key key (db_jobs d) = None"
    by (auto simp: insert_job_def nullStr_def split: if_splits option.splits)
  have "jr_idempotency_key r \<noteq> Some []" "\<And>k. jr_idempotency_key r = Some k \<Longrightarrow> row_by_key k (db_jobs d) = None"
    using n(2) assms(3) by (auto simp: nullStr_def split: if_splits)
  note ins = jobs_ok_insert [OF pg_inv_jobs [OF assms(1)] n(1) this]
  have "pg_inv d'" unfolding q(2) by (intro pg_inv_put_jobs assms(1) ins(1))
  with q ins(2) assms(3) show ?thesis by (auto simp: nullStr_def)
qed blast

definition named_job :: "ext \<Rightarrow> Job \<Rightarrow> Job" where
  "named_job x job =
     job\<lparr>job_ID := new_id x job, job_CreatedAt := x_now x 0, job_UpdatedAt := x_now x 0,
         job_Priority := if job_Priority job = 0 then 5 else job_Priority job\<rparr>"

lemma named_job_sel [simp]:
  "job_ID (named_job x job) = new_id x job" "job_State (named_job x job) = job_State job"
  "job_IdempotencyKey (named_job x job) = job_IdempotencyKey job"
  by (simp_all add: named_job_def)

lemma pg_CreateJob_eq:
  "pg_CreateJob P x job d =
     (case exec_stmt (x_db x 0) (insert_job (job_row P (named_job x job))) d of
        (Inl e, d) \<Rightarrow> (Inl e, d)
      | (Inr _, d) \<Rightarrow>
          if job_IdempotencyKey job \<noteq> '''' then
            (case select_by_key (x_db x 1) (job_IdempotencyKey job) d of
               Inl e \<Rightarrow> (Inr (named_job x job), d)
             | Inr existing \<Rightarrow>
                 if job_ID existing \<noteq> new_id x job then (Inr existing, d) else (Inr (named_job x job), d))
          else (Inr (named_job x job), d))"
proof -
  define jb where "jb = (if job_ID job = '''' then job\<lparr>job_ID := x_uuid x 0\<rparr> else job)"
  let ?j = "jb\<lparr>job_CreatedAt := x_now x 0, job_UpdatedAt := x_now x 0\<rparr>"
  have j: "(if job_Priority ?j = 0 then ?j\<lparr>job_Priority := 5\<rparr> else ?j) = named_job x job"
    by (cases job) (simp add: jb_def named_job_def new_id_def)
  show ?thesis unfolding pg_CreateJob_def Let_def jb_def [symmetric] j named_job_sel ..
qed

lemma job_row_sel [simp]:
  "jr_id (job_row P job) = job_ID job" "jr_state (job_row P job) = job_State job"
  "jr_idempotency_key (job_row P job) = nullStr (job_IdempotencyKey job)"
  by (simp_all add: job_row_def)

lemma select_by_key_Inr:
  "select_by_key reply key d = Inr j \<longleftrightarrow> reply = DbOk \<and> (\<exists>r. row_by_key key (db_jobs d) = Some r \<and> j = scanJob r)"
  by (auto simp: select_by_key_def query_stmt_Inr split: option.splits)

lemma pg_CreateJob_sound:
  assumes "pg_inv d" "pg_CreateJob P x job d = (r, d')"
  shows "pg_inv d' \<and>
    (a_jobs (pg_abs d') = a_jobs (pg_abs d) \<and> a_keys (pg_abs d') = a_keys (pg_abs d) \<or>
     (\<exists>k. job_State k = job_State job \<and> job_IdempotencyKey k = job_IdempotencyKey job \<and>
          a_jobs (pg_abs d') = (a_jobs (pg_abs d))(new_id x job \<mapsto> k) \<and>
          a_keys (pg_abs d') = (if job_IdempotencyKey job = '''' then a_keys (pg_abs d)
                                else (a_keys (pg_abs d))(job_IdempotencyKey job \<mapsto> new_id x job)))) \<and>
    (\<forall>k. r = Inr k \<longrightarrow> job_ID k = new_id x job \<or>
       job_IdempotencyKey job \<noteq> '''' \<and> a_keys (pg_abs d) (job_IdempotencyKey job) = Some (job_ID k))"
proof -
  let ?row = "job_row P (named_job x job)" and ?key = "job_IdempotencyKey job"
  obtain q d1 where q: "exec_stmt (x_db x 0) (insert_job ?row) d = (q, d1)" by (metis surj_pair)
  obtain q' d2 where ins: "insert_job ?row d = (q', d2)" by (metis surj_pair)
  have d1: "d1 = d \<or> d1 = d2" "q = Inr () \<Longrightarrow> q' = Inr () \<and> d1 = d2"
    using exec_stmt_state [OF q] exec_stmt_Inr [of "x_db x 0" "insert_job ?row" d "()" d1] q ins by auto
  have d': "d' = d1"
    using assms(2) q unfolding pg_CreateJob_eq by (auto split: sum.splits if_splits)
  note eff = insert_job_effect [OF assms(1) ins, of ?key, simplified]
  have state: "pg_inv d2 \<and> (a_jobs (pg_abs d2) = a_jobs (pg_abs d) \<and> a_keys (pg_abs d2) = a_keys (pg_abs d) \<or>
     (\<exists>k. job_State k = job_State job \<and> job_IdempotencyKey k = ?key \<and>
          a_jobs (pg_abs d2) = (a_jobs (pg_abs d))(new_id x job \<mapsto> k) \<and>
          a_keys (pg_abs d2) = (if ?key = '''' then a_keys (pg_abs d) else (a_keys (pg_abs d))(?key \<mapsto> new_id x job))))"
    using eff
  proof
    assume e: "q' = Inr () \<and> pg_inv d2 \<and> d2 = d\<lparr>db_jobs := gput (new_id x job) ?row (db_jobs d)\<rparr> \<and>
      (\<forall>k. row_by_key k (db_jobs d2) = (if ?key \<noteq> '''' \<and> k = ?key then Some ?row else row_by_key k (db_jobs d)))"
    then have "a_jobs (pg_abs d2) = (a_jobs (pg_abs d))(new_id x job \<mapsto> scanJob ?row)"
      by (auto simp: fun_eq_iff)
    moreover have "a_keys (pg_abs d2) = (if ?key = '''' then a_keys (pg_abs d) else (a_keys (pg_abs d))(?key \<mapsto> new_id x job))"
      using e by (auto simp: fun_eq_iff)
    moreover have "pg_inv d2" using e by blast
    ultimately show ?thesis by (intro conjI disjI2 exI [of _ "scanJob ?row"]) simp_all
  qed (use assms(1) in simp)
  have result: "job_ID k = new_id x job \<or> ?key \<noteq> '''' \<and> a_keys (pg_abs d) ?key = Some (job_ID k)" if k: "r = Inr k" for k
  proof (cases "job_ID k = new_id x job")
    case False
    with assms(2) q k obtain row where row: "q = Inr ()" "?key \<noteq> ''''" "row_by_key ?key (db_jobs d1) = Some row" "k = scanJob row"
      unfolding pg_CreateJob_eq by (auto simp: select_by_key_Inr split: sum.splits if_splits)
    with eff d1(2) False show ?thesis by auto
  qed simp
  from state d1(1) assms(1) result show ?thesis unfolding d' by blast
qed

text \<open>A query returns rows of the table, each once.\<close>

lemma set_table_rows: "r \<in> set (table_rows x t) \<Longrightarrow> \<exists>i. map_of t i = Some r"
  by (auto simp: table_rows_def range_map_def set_visit)

lemma distinct_table_rows:
  assumes "ext_ok x" "gomap_wf t" "\<And>i r. map_of t i = Some r \<Longrightarrow> f r = i"
  shows "distinct (map f (table_rows x t))"
proof -
  have o: "order_ok (x_order x)" using assms(1) by (simp add: ext_ok_def)
  have "map f (table_rows x t) = map fst (range_map (x_order x) t)"
    unfolding table_rows_def map_map
    by (rule map_cong) (use assms(3) in \<open>auto simp: set_range_map [OF o]\<close>)
  then show ?thesis using distinct_range_map [OF o assms(2)] by simp
qed

lemma select_jobs_listed:
  assumes "ext_ok x" "pg_inv d" "select_jobs x cond ord limit d = Inr js"
    and "\<And>rs. mset (ord rs) = mset rs" "\<And>r. cond r \<Longrightarrow> p (scanJob r)"
  shows "listed (a_jobs (pg_abs d)) p js"
proof -
  let ?rs = "filter cond (table_rows x (db_jobs d))"
  obtain n where js: "js = map scanJob (take n (ord ?rs))"
    using assms(3) by (auto simp: select_jobs_def query_stmt_Inr limit_rows_def split: if_splits)
  note ok = pg_inv_jobs [OF assms(2)]
  have "distinct (map jr_id (table_rows x (db_jobs d)))"
    by (rule distinct_table_rows [OF assms(1) _ jobs_okD(1) [OF ok]]) (use ok in \<open>simp_all add: jobs_ok_def\<close>)
  then have "distinct (map jr_id ?rs)" by (rule distinct_map_filter)
  moreover have "mset (map jr_id (ord ?rs)) = mset (map jr_id ?rs)" by (simp add: assms(4))
  ultimately have "distinct (map jr_id (ord ?rs))" by (metis mset_eq_imp_distinct_iff)
  then have "distinct (take n (map jr_id (ord ?rs)))" by (rule distinct_take)
  moreover have "map job_ID js = take n (map jr_id (ord ?rs))" unfolding js take_map map_map by (rule map_cong) simp_all
  ultimately have "distinct (map job_ID js)" by (simp only:)
  moreover have "\<exists>j md. a_jobs (pg_abs d) (job_ID k) = Some j \<and> p j \<and> k = j\<lparr>job_Metadata := md\<rparr> \<and>
      same_metadata (job_Metadata j) md" if "k \<in> set js" for k
  proof -
    from that obtain r where r: "k = scanJob r" "r \<in> set (ord ?rs)" by (auto simp: js dest: in_set_takeD)
    have "set (ord ?rs) = set ?rs" using assms(4) by (metis set_mset_mset)
    with r(2) have "cond r" "r \<in> set (table_rows x (db_jobs d))" by simp_all
    moreover obtain i where i: "map_of (db_jobs d) i = Some r" using set_table_rows [OF calculation(2)] ..
    moreover have "jr_id r = i" by (rule jobs_okD(1) [OF ok i])
    ultimately have "a_jobs (pg_abs d) (job_ID k) = Some k" "p k"
      unfolding r(1) pg_abs_sel scanJob_sel using assms(5) i by (simp_all only: option.map)
    then show ?thesis by (intro exI [of _ k] exI [of _ "job_Metadata k"]) simp
  qed
  ultimately show ?thesis unfolding listed_def by (intro conjI ballI)
qed

lemma mset_due_order: "mset (due_order rs) = mset rs"
  by (simp add: due_order_def)

lemma JobState_string_iff [simp]:
  "JobState_string s = ''RUNNING'' \<longleftrightarrow> s = JobStateRunning" "JobState_string s = ''ASSIGNED'' \<longleftrightarrow> s = JobStateAssigned"
  "JobState_string s = ''SCHEDULED'' \<longleftrightarrow> s = JobStateScheduled" "JobState_string s = ''RETRYING'' \<longleftrightarrow> s = JobStateRetrying"
  "JobState_string s = ''CANCEL_REQUESTED'' \<longleftrightarrow> s = JobStateCancelRequested"
  by (cases s; simp)+

text \<open>The statements on the other tables leave the jobs alone.\<close>

definition jobs_kept :: "PgDB \<Rightarrow> PgDB \<Rightarrow> bool" where
  "jobs_kept d d' \<longleftrightarrow> db_jobs d' = db_jobs d \<and> (pg_inv d \<longrightarrow> pg_inv d')"

lemma jobs_kept_refl [simp]: "jobs_kept d d"
  by (simp add: jobs_kept_def)

lemma jobs_kept_trans: "jobs_kept d d1 \<Longrightarrow> jobs_kept d1 d2 \<Longrightarrow> jobs_kept d d2"
  by (simp add: jobs_kept_def)

lemma jobs_keptD:
  assumes "jobs_kept d d'" "pg_inv d"
  shows "pg_inv d' \<and> a_jobs (pg_abs d') = a_jobs (pg_abs d) \<and> a_keys (pg_abs d') = a_keys (pg_abs d)"
  using assms by (simp add: jobs_kept_def fun_eq_iff)

lemma jobs_kept_exec: "(\<And>d. jobs_kept d (snd (f d))) \<Longrightarrow> exec_stmt reply f d = (r, d') \<Longrightarrow> jobs_kept d d'"
  using exec_stmt_state [of reply f d r d'] by auto

lemma jobs_kept_err: "(\<And>d. jobs_kept d (snd (f d))) \<Longrightarrow> err_of (exec_stmt reply f d) = (e, d') \<Longrightarrow> jobs_kept d d'"
  by (metis jobs_kept_exec err_of_snd snd_conv surj_pair)

lemma map_of_map_rows: "map_of (map (\<lambda>(i, r). (i, f r)) t) i = map_option f (map_of t i)"
  by (induction t) auto

lemma gomap_wf_map: "gomap_wf (map (\<lambda>(i, r). (i, f i r)) t) = gomap_wf t"
  by (simp add: gomap_wf_def comp_def case_prod_unfold)

lemma jobs_kept_stmts:
  "jobs_kept d (snd (insert_exec r1 d))" "jobs_kept d (snd (upsert_worker r2 d))"
  "jobs_kept d (snd (mark_workers x cond st d))" "jobs_kept d (snd (insert_out r4 d))"
  "jobs_kept d (snd (publish_row now i d))"
  "jobs_kept d (snd (case map_of (db_execs d) xid of None \<Rightarrow> (a, d) | Some r \<Rightarrow> (b, d\<lparr>db_execs := gput xid (g r) (db_execs d)\<rparr>)))"
  by (auto simp: jobs_kept_def insert_exec_def upsert_worker_def mark_workers_def insert_out_def publish_row_def
      pg_inv_def Let_def gomap_wf_map split: option.splits)

lemma jobs_kept_ops:
  "pg_CreateExecution P x ex d = (r, d') \<Longrightarrow> jobs_kept d d'"
  "pg_FinishExecution P x xid est res d = (e, d') \<Longrightarrow> jobs_kept d d'"
  "pg_UpsertWorker P x wk d = (e, d') \<Longrightarrow> jobs_kept d d'"
  "pg_InsertOutbox P x ev d = (e, d') \<Longrightarrow> jobs_kept d d'"
proof -
  assume r: "pg_CreateExecution P x ex d = (r, d')"
  define ex' where "ex' = (if ex_ID ex = '''' then ex\<lparr>ex_ID := x_uuid x 0\<rparr> else ex)\<lparr>ex_CreatedAt := x_now x 0\<rparr>"
  obtain q d1 where q: "exec_stmt (x_db x 0) (insert_exec (exec_row P ex')) d = (q, d1)" by (metis surj_pair)
  have "d' = d1" using r q unfolding pg_CreateExecution_def Let_def ex'_def [symmetric] by (auto split: sum.splits)
  with jobs_kept_exec [OF jobs_kept_stmts(1) q] show "jobs_kept d d'" by simp
next
  assume "pg_FinishExecution P x xid est res d = (e, d')"
  then show "jobs_kept d d'" unfolding pg_FinishExecution_def by (rule jobs_kept_err [OF jobs_kept_stmts(6)])
next
  assume "pg_UpsertWorker P x wk d = (e, d')"
  then show "jobs_kept d d'" unfolding pg_UpsertWorker_def by (rule jobs_kept_err [OF jobs_kept_stmts(2)])
next
  assume "pg_InsertOutbox P x ev d = (e, d')"
  then show "jobs_kept d d'" unfolding pg_InsertOutbox_def by (rule jobs_kept_err [OF jobs_kept_stmts(4)])
qed

lemma jobs_kept_MarkStaleWorkers:
  assumes "pg_MarkStaleWorkers P x d1 d2 d = (r, d')"
  shows "jobs_kept d d'"
proof -
  obtain c1 c2 where m: "pg_MarkStaleWorkers P x d1 d2 d =
     (case exec_stmt (x_db x 0) (mark_workers x c1 WorkerStatusUnavailable) d of
        (Inl e, d) \<Rightarrow> (Inl e, d)
      | (Inr una, d) \<Rightarrow>
          (case exec_stmt (x_db x 1) (mark_workers x c2 WorkerStatusSuspected) d of
             (Inl e, d) \<Rightarrow> (Inl e, d) | (Inr sus, d) \<Rightarrow> (Inr (sus, una), d)))"
    unfolding pg_MarkStaleWorkers_def Let_def by blast
  obtain q1 e1 where q1: "exec_stmt (x_db x 0) (mark_workers x c1 WorkerStatusUnavailable) d = (q1, e1)" by (metis surj_pair)
  obtain q2 e2 where q2: "exec_stmt (x_db x 1) (mark_workers x c2 WorkerStatusSuspected) e1 = (q2, e2)" by (metis surj_pair)
  have k: "jobs_kept d e1" "jobs_kept e1 e2"
    using jobs_kept_exec [OF jobs_kept_stmts(3) q1] jobs_kept_exec [OF jobs_kept_stmts(3) q2] by simp_all
  have "d' = e1 \<or> d' = e2" using assms q1 q2 unfolding m by (auto split: sum.splits)
  with k jobs_kept_trans [OF k] show ?thesis by auto
qed

lemma jobs_kept_publish_loop: "publish_loop now replies n ids d = (e, d') \<Longrightarrow> jobs_kept d d'"
proof (induction ids arbitrary: n d)
  case (Cons i ids)
  obtain q d1 where q: "exec_stmt (replies n) (publish_row now i) d = (q, d1)" by (metis surj_pair)
  with Cons.prems have "d' = d1 \<or> publish_loop now replies (Suc n) ids d1 = (e, d')" by (auto split: sum.splits)
  with jobs_kept_exec [OF jobs_kept_stmts(5) q] Cons.IH jobs_kept_trans show ?case by blast
qed simp

section \<open>The store meets the store contract\<close>

lemma postgres_store_sel [simp]:
  "js_CreateJob (postgres_store P) = pg_CreateJob P" "js_GetJob (postgres_store P) = pg_GetJob"
  "js_UpdateJobStateIf (postgres_store P) = pg_UpdateJobStateIf P"
  "js_ListJobs (postgres_store P) = pg_ListJobs" "js_ListDueScheduled (postgres_store P) = pg_ListDueScheduled P"
  "js_ListCancelRequested (postgres_store P) = pg_ListCancelRequested"
  "js_ListTimedOutRunning (postgres_store P) = pg_ListTimedOutRunning P"
  "js_CreateExecution (postgres_store P) = pg_CreateExecution P"
  "js_FinishExecution (postgres_store P) = pg_FinishExecution P"
  "js_UpsertWorker (postgres_store P) = pg_UpsertWorker P"
  "js_MarkStaleWorkers (postgres_store P) = pg_MarkStaleWorkers P"
  "js_InsertOutbox (postgres_store P) = pg_InsertOutbox P"
  "js_FetchOutboxBatch (postgres_store P) = pg_FetchOutboxBatch"
  "js_MarkOutboxPublished (postgres_store P) = pg_MarkOutboxPublished P"
  by (simp_all add: postgres_store_def)

interpretation pg: job_store "postgres_store P" pg_abs pg_inv
proof (unfold_locales, unfold postgres_store_sel, goal_cases)
  case (1 x s jid k)
  then have "a_jobs (pg_abs s) jid = Some k" by (auto simp: pg_GetJob_def select_job_Inr)
  then show ?case by (intro exI [of _ k] exI [of _ "job_Metadata k"]) simp
next
  case (2 s jid j)
  then show ?case using jobs_okD(1) [OF pg_inv_jobs] by auto
next
  case (3 x s jid st f onlyFrom e s')
  then show ?case by (intro pg_UpdateJobStateIf_sound)
next
  case (4 x s job r s')
  then show ?case by (intro pg_CreateJob_sound)
next
  case (5 x s ex r' s')
  then show ?case by (intro jobs_keptD jobs_kept_ops(1))
next
  case (6 x s xid est res e s')
  then show ?case by (intro jobs_keptD jobs_kept_ops(2))
next
  case (7 x s wk e s')
  then show ?case by (intro jobs_keptD jobs_kept_ops(3))
next
  case (8 x s d1 d2 r'' s')
  then show ?case by (intro jobs_keptD jobs_kept_MarkStaleWorkers)
next
  case (9 x s st' limit js)
  then show ?case
    unfolding pg_ListJobs_def Let_def
    by (auto split: if_splits elim!: select_jobs_listed [rotated 2])
next
  case (10 x s limit js)
  then show ?case
    unfolding pg_ListCancelRequested_def Let_def by (rule select_jobs_listed) simp_all
next
  case (11 x s now limit js)
  then show ?case
    unfolding pg_ListTimedOutRunning_def Let_def
    by (rule select_jobs_listed) (auto simp: overdue_row_def)
qed

end
