(* ===== verification/PgOutbox.thy ===== *)
theory PgOutbox
  imports PgStore Events
begin

text \<open>
  The outbox of the PostgreSQL store: the store meets the outbox contract and the publisher on it
  the contract of event sinks, so that an event, once emitted, is published at least once.
\<close>

section \<open>The outbox of the store\<close>

definition pg_rows :: "PgDB \<Rightarrow> OutboxRow list" where
  "pg_rows d = map OutboxRow_of (filter (\<lambda>r. ow_published_at r = None) (map snd (db_outbox d)))"

definition out_ok :: "(string, OutRow) gomap \<Rightarrow> bool" where
  "out_ok t \<longleftrightarrow> gomap_wf t \<and> (\<forall>(i, r)\<in>set t. ow_id r = i)"

lemma or_ID_OutboxRow_of [simp]: "or_ID (OutboxRow_of r) = ow_id r"
  by (simp add: OutboxRow_of_def)

lemma pg_inv_out: "pg_inv d \<Longrightarrow> out_ok (db_outbox d)"
  by (auto simp: pg_inv_def out_ok_def gomap_wf_def)

lemma map_ids: "\<forall>(i, r)\<in>set t. f r = i \<Longrightarrow> map f (map snd t) = map fst t"
  by (induction t) auto

lemma distinct_rows:
  assumes "out_ok (db_outbox d)"
  shows "distinct (map or_ID (pg_rows d))"
proof -
  have "map ow_id (map snd (db_outbox d)) = map fst (db_outbox d)"
    by (rule map_ids) (use assms in \<open>simp add: out_ok_def\<close>)
  moreover have "distinct (map fst (db_outbox d))" using assms by (simp add: out_ok_def gomap_wf_def)
  ultimately have "distinct (map ow_id (map snd (db_outbox d)))" by (simp only:)
  from distinct_map_filter [OF this] show ?thesis by (simp add: pg_rows_def comp_def)
qed

text \<open>Marking one row takes it out of the unpublished ones.\<close>

lemma publish_rows:
  assumes "gomap_wf t" "\<forall>(i, r)\<in>set t. ow_id r = i" "map_of t i = Some r"
  shows "filter (\<lambda>r. ow_published_at r = None) (map snd (gput i (r\<lparr>ow_published_at := Some now\<rparr>) t)) =
     filter (\<lambda>r. ow_published_at r = None \<and> ow_id r \<noteq> i) (map snd t)"
  using assms
proof (induction t)
  case (Cons a t)
  obtain k q where a: "a = (k, q)" by (cases a)
  have "ow_id r' \<noteq> k" if "r' \<in> set (map snd t)" for r'
  proof -
    from that obtain l where l: "(l, r') \<in> set t" by auto
    then have "ow_id r' = l" using Cons.prems(2) by auto
    moreover have "l \<noteq> k" using l Cons.prems(1) a by (force simp: gomap_wf_def)
    ultimately show ?thesis by simp
  qed
  then have rest: "filter (\<lambda>r. ow_published_at r = None) (map snd t) =
      filter (\<lambda>r. ow_published_at r = None \<and> ow_id r \<noteq> k) (map snd t)"
    by (intro filter_cong refl) auto
  show ?case
  proof (cases "k = i")
    case True
    with Cons.prems a rest show ?thesis by (simp add: gput_def)
  next
    case False
    with Cons a show ?thesis by (auto simp: gput_def gomap_wf_def)
  qed
qed simp

lemma publish_row_rows:
  assumes "out_ok (db_outbox d)"
  shows "out_ok (db_outbox (snd (publish_row now i d)))"
    "pg_rows (snd (publish_row now i d)) = filter (\<lambda>r. or_ID r \<noteq> i) (pg_rows d)"
proof -
  have wf: "gomap_wf (db_outbox d)" "\<forall>(i, r)\<in>set (db_outbox d). ow_id r = i" using assms by (simp_all add: out_ok_def)
  show "out_ok (db_outbox (snd (publish_row now i d)))"
  proof (cases "map_of (db_outbox d) i")
    case (Some r)
    have "ow_id q = k" if "(k, q) \<in> set (gput i (r\<lparr>ow_published_at := Some now\<rparr>) (db_outbox d))" for k q
    proof -
      have "map_of (gput i (r\<lparr>ow_published_at := Some now\<rparr>) (db_outbox d)) k = Some q"
        using that gomap_wf_gput [OF wf(1)] by (simp add: gomap_wf_def del: map_of_gput)
      then have "k = i \<and> ow_id q = ow_id r \<or> map_of (db_outbox d) k = Some q" by (auto split: if_splits)
      with wf(2) Some show ?thesis by (auto dest!: map_of_SomeD)
    qed
    then show ?thesis using wf(1) Some by (auto simp: publish_row_def out_ok_def)
  qed (use assms in \<open>simp add: publish_row_def\<close>)
  show "pg_rows (snd (publish_row now i d)) = filter (\<lambda>r. or_ID r \<noteq> i) (pg_rows d)"
  proof (cases "map_of (db_outbox d) i")
    case None
    then have "\<forall>r\<in>set (pg_rows d). or_ID r \<noteq> i" using wf(2) by (force simp: pg_rows_def map_of_eq_None_iff)
    then show ?thesis using None by (simp add: publish_row_def)
  next
    case (Some r)
    then show ?thesis using publish_rows [OF wf Some, of now]
      by (simp add: publish_row_def pg_rows_def filter_map comp_def conj_commute)
  qed
qed

lemma publish_loop_rows:
  assumes "out_ok (db_outbox d)" "publish_loop now replies n ids d = (e, d')"
  shows "out_ok (db_outbox d') \<and> (\<exists>marked. set marked \<subseteq> set ids \<and> pg_rows d' = filter (\<lambda>r. or_ID r \<notin> set marked) (pg_rows d))"
  using assms
proof (induction ids arbitrary: n d)
  case Nil
  then show ?case by (auto intro: exI [of _ "[]"])
next
  case (Cons i ids)
  obtain q d1 where q: "exec_stmt (replies n) (publish_row now i) d = (q, d1)" by (metis surj_pair)
  obtain ms where d1: "set ms \<subseteq> {i}" "out_ok (db_outbox d1)" "pg_rows d1 = filter (\<lambda>r. or_ID r \<notin> set ms) (pg_rows d)"
    using exec_stmt_state [OF q]
  proof
    assume "d1 = d"
    then show ?thesis using that [of "[]"] Cons.prems(1) by simp
  next
    assume "d1 = snd (publish_row now i d)"
    then show ?thesis using that [of "[i]"] publish_row_rows [OF Cons.prems(1)] by simp
  qed
  from q Cons.prems(2) have "d' = d1 \<or> publish_loop now replies (Suc n) ids d1 = (e, d')" by (auto split: sum.splits)
  then show ?case
  proof
    assume "d' = d1"
    with d1 show ?thesis by (intro conjI exI [of _ ms]) auto
  next
    assume "publish_loop now replies (Suc n) ids d1 = (e, d')"
    from Cons.IH [OF d1(2) this] obtain ms' where ms': "out_ok (db_outbox d')" "set ms' \<subseteq> set ids"
      "pg_rows d' = filter (\<lambda>r. or_ID r \<notin> set ms') (pg_rows d1)" by blast
    then show ?thesis using d1 by (intro conjI exI [of _ "ms @ ms'"]) (auto intro: filter_cong)
  qed
qed

interpretation pg_outbox: outbox "postgres_store P" pg_rows "\<lambda>d. out_ok (db_outbox d)"
proof (unfold_locales, unfold postgres_store_sel, goal_cases)
  case (1 x n s rs)
  let ?rs = "filter (\<lambda>r. ow_published_at r = None) (table_rows x (db_outbox s))"
  have "set (table_rows x (db_outbox s)) \<subseteq> snd ` set (db_outbox s)"
    using set_table_rows by (force dest: map_of_SomeD)
  then have "OutboxRow_of ` set ?rs \<subseteq> set (pg_rows s)" by (auto simp: pg_rows_def)
  moreover have "set rs \<subseteq> OutboxRow_of ` set ?rs"
    using 1 by (auto simp: pg_FetchOutboxBatch_def query_stmt_Inr limit_rows_def split: if_splits dest!: in_set_takeD)
  ultimately show ?case by blast
next
  case (2 s x ids e s')
  then show ?case using publish_loop_rows [OF 2(1)] by (auto simp: pg_MarkOutboxPublished_def split: if_splits intro: exI [of _ "[]"])
qed

interpretation pg_publisher: event_sink "NewPublisher (Some (postgres_store P)) schedulerID" pg_abs pg_inv
proof (unfold_locales, goal_cases)
  case (1 s x et jid xid wid attempt payload e s')
  then have i: "pg_InsertOutbox P x (new_event schedulerID x et jid xid wid attempt payload) s = (e, s')"
    by (simp add: NewPublisher_def Emit_def)
  have same: "pg_abs (snd (insert_out r d)) = pg_abs d" for r d by (simp add: insert_out_def pg_abs_def)
  have "snd (err_of (exec_stmt (x_db x 0) (insert_out r) s)) = s'"
    if "r = out_row P (new_event schedulerID x et jid xid wid attempt payload)" for r
    using i that unfolding pg_InsertOutbox_def by simp
  with same have "pg_abs s' = pg_abs s" unfolding err_of_snd by (metis exec_stmt_state prod.collapse)
  with jobs_keptD [OF jobs_kept_ops(4) [OF i] 1(1)] show ?case by simp
qed

section \<open>Properties\<close>

lemma Emit_row:
  assumes "Emit (Some (postgres_store P)) sid x et jid xid wid attempt payload d = (None, d')"
  shows "OutboxRow_of (out_row P (new_event sid x et jid xid wid attempt payload)) \<in> set (pg_rows d')"
proof -
  let ?r = "out_row P (new_event sid x et jid xid wid attempt payload)"
  from assms have "insert_out ?r d = (Inr (), d')"
    by (auto simp: Emit_def pg_InsertOutbox_def err_of_def exec_stmt_def insert_out_def
        split: DbReply.splits sum.splits prod.splits if_splits)
  then have "d' = d\<lparr>db_outbox := gput (ow_id ?r) ?r (db_outbox d)\<rparr>" by (simp add: insert_out_def split: if_splits)
  then have "map_of (db_outbox d') (ow_id ?r) = Some ?r" by simp
  then have "?r \<in> snd ` set (db_outbox d')" by (force dest: map_of_SomeD)
  then show ?thesis by (simp add: pg_rows_def out_row_def)
qed

text \<open>
  C28 (no event is lost): an event that \<open>Emit\<close> has accepted into the outbox of the PostgreSQL store is,
  however often the outbox is drained afterwards, still in the outbox or on the Kafka log, whether
  Kafka writes succeed, fail or succeed in part, and whether the database executes the statements
  of the drain, refuses them or loses its replies. So every event is published at least once.
\<close>

theorem outbox_no_loss:
  assumes "pg_inv d"
    and "Emit (Some (postgres_store P)) sid x et jid xid wid attempt payload d = (None, d1)"
    and "\<forall>(wr, x)\<in>set ticks. writer_ok wr"
    and "drain cfg (postgres_store P) ticks (d1, klog) = (d2, klog')"
    and "r = OutboxRow_of (out_row P (new_event sid x et jid xid wid attempt payload))"
  shows "r \<in> set (pg_rows d2) \<or> message_of cfg r \<in> set klog'"
proof -
  have "js_InsertOutbox (postgres_store P) x (new_event sid x et jid xid wid attempt payload) d = (None, d1)"
    using assms(2) by (simp add: Emit_def)
  then have "pg_inv d1" using jobs_keptD [OF jobs_kept_ops(4) assms(1)] by simp
  then have o: "out_ok (db_outbox d1)" by (rule pg_inv_out)
  from pg_outbox.drain_safe [OF assms(3) distinct_rows [OF o] o assms(4) Emit_row [OF assms(2)]]
  show ?thesis by (simp add: row_safe_def assms(5))
qed

definition demo_pgx :: pgx where
  "demo_pgx = \<lparr>pg_time = (\<lambda>t. t div 1000 * 1000), pg_jsonb = (\<lambda>v. v)\<rparr>"

lemma pgx_ok_demo: "pgx_ok demo_pgx"
proof -
  have "t div 1000 * 1000 \<le> t \<and> t < t div 1000 * 1000 + 1000 \<and> t div 1000 * 1000 div 1000 * 1000 = t div 1000 * 1000" for t :: int
    by simp linarith
  moreover have "s div 1000 * 1000 \<le> t div 1000 * 1000" if "s \<le> t" for s t :: int
    using zdiv_mono1 [OF that, of 1000] by simp
  ultimately show ?thesis by (simp add: pgx_ok_def demo_pgx_def)
qed

text \<open>The first drain writes the message but loses the reply, the second one succeeds.\<close>

definition demo_emitted :: PgDB where
  "demo_emitted = snd (Emit (Some (postgres_store demo_pgx)) ''s'' ext0 EventJobCreated ''j1'' '''' '''' 0 None pg_empty)"

definition demo_drained :: "PgDB \<times> kafka_log" where
  "demo_drained = drain demo_kafka (postgres_store demo_pgx)
     [(failing_writer, ext0), (appending_writer, ext0)] (demo_emitted, [])"

theorem outbox_no_loss_witness:
  "message_of demo_kafka (OutboxRow_of (out_row demo_pgx (new_event ''s'' ext0 EventJobCreated ''j1'' '''' '''' 0 None)))
     \<in> set (snd demo_drained) \<and> pg_rows (fst demo_drained) = []"
proof -
  let ?r = "OutboxRow_of (out_row demo_pgx (new_event ''s'' ext0 EventJobCreated ''j1'' '''' '''' 0 None))"
  have e: "Emit (Some (postgres_store demo_pgx)) ''s'' ext0 EventJobCreated ''j1'' '''' '''' 0 None pg_empty = (None, demo_emitted)"
    by (rule prod_eqI) (simp_all add: demo_emitted_def, code_simp)
  have ok: "\<forall>(wr, x)\<in>set [(failing_writer, ext0), (appending_writer, ext0)]. writer_ok wr"
    by (auto simp: writer_ok_def failing_writer_def appending_writer_def)
  have d: "pg_rows (fst demo_drained) = []" by code_simp
  from outbox_no_loss [OF pg_inv_empty e ok, of demo_kafka "[]" "fst demo_drained" "snd demo_drained" ?r] d
  show ?thesis by (simp add: demo_drained_def)
qed

end
