(* ===== verification/PgProps.thy ===== *)
theory PgProps
  imports PgOutbox MemStoreProps
begin

text \<open>
  What a job looks like after it has been through the columns of the PostgreSQL store, and what its
  staleness scan and listings return when the server is up.
\<close>

section \<open>JSON columns\<close>

lemma string_map_strs:
  assumes "\<forall>(k, v)\<in>set m'. map_of m k = Some v"
  shows "map_of (snd (string_map (map (\<lambda>(k, v). (k, JStr v)) m') c)) k =
     (if k \<in> fst ` set m' then map_of m k else map_of c k)"
  using assms
proof (induction m' arbitrary: c)
  case (Cons a m')
  obtain l v where a: "a = (l, v)" by (cases a)
  then show ?case using Cons.IH [of "gput l v c"] Cons.prems by simp
qed simp

lemma mset_strs:
  assumes "mset kvs = mset (map (\<lambda>(k :: string, v). (k, JStr v)) m)"
  obtains m' where "kvs = map (\<lambda>(k, v). (k, JStr v)) m'" "mset m' = mset m"
proof -
  define g where "g = (\<lambda>(k :: string, v). (k, case v of JStr s \<Rightarrow> s | _ \<Rightarrow> ''''))"
  have "set kvs = set (map (\<lambda>(k, v). (k, JStr v)) m)" using assms by (metis set_mset_mset)
  then have "map ((\<lambda>(k, v). (k, JStr v)) \<circ> g) kvs = kvs" by (intro map_idI) (auto simp: g_def)
  moreover have "mset (map g kvs) = mset m"
  proof -
    have "mset (map g kvs) = image_mset g (mset (map (\<lambda>(k, v). (k, JStr v)) m))" by (simp only: mset_map assms)
    also have "\<dots> = mset (map (\<lambda>p. p) m)"
      unfolding mset_map multiset.map_comp by (rule image_mset_cong) (auto simp: g_def)
    finally show ?thesis by simp
  qed
  ultimately show ?thesis using that [of "map g kvs"] by simp
qed

lemma jsonb_members:
  assumes "pgx_ok P" "distinct (map fst kvs)" "\<forall>v\<in>snd ` set kvs. json_atom v"
  obtains kvs' where "pg_jsonb P (JObj kvs) = JObj kvs'" "mset kvs' = mset kvs"
  using assms unfolding pgx_ok_def by blast

lemma metadata_roundtrip:
  assumes P: "pgx_ok P" and m: "\<And>e. md = Some e \<Longrightarrow> gomap_wf e"
  shows "same_metadata md (decode_map (pg_jsonb P (map_json md)))"
proof (cases md)
  case None
  then show ?thesis using P
    by (simp add: map_json_def decode_map_def set_string_map_def pgx_ok_def same_metadata_def)
next
  case (Some e)
  let ?s = "sort_key fst e"
  have wf: "distinct (map fst e)" using m [OF Some] by (simp add: gomap_wf_def)
  have "distinct (map fst ?s)" using wf by (metis mset_eq_imp_distinct_iff mset_map mset_sort)
  then have "distinct (map fst (map (\<lambda>(k, v). (k, JStr v)) ?s))" by (simp add: comp_def case_prod_unfold)
  moreover have "\<forall>v\<in>snd ` set (map (\<lambda>(k, v). (k, JStr v)) ?s). json_atom v" by auto
  ultimately obtain kvs where kvs: "pg_jsonb P (map_json md) = JObj kvs" "mset kvs = mset (map (\<lambda>(k, v). (k, JStr v)) ?s)"
    unfolding Some map_json_def option.case by (rule jsonb_members [OF P])
  from mset_strs [OF kvs(2)] obtain m' where m': "kvs = map (\<lambda>(k, v). (k, JStr v)) m'" "mset m' = mset e" by auto
  have s: "set m' = set e" using m'(2) by (metis set_mset_mset)
  have "\<forall>(k, v)\<in>set m'. map_of e k = Some v" using s wf by auto
  from string_map_strs [OF this, of "[]"] have "map_of (snd (string_map kvs [])) k = map_of e k" for k
    unfolding m'(1) s by (simp add: map_of_eq_None_iff [symmetric])
  then show ?thesis
    unfolding Some decode_map_def set_string_map_def kvs(1) [unfolded Some]
    by (simp add: same_metadata_def split_beta fun_eq_iff)
qed

text \<open>A struct column is decoded to the struct that was encoded.\<close>

lemma struct_roundtrip:
  assumes P: "pgx_ok P" and fs: "separate fs" and v: "v = JObj kvs"
    and d: "distinct (map (ToLower \<circ> fst) kvs)" "\<forall>v\<in>snd ` set kvs. json_atom v"
    and u: "Unmarshal fs zero (Some v) = (True, s)"
  shows "snd (Unmarshal fs zero (Some (pg_jsonb P v))) = s"
proof -
  have "distinct (map fst kvs)" using d(1) by (metis distinct_map map_map)
  from jsonb_members [OF P this d(2)] obtain kvs' where k: "pg_jsonb P v = JObj kvs'" "mset kvs' = mset kvs"
    unfolding v by blast
  from decode_perm [OF fs k(2) d(1), of zero] u show ?thesis unfolding k(1) by (simp add: v Unmarshal_def)
qed

lemma Schedule_column:
  assumes "pgx_ok P" "wf_schedule s"
  shows "snd (Unmarshal Schedule_fields zeroSchedule (Some (pg_jsonb P (Schedule_json s)))) = s"
proof (rule struct_roundtrip [OF assms(1) separate_Schedule Schedule_json_def _ _ Schedule_roundtrip [OF assms(2)]])
  have l: "ToLower ''type'' = ''type''" "ToLower ''run_at'' = ''run_at''" "ToLower ''delay'' = ''delay''"
    "ToLower ''cron_expr'' = ''cron_expr''" "ToLower ''timezone'' = ''timezone''" by code_simp+
  let ?kvs = "[(''type'', JStr (ScheduleType_string (sc_Type s)))] @
     omitempty (sc_RunAt s = None) ''run_at'' (time_ptr_json (sc_RunAt s)) @ omitempty (sc_Delay s = 0) ''delay'' (JInt (sc_Delay s)) @
     omitempty (sc_CronExpr s = '''') ''cron_expr'' (JStr (sc_CronExpr s)) @ omitempty (sc_Timezone s = '''') ''timezone'' (JStr (sc_Timezone s))"
  show "distinct (map (ToLower \<circ> fst) ?kvs)" by (simp add: omitempty_def l)
  show "\<forall>v\<in>snd ` set ?kvs. json_atom v" by (auto simp: omitempty_def time_ptr_json_def split: option.splits)
qed

lemma RetryPolicy_column:
  assumes "pgx_ok P" "wf_policy p"
  shows "snd (Unmarshal RetryPolicy_fields zeroRetryPolicy (Some (pg_jsonb P (RetryPolicy_json p)))) = p"
proof (rule struct_roundtrip [OF assms(1) separate_RetryPolicy RetryPolicy_json_def _ _ RetryPolicy_roundtrip [OF assms(2)]])
  have l: "ToLower ''max_attempts'' = ''max_attempts''" "ToLower ''backoff_strategy'' = ''backoff_strategy''"
    "ToLower ''initial_delay'' = ''initial_delay''" "ToLower ''max_delay'' = ''max_delay''"
    "ToLower ''multiplier'' = ''multiplier''" "ToLower ''jitter'' = ''jitter''" by code_simp+
  let ?kvs = "[(''max_attempts'', JInt (rp_MaxAttempts p)), (''backoff_strategy'', JStr (rp_BackoffStrategy p)),
     (''initial_delay'', JInt (rp_InitialDelay p)), (''max_delay'', JInt (rp_MaxDelay p)),
     (''multiplier'', float_json (rp_Multiplier p)), (''jitter'', JBool (rp_Jitter p))]"
  show "distinct (map (ToLower \<circ> fst) ?kvs)" by (simp add: l)
  show "\<forall>v\<in>snd ` set ?kvs. json_atom v" by (simp add: float_json_def)
qed

section \<open>A created job is read back\<close>

text \<open>The jobs the \<open>INSERT\<close> stores as they are: 64-bit numbers, a declared type, maps without duplicates.\<close>

definition wf_job :: "Job \<Rightarrow> bool" where
  "wf_job j \<longleftrightarrow>
     job_Type j \<in> {JobTypeBuiltin, JobTypeWebhook} \<and> wf_schedule (job_Schedule j) \<and>
     wf_policy (job_RetryPolicy j) \<and> 0 \<le> job_Timeout j \<and> job_Timeout j < 2 ^ 63 \<and>
     (\<forall>m. job_Metadata j = Some m \<longrightarrow> gomap_wf m)"

lemma ms_column:
  assumes "0 \<le> t" "t < 2 ^ 63"
  shows "wrap64 (Milliseconds t * Millisecond) = t - t mod Millisecond"
proof -
  have "Milliseconds t * Millisecond = t - t mod Millisecond"
    using assms by (cases "t = 0") (simp_all add: Milliseconds_def quot_go_def Millisecond_def sgn_if minus_mod_eq_div_mult)
  moreover have "0 \<le> t - t mod Millisecond" "t - t mod Millisecond < 2 ^ 63"
    using assms by (simp_all add: Millisecond_def zmod_le_nonneg_dividend)
  ultimately show ?thesis by (simp add: wrap64_id)
qed

text \<open>What a job is after its round trip through the row.\<close>

definition read_back :: "pgx \<Rightarrow> Job \<Rightarrow> Job \<Rightarrow> bool" where
  "read_back P j k \<longleftrightarrow>
     job_ID k = job_ID j \<and> job_Name k = job_Name j \<and> job_Type k = job_Type j \<and>
     job_Payload k = Some (pg_jsonb P (case job_Payload j of None \<Rightarrow> JObj [] | Some d \<Rightarrow> d)) \<and>
     job_Priority k = job_Priority j \<and> job_State k = job_State j \<and>
     job_Schedule k = job_Schedule j \<and> job_RetryPolicy k = job_RetryPolicy j \<and>
     job_Timeout k = job_Timeout j - job_Timeout j mod Millisecond \<and>
     job_IdempotencyKey k = job_IdempotencyKey j \<and> job_Attempt k = job_Attempt j \<and>
     job_MaxAttempts k = job_MaxAttempts j \<and>
     job_WorkerID k = '''' \<and> job_ExecutionID k = '''' \<and> job_LastError k = '''' \<and>
     job_ScheduledAt k = map_option (pg_time P) (job_ScheduledAt j) \<and>
     job_QueuedAt k = None \<and> job_StartedAt k = None \<and> job_CompletedAt k = None \<and> job_NextRetryAt k = None \<and>
     job_CreatedAt k = pg_time P (job_CreatedAt j) \<and> job_UpdatedAt k = pg_time P (job_UpdatedAt j) \<and>
     same_metadata (job_Metadata j) (job_Metadata k)"

lemma scan_job_row:
  assumes "pgx_ok P" "wf_job j"
  shows "read_back P j (scanJob (job_row P j))"
proof -
  have t: "JobType_of (JobType_string (job_Type j)) = job_Type j"
    using assms(2) by (auto simp: wf_job_def JobType_of_def)
  have "wf_schedule (job_Schedule j)" "wf_policy (job_RetryPolicy j)" "0 \<le> job_Timeout j" "job_Timeout j < 2 ^ 63"
    "\<And>m. job_Metadata j = Some m \<Longrightarrow> gomap_wf m"
    using assms(2) by (simp_all add: wf_job_def)
  note this(1,2) and ms_column [OF this(3,4)] and metadata_roundtrip [OF assms(1) this(5)]
  moreover have "coalesce None = ''''" by (simp add: coalesce_def)
  ultimately show ?thesis
    by (simp add: read_back_def scanJob_def job_row_def t Schedule_column [OF assms(1)] RetryPolicy_column [OF assms(1)])
qed

text \<open>
  C34 (round trip through PostgreSQL): with the server up, creating a job under an identifier and an
  idempotency key that are not in use succeeds, and both ways of reading it back return the job
  that was created: name, type, priority, state, schedule, retry policy, key and counters
  unchanged, metadata with the same entries, the payload in the normal form of the column, instants
  to the microsecond and the timeout to the millisecond.
\<close>

theorem pg_create_get:
  assumes "pgx_ok P" "pg_inv d" "\<forall>n. x_db x n = DbOk \<and> x_db x' n = DbOk"
    and "wf_job job" "map_of (db_jobs d) (new_id x job) = None"
    and "job_IdempotencyKey job \<noteq> '''' \<Longrightarrow> row_by_key (job_IdempotencyKey job) (db_jobs d) = None"
    and "pg_CreateJob P x job d = (r, d')"
  shows "r = Inr (named_job x job) \<and>
    (\<exists>k. pg_GetJob x' (new_id x job) d' = Inr k \<and> read_back P (named_job x job) k \<and>
         (job_IdempotencyKey job \<noteq> '''' \<longrightarrow> pg_GetJobByIdempotencyKey x' (job_IdempotencyKey job) d' = Inr (Some k)))"
proof -
  let ?j = "named_job x job" and ?key = "job_IdempotencyKey job"
  let ?row = "job_row P ?j"
  have wf: "wf_job ?j" using assms(4) by (simp add: wf_job_def named_job_def)
  have ty: "jr_type ?row = ''builtin'' \<or> jr_type ?row = ''webhook''"
    using wf by (auto simp: wf_job_def job_row_def)
  have ins: "insert_job ?row d = (Inr (), d\<lparr>db_jobs := gput (new_id x job) ?row (db_jobs d)\<rparr>)" (is "_ = (_, ?d)")
    using ty assms(5,6) by (auto simp: insert_job_def nullStr_def)
  from insert_job_effect [OF assms(2) ins, of ?key] assms(6)
  have key: "row_by_key k (db_jobs ?d) = (if ?key \<noteq> '''' \<and> k = ?key then Some ?row else row_by_key k (db_jobs d))" for k
    using assms(5) by (auto dest: arg_cong [of _ _ "\<lambda>d. map_of (db_jobs d) (new_id x job)"])
  have up: "x_db x n = DbOk" "x_db x' n = DbOk" for n using assms(3) by simp_all
  have rd: "r = Inr ?j \<and> d' = ?d"
  proof (cases "?key = ''''")
    case True
    then show ?thesis using assms(7) unfolding pg_CreateJob_eq by (simp add: exec_stmt_def up ins)
  next
    case False
    then have "select_by_key DbOk ?key ?d = Inr (scanJob ?row)"
      using key [of ?key] by (simp add: select_by_key_def query_stmt_def)
    with False show ?thesis using assms(7) unfolding pg_CreateJob_eq by (simp add: exec_stmt_def up ins)
  qed
  moreover have "pg_GetJob x' (new_id x job) d' = Inr (scanJob ?row)"
    using rd by (simp add: pg_GetJob_def select_job_def query_stmt_def up)
  moreover have "pg_GetJobByIdempotencyKey x' ?key d' = Inr (Some (scanJob ?row))" if "?key \<noteq> ''''"
    using rd key [of ?key] that by (simp add: pg_GetJobByIdempotencyKey_def select_by_key_def query_stmt_def up)
  ultimately show ?thesis using scan_job_row [OF assms(1) wf] by blast
qed

definition demo_pg_job :: Job where
  "demo_pg_job = demo_request\<lparr>job_ID := '''', job_Type := JobTypeBuiltin, job_IdempotencyKey := ''key'',
     job_Schedule := \<lparr>sc_Type = ScheduleDelayed, sc_RunAt = None, sc_Delay = Second, sc_CronExpr = '''', sc_Timezone = ''''\<rparr>,
     job_RetryPolicy := DefaultRetryPolicy, job_Timeout := 1500000,
     job_Metadata := Some [(''b'', ''2''), (''a'', ''1'')]\<rparr>"

definition demo_pg :: PgDB where
  "demo_pg = snd (pg_CreateJob demo_pgx ext0 demo_pg_job pg_empty)"

theorem pg_create_get_witness:
  "\<exists>k. pg_GetJob ext0 ''u'' demo_pg = Inr k \<and> job_Timeout k = Millisecond \<and> job_RetryPolicy k = DefaultRetryPolicy \<and>
       map_option map_of (job_Metadata k) = Some [''a'' \<mapsto> ''1'', ''b'' \<mapsto> ''2'']"
proof -
  have i: "new_id ext0 demo_pg_job = ''u''" by code_simp
  have wf: "wf_job demo_pg_job"
    by (simp add: wf_job_def demo_pg_job_def wf_schedule_def wf_policy_def int64_def ScheduleType_of_def
        DefaultRetryPolicy_def Second_def Minute_def gomap_wf_def)
  have up: "\<forall>n. x_db ext0 n = DbOk \<and> x_db ext0 n = DbOk" by (simp add: ext0_def)
  from pg_create_get [OF pgx_ok_demo pg_inv_empty up wf _ _ prod.collapse [symmetric]]
  obtain k where k: "pg_GetJob ext0 ''u'' demo_pg = Inr k" "read_back demo_pgx (named_job ext0 demo_pg_job) k"
    unfolding i demo_pg_def by (auto simp: pg_empty_def row_by_key_def)
  from k(2) have "job_Timeout k = Millisecond" "job_RetryPolicy k = DefaultRetryPolicy"
    "same_metadata (Some [(''b'', ''2''), (''a'', ''1'')]) (job_Metadata k)"
    by (simp_all add: read_back_def named_job_def demo_pg_job_def Millisecond_def)
  with k(1) show ?thesis by (intro exI [of _ k]) (auto simp: same_metadata_def fun_upd_twist)
qed


section \<open>Behaviour under failures\<close>

text \<open>
  A second creation under the same key, whose lookup fails: the call reports success with a job that
  is not in the database.
\<close>

lemma pg_phantom_job:
  "let x = ext0\<lparr>x_uuid := \<lambda>n. ''v'', x_db := \<lambda>n. if n = 0 then DbOk else DbRefused ErrDeadlineExceeded\<rparr>;
       (r, d) = pg_CreateJob demo_pgx x demo_pg_job demo_pg
   in map_sum (\<lambda>e. e) job_ID r = Inr ''v'' \<and> pg_GetJob ext0 ''v'' d = Inl ErrNotFound"
  by code_simp

text \<open>
  The guard of \<open>UpdateJobStateIf\<close> is checked on a row read before the update, in a statement of its
  own: a change of state by another process in between is overwritten.
\<close>

lemma pg_guard_race:
  assumes "pg_inv d" "map_of (db_jobs d) jid = Some r" "jr_state r = JobStateScheduled"
    and "\<And>n. x_db x n = DbOk" and "pg_UpdateJobStateIf P x jid JobStateCancelled f [] d = (e, d1)"
  shows "map_option jr_state (map_of (db_jobs d1) jid) = Some JobStateCancelled \<and>
    map_option jr_state (map_of (db_jobs (snd (update_job P (set_state now JobStateQueued g (scanJob r)) d1))) jid) = Some JobStateQueued"
proof -
  have i: "jr_id r = jid" by (rule jobs_okD(1) [OF pg_inv_jobs [OF assms(1)] assms(2)])
  from assms(2,4,5) i show ?thesis
    by (auto simp: pg_UpdateJobStateIf_def select_job_def query_stmt_def exec_stmt_def err_of_def update_job_def state_columns_def)
qed

text \<open>
  When the second statement of the staleness scan fails, the workers the first one has marked
  unavailable are lost to recovery: the call returns an error, and the next scan skips them.
\<close>

lemma pg_stale_lost:
  "let x = ext0\<lparr>x_now := \<lambda>n. 100 * Second, x_db := \<lambda>n. if n = 0 then DbOk else DbRefused ErrDeadlineExceeded\<rparr>;
       y = ext0\<lparr>x_now := \<lambda>n. 200 * Second\<rparr>;
       w = \<lparr>wr_id = ''w'', wr_address = '''', wr_status = WorkerStatusHealthy, wr_capacity = 1, wr_active_jobs = 1,
            wr_capabilities = JNull, wr_labels = JNull, wr_last_heartbeat = 0, wr_registered_at = 0, wr_metadata = JNull\<rparr>;
       (r, d) = pg_MarkStaleWorkers demo_pgx x (15 * Second) (10 * Second) (pg_empty\<lparr>db_workers := [(''w'', w)]\<rparr>)
   in r = Inl ErrDeadlineExceeded \<and> fst (pg_MarkStaleWorkers demo_pgx y (15 * Second) (10 * Second) d) = Inr ([], [])"
  by code_simp

end
