(* ===== verification/Faults.thy ===== *)
theory Faults
  imports GrpcServer ServiceInv
begin

text \<open>
  The handlers over a store that may fail. Theory \<open>SchedulerWp\<close> verifies what the handlers do when the
  store answers; here any call may return an error, with or without having taken effect, and
  messages may be delivered in any number and order. What remains is what the handlers never do:
  they never touch a job that is over. The proofs need the contract \<open>job_store\<close> only.
\<close>

locale faulty_ctx =
  st: job_store "sv_store D" av sinv +
  ev: event_sink "sv_events D" av sinv
  for D :: "('s, 'q) Service" and av sinv
begin

text \<open>
  The job \<open>jid\<close> is there and is \<open>j\<close>, new identifiers are not \<open>jid\<close>, and no key of \<open>K\<close> leads to it.
\<close>

definition stays :: "string set \<Rightarrow> string \<Rightarrow> Job \<Rightarrow> ('s, 'q) World \<Rightarrow> bool" where
  "stays K jid j w \<longleftrightarrow>
     sound_world sinv w \<and> a_jobs (av (w_store w)) jid = Some j \<and> (\<forall>n. x_uuid (w_ext w n) 0 \<noteq> jid) \<and>
     (\<forall>key\<in>K. a_keys (av (w_store w)) key \<noteq> Some jid)"

lemma stays_fields:
  "stays K jid j (w\<lparr>w_tick := n\<rparr>) = stays K jid j w" "stays K jid j (w\<lparr>w_queue := q\<rparr>) = stays K jid j w"
  "stays K jid j (w\<lparr>w_workers := ws\<rparr>) = stays K jid j w" "stays K jid j (w\<lparr>w_sent := rs\<rparr>) = stays K jid j w"
  "stays K jid j (w\<lparr>w_pendingCancels := pc\<rparr>) = stays K jid j w"
  "stays K jid j (drop_pending wid i w) = stays K jid j w" "stays K jid j (add_pending wid i w) = stays K jid j w"
  "stays K jid j (upd_worker wid f w) = stays K jid j w"
  by (simp_all add: stays_def sound_world_def exts_ok_def)

lemma stays_call:
  assumes "stays K jid j w"
  shows "ext_ok (w_ext w (w_tick w))" "sinv (w_store w)"
  using assms by (simp_all add: stays_def sound_world_def exts_ok_def)

lemma stays_next_ext [keeps_rules]: "keeps (stays K jid j) next_ext"
  by (simp add: keeps_def next_ext_def stays_fields)

lemma stays_readers [keeps_rules]:
  "keeps (stays K jid j) time_now" "keeps (stays K jid j) new_uuid" "keeps (stays K jid j) rand_float"
  "keeps (stays K jid j) (store_get f)" "keeps (stays K jid j) (backoff D p a)" "keeps (stays K jid j) pickWorker"
  unfolding time_now_def new_uuid_def rand_float_def store_get_def backoff_def pickWorker_def
  by (intro keeps_rules)+

lemma stays_queue_upd [keeps_rules]: "keeps (stays K jid j) (queue_upd f)"
  by (simp add: keeps_def queue_upd_def next_ext_def stays_fields split_beta)

lemma stays_maps [keeps_rules]:
  "keeps (stays K jid j) (modifyS (drop_pending wid i))" "keeps (stays K jid j) (modifyS (add_pending wid i))"
  "keeps (stays K jid j) (modifyS (\<lambda>w. w\<lparr>w_pendingCancels := f w\<rparr>))" "keeps (stays K jid j) (modifyS (\<lambda>w. w\<lparr>w_sent := g w\<rparr>))"
  "keeps (stays K jid j) (modifyS (\<lambda>w. w\<lparr>w_workers := h w\<rparr>))" "keeps (stays K jid j) (modifyS (upd_worker wid u))"
  by (rule keeps_modifyS, simp only: stays_fields)+

lemma stays_store_upd:
  assumes "\<And>x s a s'. ext_ok x \<Longrightarrow> sinv s \<Longrightarrow> f x s = (a, s') \<Longrightarrow> x_uuid x 0 \<noteq> jid \<Longrightarrow> a_jobs (av s) jid = Some j \<Longrightarrow>
      sinv s' \<and> a_jobs (av s') jid = Some j \<and> (\<forall>key\<in>K. a_keys (av s) key \<noteq> Some jid \<longrightarrow> a_keys (av s') key \<noteq> Some jid)"
  shows "keeps (stays K jid j) (store_upd f)"
  unfolding keeps_def
proof (intro allI impI)
  fix w
  assume w: "stays K jid j w"
  obtain a s' where s: "f (w_ext w (w_tick w)) (w_store w) = (a, s')" by (metis surj_pair)
  from assms [OF stays_call [OF w] s] w have "sinv s' \<and> a_jobs (av s') jid = Some j \<and> (\<forall>key\<in>K. a_keys (av s') key \<noteq> Some jid)"
    by (simp add: stays_def)
  with s w show "stays K jid j (exec (store_upd f) w)"
    by (simp add: store_upd_def next_ext_def stays_def sound_world_def exts_ok_def)
qed

lemma stays_frame:
  assumes "\<And>x s a s'. ext_ok x \<Longrightarrow> sinv s \<Longrightarrow> f x s = (a, s') \<Longrightarrow>
      sinv s' \<and> a_jobs (av s') = a_jobs (av s) \<and> a_keys (av s') = a_keys (av s)"
  shows "keeps (stays K jid j) (store_upd f)"
  by (rule stays_store_upd) (use assms in auto)

lemma stays_calls [keeps_rules]:
  "keeps (stays K jid j) (store_upd (\<lambda>x. js_CreateExecution (sv_store D) x ex))"
  "keeps (stays K jid j) (store_upd (\<lambda>x. js_UpsertWorker (sv_store D) x wk))"
  "keeps (stays K jid j) (store_upd (\<lambda>x. js_MarkStaleWorkers (sv_store D) x d1 d2))"
  "keeps (stays K jid j) (store_upd (\<lambda>x. js_FinishExecution (sv_store D) x xid est r))"
  by (rule stays_frame, erule (2) st.execution_sound st.upsert_sound st.stale_sound st.finish_sound)+

lemma stays_emit [keeps_rules]: "keeps (stays K jid j) (emit D et i xid wid attempt payload)"
proof -
  have "keeps (stays K jid j) (store_upd (\<lambda>x. ep_Emit (sv_events D) x et i xid wid attempt payload))"
    by (rule stays_frame) (use ev.emit_frame in simp)
  then show ?thesis unfolding emit_def by (intro keeps_rules)
qed

lemma stays_finishExecution [keeps_rules]: "keeps (stays K jid j) (finishExecution D xid est r)"
  unfolding finishExecution_def by (intro keeps_rules)

lemma stays_updateIf:
  assumes "i \<noteq> jid \<or> only \<noteq> [] \<and> job_State j \<notin> set only"
  shows "keeps (stays K jid j) (store_upd (\<lambda>x. js_UpdateJobStateIf (sv_store D) x i s f only))"
proof (rule stays_store_upd)
  fix x t a t'
  assume a: "ext_ok x" "sinv t" "js_UpdateJobStateIf (sv_store D) x i s f only t = (a, t')" "a_jobs (av t) jid = Some j"
  from st.update_sound [OF a(1-3)] a(4) assms show "sinv t' \<and> a_jobs (av t') jid = Some j \<and>
      (\<forall>key\<in>K. a_keys (av t) key \<noteq> Some jid \<longrightarrow> a_keys (av t') key \<noteq> Some jid)"
    by (auto simp: fun_upd_apply)
qed

lemma stays_update: "i \<noteq> jid \<Longrightarrow> keeps (stays K jid j) (updateJobState D i s f)"
  unfolding updateJobState_def js_UpdateJobState_def by (rule stays_updateIf) simp

text \<open>What a handler learns from reading a job: if it is the job \<open>jid\<close>, its state.\<close>

lemma stays_getJob:
  assumes "\<And>e. keeps (stays K jid j) (f (Inl e))"
    and "\<And>k. i = jid \<longrightarrow> job_State k = job_State j \<Longrightarrow> keeps (stays K jid j) (f (Inr k))"
  shows "keeps (stays K jid j) (getJob D i \<bind> f)"
  unfolding keeps_def
proof (intro allI impI)
  fix w
  assume w: "stays K jid j w"
  let ?r = "js_GetJob (sv_store D) (w_ext w (w_tick w)) i (w_store w)" and ?w = "w\<lparr>w_tick := Suc (w_tick w)\<rparr>"
  have "keeps (stays K jid j) (f ?r)"
  proof (cases ?r)
    case (Inr k)
    with st.get_sound [OF stays_call [OF w] Inr] w have "i = jid \<longrightarrow> job_State k = job_State j" by (auto simp: stays_def)
    with Inr assms(2) show ?thesis by simp
  qed (simp add: assms(1))
  from keepsD [OF this, of ?w] w show "stays K jid j (exec (getJob D i \<bind> f) w)"
    by (simp add: getJob_def store_get_def next_ext_def stays_fields split_beta)
qed

text \<open>A listing by states the job is not in does not hold it.\<close>

lemma stays_listing:
  assumes "\<And>x s js. ext_ok x \<Longrightarrow> sinv s \<Longrightarrow> g x s = Inr js \<Longrightarrow> listed (a_jobs (av s)) p js" "\<not> p j"
    and "\<And>e. keeps (stays K jid j) (f (Inl e))"
    and "\<And>js. \<forall>k\<in>set js. job_ID k \<noteq> jid \<Longrightarrow> keeps (stays K jid j) (f (Inr js))"
  shows "keeps (stays K jid j) (store_get g \<bind> f)"
  unfolding keeps_def
proof (intro allI impI)
  fix w
  assume w: "stays K jid j w"
  let ?r = "g (w_ext w (w_tick w)) (w_store w)" and ?w = "w\<lparr>w_tick := Suc (w_tick w)\<rparr>"
  have "keeps (stays K jid j) (f ?r)"
  proof (cases ?r)
    case (Inr js)
    have "job_ID k \<noteq> jid" if "k \<in> set js" for k
      using listed_mem [OF assms(1) [OF stays_call [OF w] Inr] that] w assms(2) by (auto simp: stays_def)
    with Inr assms(4) show ?thesis by simp
  qed (simp add: assms(3))
  from keepsD [OF this, of ?w] w show "stays K jid j (exec (store_get g \<bind> f) w)"
    by (simp add: store_get_def next_ext_def stays_fields split_beta)
qed

lemma stays_client [keeps_rules]:
  "keeps (stays K jid j) (client_ExecuteJob wid m xid)" "keeps (stays K jid j) (client_CancelJob wid i xid)"
  "keeps (stays K jid j) (cancel_on_worker wid i xid)"
  unfolding client_ExecuteJob_def client_CancelJob_def cancel_on_worker_def by (intro keeps_rules)+

section \<open>Every handler leaves the job alone\<close>

lemma stays_new_uuid:
  assumes "\<And>u. u \<noteq> jid \<Longrightarrow> keeps (stays K jid j) (f u)"
  shows "keeps (stays K jid j) (new_uuid \<bind> f)"
  unfolding keeps_def
proof (intro allI impI)
  fix w
  assume w: "stays K jid j w"
  then have "x_uuid (w_ext w (w_tick w)) 0 \<noteq> jid" by (simp add: stays_def)
  from keepsD [OF assms [OF this], of "w\<lparr>w_tick := Suc (w_tick w)\<rparr>"] w show "stays K jid j (exec (new_uuid \<bind> f) w)"
    by (simp add: new_uuid_def next_ext_def stays_fields split_beta)
qed

lemma create_elsewhere:
  assumes "ext_ok x" "sinv s" "js_CreateJob (sv_store D) x job s = (r, s')" "x_uuid x 0 \<noteq> jid"
    and "job_ID job \<noteq> jid \<or> job_ID job = ''''" "a_jobs (av s) jid = Some j"
  shows "sinv s' \<and> a_jobs (av s') jid = Some j \<and> (\<forall>key\<in>K. a_keys (av s) key \<noteq> Some jid \<longrightarrow> a_keys (av s') key \<noteq> Some jid)"
proof -
  have n: "new_id x job \<noteq> jid" using assms(4,5) by (auto simp: new_id_def)
  have c: "a_jobs (av s') = a_jobs (av s) \<and> a_keys (av s') = a_keys (av s) \<or>
      (\<exists>k. a_jobs (av s') = (a_jobs (av s))(new_id x job \<mapsto> k) \<and>
           a_keys (av s') = (if job_IdempotencyKey job = '''' then a_keys (av s)
                             else (a_keys (av s))(job_IdempotencyKey job \<mapsto> new_id x job)))"
    using st.create_sound [OF assms(1-3)] by blast
  have "sinv s'" using st.create_sound [OF assms(1-3)] by blast
  with c n assms(6) show ?thesis by (auto simp: fun_upd_apply split: if_splits)
qed

lemma stays_create:
  assumes "job_ID job \<noteq> jid \<or> job_ID job = ''''" "job_IdempotencyKey job = '''' \<or> job_IdempotencyKey job \<in> K"
    and "\<And>e. keeps (stays K jid j) (f (Inl e))" "\<And>k. job_ID k \<noteq> jid \<Longrightarrow> keeps (stays K jid j) (f (Inr k))"
  shows "keeps (stays K jid j) (store_upd (\<lambda>x. js_CreateJob (sv_store D) x job) \<bind> f)"
  unfolding keeps_def
proof (intro allI impI)
  fix w
  assume w: "stays K jid j w"
  let ?x = "w_ext w (w_tick w)"
  obtain r s' where s: "js_CreateJob (sv_store D) ?x job (w_store w) = (r, s')" by (metis surj_pair)
  have u: "x_uuid ?x 0 \<noteq> jid" "a_jobs (av (w_store w)) jid = Some j" using w by (simp_all add: stays_def)
  have "keeps (stays K jid j) (f r)"
  proof (cases r)
    case (Inr k)
    have "job_ID k = new_id ?x job \<or> job_IdempotencyKey job \<noteq> '''' \<and> a_keys (av (w_store w)) (job_IdempotencyKey job) = Some (job_ID k)"
      using st.create_sound [OF stays_call [OF w] s] Inr by blast
    with assms(1,2) u w have "job_ID k \<noteq> jid" by (auto simp: new_id_def stays_def split: if_splits)
    with Inr assms(4) show ?thesis by simp
  qed (simp add: assms(3))
  moreover have "stays K jid j (w\<lparr>w_tick := Suc (w_tick w), w_store := s'\<rparr>)"
    using create_elsewhere [OF stays_call [OF w] s u(1) assms(1) u(2), of K] w
    by (simp add: stays_def sound_world_def exts_ok_def)
  ultimately show "stays K jid j (exec (store_upd (\<lambda>x. js_CreateJob (sv_store D) x job) \<bind> f) w)"
    using s by (simp add: store_upd_def next_ext_def keepsD)
qed

text \<open>The rules for a job that is over.\<close>

lemma stays_promoteDueJobs:
  assumes "terminal (job_State j)"
  shows "keeps (stays K jid j) (promoteDueJobs D)"
  unfolding promoteDueJobs_def promote_job_def
  by (intro keeps_rules stays_updateIf) (use assms in \<open>auto simp: terminal_def\<close>)

lemma stays_handleQueuedJob:
  assumes "terminal (job_State j)"
  shows "keeps (stays K jid j) (handleQueuedJob D m)"
  unfolding handleQueuedJob_def assign_job_def push_job_def start_job_def
  by (rule stays_getJob) (use assms in \<open>auto simp: terminal_def queueable_def intro!: keeps_rules stays_update\<close>)

lemma stays_workers [keeps_rules]:
  "keeps (stays K jid j) (RegisterWorker D wk)" "keeps (stays K jid j) (Heartbeat D wid active capacity)"
  "keeps (stays K jid j) (Deregister D wid)"
  unfolding RegisterWorker_def Heartbeat_def Deregister_def by (intro keeps_rules keeps_let)+

lemma stays_maybeReschedule [keeps_rules]:
  "keeps (stays K jid j) (maybeRescheduleRecurring D job t)"
  unfolding maybeRescheduleRecurring_def
  by (intro keeps_rules stays_create) (simp_all add: child_job_def)

lemma stays_results [keeps_rules]:
  assumes "i \<noteq> jid"
  shows "keeps (stays K jid j) (result_cancelled D i xid wid attempt r now)"
    "keeps (stays K jid j) (result_success D k i xid wid attempt r now)"
    "keeps (stays K jid j) (result_timeout D k i xid wid attempt r now)"
    "keeps (stays K jid j) (result_failed D k i xid wid attempt r now)"
  unfolding result_cancelled_def result_success_def result_timeout_def result_failed_def
  by (intro keeps_rules stays_update [OF assms])+

lemma stays_HandleResult:
  assumes "terminal (job_State j)"
  shows "keeps (stays K jid j) (HandleResult D i xid wid attempt r)"
  unfolding HandleResult_def clearPendingCancel_def Let_def
  by (rule keeps_bind, rule stays_maps, rule keeps_bind, rule stays_maps, rule stays_getJob)
    (use assms in \<open>auto intro!: keeps_rules\<close>)

lemma stays_RequestCancel: "keeps (stays K jid j) (RequestCancel D i)"
  unfolding RequestCancel_def by (rule stays_getJob) (simp_all, (intro keeps_rules)+)

lemma stays_pushPendingCancels:
  assumes "terminal (job_State j)"
  shows "keeps (stays K jid j) (pushPendingCancels D)"
  unfolding pushPendingCancels_def push_cancel_def
  by (rule stays_listing [OF st.cancel_requested_sound])
    (use assms in \<open>auto simp: terminal_def intro!: keeps_rules stays_update\<close>)

lemma stays_watchdogTimeouts:
  assumes "terminal (job_State j)"
  shows "keeps (stays K jid j) (watchdogTimeouts D)"
  unfolding watchdogTimeouts_def watchdog_job_def by (intro keeps_rules stays_HandleResult assms)

lemma stays_listJobs:
  assumes "JobState_string (job_State j) \<noteq> s" "s \<noteq> ''''"
    and "\<And>js. \<forall>k\<in>set js. job_ID k \<noteq> jid \<Longrightarrow> keeps (stays K jid j) (f js)"
  shows "keeps (stays K jid j)
    (store_get (\<lambda>x. js_ListJobs (sv_store D) x s limit) \<bind> case_sum (\<lambda>e. ret (Some e)) f)"
  by (rule stays_listing [OF st.list_sound]) (use assms in \<open>simp_all add: keeps_ret\<close>)

lemma stays_recover_job: "job_ID k \<noteq> jid \<Longrightarrow> keeps (stays K jid j) (recover_job D wid now k)"
  unfolding recover_job_def by (intro keeps_rules stays_update)

lemma stays_recoverWorkerJobs [keeps_rules]:
  assumes "terminal (job_State j)"
  shows "keeps (stays K jid j) (recoverWorkerJobs D wid)"
  unfolding recoverWorkerJobs_def
  by (intro stays_listJobs keeps_rules stays_recover_job) (use assms in \<open>auto simp: terminal_def\<close>)

lemma stays_checkWorkers:
  "terminal (job_State j) \<Longrightarrow> keeps (stays K jid j) (checkWorkers D)"
  unfolding checkWorkers_def lose_worker_def by (intro keeps_rules)

lemma stays_poll_tick:
  "terminal (job_State j) \<Longrightarrow> keeps (stays K jid j) (poll_tick D)"
  unfolding poll_tick_def
  by (intro keeps_rules stays_promoteDueJobs stays_pushPendingCancels stays_watchdogTimeouts stays_checkWorkers)

lemma stays_grpc:
  "keeps (stays K jid j) (grpc_Register D a rg)" "keeps (stays K jid j) (grpc_Heartbeat D a hb)"
  "keeps (stays K jid j) (grpc_Deregister D a dg)"
  "terminal (job_State j) \<Longrightarrow> keeps (stays K jid j) (grpc_ReportResult D a rq)"
  unfolding grpc_Register_def grpc_Heartbeat_def grpc_Deregister_def grpc_ReportResult_def
  by (intro keeps_rules stays_HandleResult; assumption?)+

lemma stays_cancelJob:
  assumes "cancel_terminal (job_State j)"
  shows "keeps (stays K jid j) (cancelJob D i)"
  unfolding cancelJob_def
  by (rule stays_getJob) (use assms in \<open>auto intro!: keeps_rules stays_update\<close>)

lemma stays_enqueueJob: "job_ID k \<noteq> jid \<Longrightarrow> keeps (stays K jid j) (enqueueJob D k)"
  unfolding enqueueJob_def by (intro keeps_rules stays_update)

lemma stays_submit_job:
  assumes "job_ID k \<noteq> jid" "job_IdempotencyKey k = '''' \<or> job_IdempotencyKey k \<in> K"
  shows "keeps (stays K jid j) (submit_job D now k)"
  unfolding submit_job_def
  by (rule stays_create) (use assms in \<open>auto intro!: keeps_rules stays_enqueueJob\<close>)

lemma stays_createJob:
  assumes "\<And>req. body = Inr req \<Longrightarrow> cr_IdempotencyKey req = '''' \<or> cr_IdempotencyKey req \<in> K"
  shows "keeps (stays K jid j) (createJob D body)"
  unfolding createJob_def
  by (intro stays_new_uuid keeps_rules stays_submit_job)
    (use assms check_request_valid(11) in \<open>force simp: schedule_job_def new_job_def split: sum.splits\<close>)+

lemma stays_readers_api [keeps_rules]:
  "keeps (stays K jid j) (api_getJob D i)" "keeps (stays K jid j) (api_listJobs D s limit)" "keeps (stays K jid j) (api_listWorkers D)"
  unfolding api_getJob_def api_listJobs_def api_listWorkers_def getJob_def by (intro keeps_rules)+

lemma stays_dispatch:
  assumes "srv_deps srv = D" "cancel_terminal (job_State j)"
    and "\<And>req. ep = PostJobs (Inr req) \<Longrightarrow> cr_IdempotencyKey req = '''' \<or> cr_IdempotencyKey req \<in> K"
  shows "keeps (stays K jid j) (dispatch srv ping ep)"
proof (cases ep)
  case (PostJobs body)
  with assms show ?thesis by (simp add: dispatch_def stays_createJob)
qed (simp_all add: dispatch_def assms(1) stays_cancelJob [OF assms(2)] keeps_ret stays_readers_api
    keeps_analytics stays_fields split: option.split)

lemma stays_Handler:
  assumes "srv_deps srv = D" "cancel_terminal (job_State j)"
    and "\<And>r. rq_endpoint req = PostJobs (Inr r) \<Longrightarrow> cr_IdempotencyKey r = '''' \<or> cr_IdempotencyKey r \<in> K"
  shows "keeps (stays K jid j) (Handler srv ping req)"
  unfolding Handler_def HTTPMiddleware_def by (intro keeps_rules stays_dispatch assms)

end

end
