(* ===== verification/KafkaQueue.thy ===== *)
theory KafkaQueue
  imports Json Scheduler
begin

text \<open>
  The Kafka queue, \<^verbatim>\<open>internal/queue/kafka/kafka.go\<close>. The Kafka client library and the brokers behind it
  are a parameter: four operations on a state that is not looked into. A message that was fetched
  carries its partition and offset. \<open>json.Marshal\<close> of a queue message cannot fail: its fields are
  strings, integers, bytes and an instant of the present. The loop of the consumer only ends when
  fetching or committing fails; the model runs it for a number of rounds and returns what happened
  in each. Sleeping after a failed round and closing the reader have no model.
\<close>

section \<open>Messages\<close>

definition QueuedJob_json :: "QueuedJob \<Rightarrow> json" where
  "QueuedJob_json j =
     JObj ([(''job_id'', JStr (qj_JobID j)), (''execution_id'', JStr (qj_ExecutionID j)),
            (''name'', JStr (qj_Name j)), (''type'', JStr (JobType_string (qj_Type j))),
            (''payload'', bytes_json (qj_Payload j)), (''priority'', JInt (qj_Priority j)),
            (''attempt'', JInt (qj_Attempt j)), (''timeout'', JInt (qj_Timeout j)),
            (''enqueued_at'', JTime (qj_EnqueuedAt j))] @
           omitempty (qj_TraceID j = '''') ''trace_id'' (JStr (qj_TraceID j)))"

definition QueuedJob_zero :: QueuedJob where
  "QueuedJob_zero =
     \<lparr>qj_JobID = '''', qj_ExecutionID = '''', qj_Name = '''', qj_Type = JobTypeOther '''', qj_Payload = None,
      qj_Priority = 0, qj_Attempt = 0, qj_Timeout = 0, qj_EnqueuedAt = 0, qj_TraceID = ''''\<rparr>"

definition QueuedJob_fields :: "(string \<times> QueuedJob setter) list" where
  "QueuedJob_fields =
     [(''job_id'', set_string (\<lambda>v j. j\<lparr>qj_JobID := v\<rparr>)),
      (''execution_id'', set_string (\<lambda>v j. j\<lparr>qj_ExecutionID := v\<rparr>)),
      (''name'', set_string (\<lambda>v j. j\<lparr>qj_Name := v\<rparr>)),
      (''type'', set_string (\<lambda>v j. j\<lparr>qj_Type := JobType_of v\<rparr>)),
      (''payload'', set_bytes (\<lambda>v j. j\<lparr>qj_Payload := v\<rparr>)),
      (''priority'', set_int (\<lambda>v j. j\<lparr>qj_Priority := v\<rparr>)),
      (''attempt'', set_int (\<lambda>v j. j\<lparr>qj_Attempt := v\<rparr>)),
      (''timeout'', set_int (\<lambda>v j. j\<lparr>qj_Timeout := v\<rparr>)),
      (''enqueued_at'', set_time (\<lambda>v j. j\<lparr>qj_EnqueuedAt := v\<rparr>)),
      (''trace_id'', set_string (\<lambda>v j. j\<lparr>qj_TraceID := v\<rparr>))]"

record JobMessage =
  jm_Key :: string
  jm_Value :: rawmsg
  jm_Headers :: "(string \<times> string) list"
  jm_Time :: time

record Fetched =
  fm_Partition :: nat
  fm_Offset :: nat
  fm_Message :: JobMessage

record 'k KafkaClient =
  kl_WriteMessages :: "ext \<Rightarrow> string \<Rightarrow> JobMessage list \<Rightarrow> 'k \<Rightarrow> Error option \<times> 'k"
  kl_FetchMessage :: "ext \<Rightarrow> string \<Rightarrow> 'k \<Rightarrow> Fetched res \<times> 'k"
  kl_CommitMessages :: "ext \<Rightarrow> Fetched list \<Rightarrow> 'k \<Rightarrow> Error option \<times> 'k"
  kl_Close :: "'k \<Rightarrow> Error option \<times> 'k"


section \<open>The queue\<close>

record KafkaQueueConfig =
  kq_Brokers :: "string list"
  kq_Topic :: string
  kq_Group :: string

text \<open>The goroutines of \<open>EnqueueDelay\<close> that wait for their timers are a list.\<close>

record 'k KafkaQueue =
  kq_cfg :: KafkaQueueConfig
  kq_closed :: bool
  kq_client :: 'k
  kq_timers :: "(time \<times> QueuedJob) list"

definition kafka_New :: "KafkaQueueConfig \<Rightarrow> 'k \<Rightarrow> 'k KafkaQueue res" where
  "kafka_New cfg k =
     (if kq_Brokers cfg = [] then Inl (ErrMsg ''kafka queue: brokers required'')
      else let cfg = (if kq_Topic cfg = '''' then cfg\<lparr>kq_Topic := ''chronos.jobs''\<rparr> else cfg);
               cfg = (if kq_Group cfg = '''' then cfg\<lparr>kq_Group := ''chronos-scheduler''\<rparr> else cfg)
           in Inr \<lparr>kq_cfg = cfg, kq_closed = False, kq_client = k, kq_timers = []\<rparr>)"

definition job_message :: "time \<Rightarrow> QueuedJob \<Rightarrow> JobMessage" where
  "job_message now job =
     \<lparr>jm_Key = qj_JobID job, jm_Value = Some (QueuedJob_json job),
      jm_Headers = [(''priority'', show_int (qj_Priority job)), (''job_id'', qj_JobID job)], jm_Time = now\<rparr>"

definition kafka_Enqueue ::
    "'k KafkaClient \<Rightarrow> ext \<Rightarrow> QueuedJob \<Rightarrow> 'k KafkaQueue \<Rightarrow> Error option \<times> 'k KafkaQueue" where
  "kafka_Enqueue C x job q =
     (if kq_closed q then (Some (ErrMsg ''kafka queue closed''), q)
      else let job = (if qj_EnqueuedAt job = 0 then job\<lparr>qj_EnqueuedAt := x_now x 0\<rparr> else job) in
           case kl_WriteMessages C x (kq_Topic (kq_cfg q)) [job_message (x_now x 1) job] (kq_client q) of
             (e, k) \<Rightarrow> (e, q\<lparr>kq_client := k\<rparr>))"

definition kafka_EnqueueDelay ::
    "'k KafkaClient \<Rightarrow> ext \<Rightarrow> QueuedJob \<Rightarrow> duration \<Rightarrow> 'k KafkaQueue \<Rightarrow> Error option \<times> 'k KafkaQueue" where
  "kafka_EnqueueDelay C x job delay q =
     (if delay \<le> 0 then kafka_Enqueue C x job q
      else (None, q\<lparr>kq_timers := kq_timers q @ [(x_now x 0 + delay, job)]\<rparr>))"

text \<open>The timer of one waiting goroutine fires, or the context of its call ends.\<close>

definition kafka_timer :: "'k KafkaClient \<Rightarrow> ext \<Rightarrow> nat \<Rightarrow> bool \<Rightarrow> 'k KafkaQueue \<Rightarrow> 'k KafkaQueue" where
  "kafka_timer C x i ended q =
     (if \<not> i < length (kq_timers q) then q
      else case kq_timers q ! i of (t, job) \<Rightarrow>
        let q' = q\<lparr>kq_timers := take i (kq_timers q) @ drop (Suc i) (kq_timers q)\<rparr> in
        if ended then q'
        else if x_now x 0 < t then q
        else snd (kafka_Enqueue C x job q'))"

definition kafka_Close :: "'k KafkaClient \<Rightarrow> 'k KafkaQueue \<Rightarrow> Error option \<times> 'k KafkaQueue" where
  "kafka_Close C q =
     (case kl_Close C (kq_client q) of (e, k) \<Rightarrow> (e, q\<lparr>kq_closed := True, kq_client := k\<rparr>))"

definition kafka_queue :: "'k KafkaClient \<Rightarrow> 'k KafkaQueue Queue" where
  "kafka_queue C =
     \<lparr>q_Enqueue = kafka_Enqueue C, q_EnqueueDelay = kafka_EnqueueDelay C, q_Name = ''kafka''\<rparr>"


section \<open>The consumer\<close>

datatype Round =
    FetchFailed Error
  | Skipped Fetched
  | Unacked Fetched Error
  | Acked Fetched
  | CommitFailed Fetched Error

definition kafka_fetch :: "'k KafkaClient \<Rightarrow> ext \<Rightarrow> 'k KafkaQueue \<Rightarrow> Fetched res \<times> 'k KafkaQueue" where
  "kafka_fetch C x q =
     (case kl_FetchMessage C x (kq_Topic (kq_cfg q)) (kq_client q) of (r, k) \<Rightarrow> (r, q\<lparr>kq_client := k\<rparr>))"

definition kafka_commit :: "'k KafkaClient \<Rightarrow> ext \<Rightarrow> Fetched \<Rightarrow> 'k KafkaQueue \<Rightarrow> Error option \<times> 'k KafkaQueue" where
  "kafka_commit C x m q =
     (case kl_CommitMessages C x [m] (kq_client q) of (e, k) \<Rightarrow> (e, q\<lparr>kq_client := k\<rparr>))"

definition kafka_deliver ::
    "'k KafkaClient \<Rightarrow> (QueuedJob \<Rightarrow> ('s, 'k KafkaQueue, Error option) handler) \<Rightarrow> Fetched \<Rightarrow> ('s, 'k KafkaQueue, Round) handler" where
  "kafka_deliver C h m =
     (case Unmarshal QueuedJob_fields QueuedJob_zero (jm_Value (fm_Message m)) of (ok, job) \<Rightarrow>
        if \<not> ok then do {
          _ \<leftarrow> queue_upd (\<lambda>x. kafka_commit C x m);
          ret (Skipped m) }
        else do {
          e \<leftarrow> h job;
          (case e of
             Some err \<Rightarrow> ret (Unacked m err)
           | None \<Rightarrow> do {
               c \<leftarrow> queue_upd (\<lambda>x. kafka_commit C x m);
               (case c of Some err \<Rightarrow> ret (CommitFailed m err) | None \<Rightarrow> ret (Acked m)) }) })"

definition kafka_round ::
    "'k KafkaClient \<Rightarrow> (QueuedJob \<Rightarrow> ('s, 'k KafkaQueue, Error option) handler) \<Rightarrow> ('s, 'k KafkaQueue, Round) handler" where
  "kafka_round C h = do {
     r \<leftarrow> queue_upd (kafka_fetch C);
     (case r of Inl e \<Rightarrow> ret (FetchFailed e) | Inr m \<Rightarrow> kafka_deliver C h m) }"

definition round_ends :: "Round \<Rightarrow> bool" where
  "round_ends r = (case r of FetchFailed e \<Rightarrow> True | CommitFailed m e \<Rightarrow> True | _ \<Rightarrow> False)"

fun kafka_StartConsumer ::
    "'k KafkaClient \<Rightarrow> (QueuedJob \<Rightarrow> ('s, 'k KafkaQueue, Error option) handler) \<Rightarrow> nat \<Rightarrow>
     ('s, 'k KafkaQueue, Round list) handler" where
  "kafka_StartConsumer C h 0 = ret []"
| "kafka_StartConsumer C h (Suc n) = do {
     r \<leftarrow> kafka_round C h;
     if round_ends r then ret [r]
     else do { rs \<leftarrow> kafka_StartConsumer C h n; ret (r # rs) } }"

section \<open>Lemmas\<close>

definition wf_queued :: "QueuedJob \<Rightarrow> bool" where
  "wf_queued j \<longleftrightarrow>
     int64 (qj_Priority j) \<and> int64 (qj_Attempt j) \<and> int64 (qj_Timeout j) \<and>
     JobType_of (JobType_string (qj_Type j)) = qj_Type j"

lemma QueuedJob_roundtrip:
  assumes "wf_queued j"
  shows "Unmarshal QueuedJob_fields QueuedJob_zero (Some (QueuedJob_json j)) = (True, j)"
proof -
  have l: "ToLower ''job_id'' = ''job_id''" "ToLower ''execution_id'' = ''execution_id''" "ToLower ''name'' = ''name''"
    "ToLower ''type'' = ''type''" "ToLower ''payload'' = ''payload''" "ToLower ''priority'' = ''priority''"
    "ToLower ''attempt'' = ''attempt''" "ToLower ''timeout'' = ''timeout''" "ToLower ''enqueued_at'' = ''enqueued_at''"
    "ToLower ''trace_id'' = ''trace_id''" by code_simp+
  show ?thesis
    using assms
    by (cases j)
      (simp add: Unmarshal_def QueuedJob_json_def QueuedJob_fields_def l set_string_def set_int_def set_time_def
        set_bytes_def bytes_json_def QueuedJob_zero_def wf_queued_def int64_def omitempty_def split: option.split)
qed

lemma kafka_New_fields:
  "kafka_New cfg k = Inr q \<Longrightarrow>
   kq_Topic (kq_cfg q) \<noteq> '''' \<and> kq_Group (kq_cfg q) \<noteq> '''' \<and> kq_Brokers (kq_cfg q) \<noteq> [] \<and> \<not> kq_closed q"
  by (auto simp: kafka_New_def Let_def split: if_splits)

text \<open>
  The message a round fetched, if any.
\<close>

definition round_message :: "Round \<Rightarrow> Fetched option" where
  "round_message r =
     (case r of FetchFailed e \<Rightarrow> None | Skipped m \<Rightarrow> Some m | Unacked m e \<Rightarrow> Some m | Acked m \<Rightarrow> Some m
      | CommitFailed m e \<Rightarrow> Some m)"

text \<open>
  What the client documents of a reader with a consumer group: a fetch returns the message at the
  position in one of the partitions and moves the position past it; a commit moves the group's offset
  of the partition past the message, or fails and leaves it or has moved it. The functions read
  the position and the group's offset of every partition off the client's state.
\<close>

definition reader_ok :: "'k KafkaClient \<Rightarrow> ('k \<Rightarrow> nat \<Rightarrow> nat) \<Rightarrow> ('k \<Rightarrow> nat \<Rightarrow> nat) \<Rightarrow> bool" where
  "reader_ok C pos committed \<longleftrightarrow>
     (\<forall>x topic k r k'. kl_FetchMessage C x topic k = (r, k') \<longrightarrow>
        committed k' = committed k \<and>
        (case r of
           Inl e \<Rightarrow> pos k' = pos k
         | Inr m \<Rightarrow> fm_Offset m = pos k (fm_Partition m) \<and>
                    pos k' = (pos k)(fm_Partition m := Suc (fm_Offset m)))) \<and>
     (\<forall>x m k e k'. kl_CommitMessages C x [m] k = (e, k') \<longrightarrow>
        pos k' = pos k \<and>
        (committed k' = (committed k)(fm_Partition m := Suc (fm_Offset m)) \<or>
         e \<noteq> None \<and> committed k' = committed k))"

lemma reader_fetch:
  assumes "reader_ok C pos committed" "kafka_fetch C x q = (r, q')"
  shows "committed (kq_client q') = committed (kq_client q)"
    "r = Inl e \<Longrightarrow> pos (kq_client q') = pos (kq_client q)"
    "r = Inr m \<Longrightarrow> fm_Offset m = pos (kq_client q) (fm_Partition m)"
    "r = Inr m \<Longrightarrow> pos (kq_client q') = (pos (kq_client q))(fm_Partition m := Suc (fm_Offset m))"
proof -
  obtain k where k: "kl_FetchMessage C x (kq_Topic (kq_cfg q)) (kq_client q) = (r, k)" "q' = q\<lparr>kq_client := k\<rparr>"
    using assms(2) by (auto simp: kafka_fetch_def split: prod.splits)
  have f: "committed k = committed (kq_client q) \<and>
        (case r of
           Inl e \<Rightarrow> pos k = pos (kq_client q)
         | Inr m \<Rightarrow> fm_Offset m = pos (kq_client q) (fm_Partition m) \<and>
                    pos k = (pos (kq_client q))(fm_Partition m := Suc (fm_Offset m)))"
    using assms(1) k(1) unfolding reader_ok_def by blast
  with k(2) show "committed (kq_client q') = committed (kq_client q)"
    "r = Inl e \<Longrightarrow> pos (kq_client q') = pos (kq_client q)"
    "r = Inr m \<Longrightarrow> fm_Offset m = pos (kq_client q) (fm_Partition m)"
    "r = Inr m \<Longrightarrow> pos (kq_client q') = (pos (kq_client q))(fm_Partition m := Suc (fm_Offset m))" by simp_all
qed

lemma reader_commit:
  assumes "reader_ok C pos committed" "kafka_commit C x m q = (e, q')"
  shows "pos (kq_client q') = pos (kq_client q)"
    "committed (kq_client q') = committed (kq_client q) \<or>
     committed (kq_client q') = (committed (kq_client q))(fm_Partition m := Suc (fm_Offset m))"
proof -
  obtain k where k: "kl_CommitMessages C x [m] (kq_client q) = (e, k)" "q' = q\<lparr>kq_client := k\<rparr>"
    using assms(2) by (auto simp: kafka_commit_def split: prod.splits)
  have "pos k = pos (kq_client q) \<and>
        (committed k = (committed (kq_client q))(fm_Partition m := Suc (fm_Offset m)) \<or>
         e \<noteq> None \<and> committed k = committed (kq_client q))"
    using assms(1) k(1) unfolding reader_ok_def by blast
  with k(2) show "pos (kq_client q') = pos (kq_client q)"
    "committed (kq_client q') = committed (kq_client q) \<or>
     committed (kq_client q') = (committed (kq_client q))(fm_Partition m := Suc (fm_Offset m))" by auto
qed

lemma wp_queue_upd_any:
  assumes "\<And>a q'. f (w_ext w (w_tick w)) (w_queue w) = (a, q') \<Longrightarrow> Q a (w\<lparr>w_tick := Suc (w_tick w), w_queue := q'\<rparr>)"
  shows "wp (queue_upd f) Q w"
  using assms by (simp add: wp_def queue_upd_def next_ext_def split: prod.split)

text \<open>What one round does to position and offset.\<close>

definition round_step :: "('k \<Rightarrow> nat \<Rightarrow> nat) \<Rightarrow> ('k \<Rightarrow> nat \<Rightarrow> nat) \<Rightarrow> 'k \<Rightarrow> Round \<Rightarrow> 'k \<Rightarrow> bool" where
  "round_step pos committed k r k' \<longleftrightarrow>
     (case round_message r of
        None \<Rightarrow> pos k' = pos k \<and> committed k' = committed k
      | Some m \<Rightarrow>
          fm_Offset m = pos k (fm_Partition m) \<and> pos k' = (pos k)(fm_Partition m := Suc (fm_Offset m)) \<and>
          (committed k' = committed k \<or> committed k' = (committed k)(fm_Partition m := Suc (fm_Offset m))))"

lemma wp_kafka_commit:
  assumes "reader_ok C pos committed"
    and "\<And>e q'. pos (kq_client q') = pos (kq_client (w_queue w)) \<Longrightarrow>
      committed (kq_client q') = committed (kq_client (w_queue w)) \<or>
      committed (kq_client q') = (committed (kq_client (w_queue w)))(fm_Partition m := Suc (fm_Offset m)) \<Longrightarrow>
      Q e (w\<lparr>w_tick := Suc (w_tick w), w_queue := q'\<rparr>)"
  shows "wp (queue_upd (\<lambda>x. kafka_commit C x m)) Q w"
  by (rule wp_queue_upd_any, rule assms(2)) (use reader_commit [OF assms(1)] in blast)+

lemma wp_kafka_deliver:
  assumes "reader_ok C pos committed" "\<And>job q. keeps (\<lambda>w. w_queue w = q) (h job)"
  shows "wp (kafka_deliver C h m)
    (\<lambda>r w'. round_message r = Some m \<and> pos (kq_client (w_queue w')) = pos (kq_client (w_queue w)) \<and>
       (committed (kq_client (w_queue w')) = committed (kq_client (w_queue w)) \<or>
        committed (kq_client (w_queue w')) = (committed (kq_client (w_queue w)))(fm_Partition m := Suc (fm_Offset m)))) w"
    (is "wp _ ?Q w")
proof -
  obtain ok job where u: "Unmarshal QueuedJob_fields QueuedJob_zero (jm_Value (fm_Message m)) = (ok, job)" by (metis surj_pair)
  show ?thesis
  proof (cases ok)
    case False
    then show ?thesis unfolding kafka_deliver_def u
      by (simp add: wp_simps) (rule wp_kafka_commit [OF assms(1)], simp add: round_message_def)
  next
    case True
    have "wp (case e of Some err \<Rightarrow> ret (Unacked m err)
        | None \<Rightarrow> queue_upd (\<lambda>x. kafka_commit C x m) \<bind> (\<lambda>c. case c of Some err \<Rightarrow> ret (CommitFailed m err) | None \<Rightarrow> ret (Acked m))) ?Q w'"
      if "w_queue w' = w_queue w" for e w'
    proof (cases e)
      case None
      then show ?thesis by (simp add: wp_simps)
          (rule wp_kafka_commit [OF assms(1)], simp add: round_message_def wp_simps that split: option.split)
    qed (simp add: wp_simps round_message_def that)
    with True show ?thesis unfolding kafka_deliver_def u
      by (simp add: wp_bind) (rule wp_mono [OF wp_keeps [OF assms(2) refl]], blast)
  qed
qed

lemma wp_kafka_round:
  assumes "reader_ok C pos committed" "\<And>job q. keeps (\<lambda>w. w_queue w = q) (h job)"
  shows "wp (kafka_round C h) (\<lambda>r w'. round_step pos committed (kq_client (w_queue w)) r (kq_client (w_queue w'))) w"
  unfolding kafka_round_def wp_bind
proof (rule wp_queue_upd_any)
  fix r q
  assume f: "kafka_fetch C (w_ext w (w_tick w)) (w_queue w) = (r, q)"
  let ?w = "w\<lparr>w_tick := Suc (w_tick w), w_queue := q\<rparr>"
  show "wp (case r of Inl e \<Rightarrow> ret (FetchFailed e) | Inr m \<Rightarrow> kafka_deliver C h m)
      (\<lambda>r w'. round_step pos committed (kq_client (w_queue w)) r (kq_client (w_queue w'))) ?w"
  proof (cases r)
    case (Inl e)
    with reader_fetch [OF assms(1) f] show ?thesis by (simp add: wp_ret round_step_def round_message_def)
  next
    case (Inr m)
    with reader_fetch [OF assms(1) f] show ?thesis
      by (simp add: round_step_def) (rule wp_mono [OF wp_kafka_deliver [OF assms]], simp)
  qed
qed

text \<open>A whole run of the consumer.\<close>

definition delivered :: "Round list \<Rightarrow> nat \<Rightarrow> nat \<Rightarrow> bool" where
  "delivered tr p n \<longleftrightarrow>
     (\<exists>r\<in>set tr. \<exists>m. round_message r = Some m \<and> fm_Partition m = p \<and> fm_Offset m = n)"

definition consumed :: "('k \<Rightarrow> nat \<Rightarrow> nat) \<Rightarrow> ('k \<Rightarrow> nat \<Rightarrow> nat) \<Rightarrow> 'k \<Rightarrow> Round list \<Rightarrow> 'k \<Rightarrow> bool" where
  "consumed pos committed k tr k' \<longleftrightarrow>
     (\<forall>p. pos k p \<le> pos k' p \<and> (\<forall>n. pos k p \<le> n \<and> n < pos k' p \<longrightarrow> delivered tr p n) \<and>
          (committed k' p = committed k p \<or> committed k' p \<le> pos k' p))"

lemma delivered_Cons:
  "delivered (r # tr) p n \<longleftrightarrow>
     (\<exists>m. round_message r = Some m \<and> fm_Partition m = p \<and> fm_Offset m = n) \<or> delivered tr p n"
  by (simp add: delivered_def)

lemma consumed_Nil: "consumed pos committed k [] k"
  by (auto simp: consumed_def)

lemma consumed_Cons:
  assumes "round_step pos committed k r k1" "consumed pos committed k1 tr k2"
  shows "consumed pos committed k (r # tr) k2"
proof (cases "round_message r")
  case None
  with assms show ?thesis by (simp add: round_step_def consumed_def delivered_Cons)
next
  case (Some m)
  have s: "fm_Offset m = pos k (fm_Partition m)" "pos k1 = (pos k)(fm_Partition m := Suc (fm_Offset m))"
    "committed k1 = committed k \<or> committed k1 = (committed k)(fm_Partition m := Suc (fm_Offset m))"
    using assms(1) unfolding round_step_def Some by auto
  show ?thesis
    unfolding consumed_def
  proof (intro allI conjI impI)
    fix p
    have t: "pos k1 p \<le> pos k2 p" "\<And>n. pos k1 p \<le> n \<Longrightarrow> n < pos k2 p \<Longrightarrow> delivered tr p n"
      "committed k2 p = committed k1 p \<or> committed k2 p \<le> pos k2 p"
      using assms(2) by (simp_all add: consumed_def)
    show "pos k p \<le> pos k2 p" using t(1) s(1,2) by (auto split: if_splits)
    show "committed k2 p = committed k p \<or> committed k2 p \<le> pos k2 p"
      using t(1,3) s by (auto split: if_splits)
    fix n
    assume n: "pos k p \<le> n \<and> n < pos k2 p"
    show "delivered (r # tr) p n"
    proof (cases "fm_Partition m = p \<and> n = fm_Offset m")
      case True
      with Some show ?thesis by (simp add: delivered_Cons)
    next
      case False
      with n s(1,2) have "pos k1 p \<le> n" by (cases "fm_Partition m = p") auto
      with t(2) [of n] n show ?thesis by (simp add: delivered_Cons)
    qed
  qed
qed

lemma wp_StartConsumer:
  assumes "reader_ok C pos committed" "\<And>job q. keeps (\<lambda>w. w_queue w = q) (h job)"
  shows "wp (kafka_StartConsumer C h n)
    (\<lambda>tr w'. consumed pos committed (kq_client (w_queue w)) tr (kq_client (w_queue w'))) w"
proof (induction n arbitrary: w)
  case 0
  show ?case by (simp add: wp_ret consumed_Nil)
next
  case (Suc n)
  let ?Q = "\<lambda>w tr w'. consumed pos committed (kq_client (w_queue w)) tr (kq_client (w_queue w'))"
  have "wp (if round_ends r then ret [r] else kafka_StartConsumer C h n \<bind> (\<lambda>rs. ret (r # rs))) (?Q w) w1"
    if r: "round_step pos committed (kq_client (w_queue w)) r (kq_client (w_queue w1))" for r w1
  proof (cases "round_ends r")
    case True
    with consumed_Cons [OF r consumed_Nil] show ?thesis by (simp add: wp_ret)
  next
    case False
    then show ?thesis
      by (simp add: wp_bind wp_ret) (rule wp_mono [OF Suc.IH [of w1]], rule consumed_Cons [OF r])
  qed
  then show ?case by (simp add: wp_bind) (rule wp_mono [OF wp_kafka_round [OF assms]])
qed

text \<open>
  What the rounds of a run say about the handler: it was called once for every message that could be
  decoded, with the job the message carries, in the order of the rounds, and its result decided the
  round. Between the calls nothing but the queue (and the outside values used up) has changed.
\<close>

definition only_queue :: "('s, 'q) World \<Rightarrow> ('s, 'q) World \<Rightarrow> bool" where
  "only_queue w u \<longleftrightarrow> u = w\<lparr>w_queue := w_queue u, w_tick := w_tick u\<rparr>"

definition carried_job :: "Fetched \<Rightarrow> QueuedJob option" where
  "carried_job m =
     (case Unmarshal QueuedJob_fields QueuedJob_zero (jm_Value (fm_Message m)) of
        (ok, job) \<Rightarrow> if ok then Some job else None)"

inductive served ::
    "(QueuedJob \<Rightarrow> ('s, 'q, Error option) handler) \<Rightarrow> ('s, 'q) World \<Rightarrow> Round list \<Rightarrow> ('s, 'q) World \<Rightarrow> bool" for h where
  served_end: "served h w [] w"
| served_failed: "only_queue w u \<Longrightarrow> served h u tr w' \<Longrightarrow> served h w (FetchFailed e # tr) w'"
| served_skipped: "carried_job m = None \<Longrightarrow> only_queue w u \<Longrightarrow> served h u tr w' \<Longrightarrow> served h w (Skipped m # tr) w'"
| served_unacked: "carried_job m = Some job \<Longrightarrow> only_queue w u \<Longrightarrow> run_state (h job) u = (Some e, v) \<Longrightarrow>
    served h v tr w' \<Longrightarrow> served h w (Unacked m e # tr) w'"
| served_acked: "carried_job m = Some job \<Longrightarrow> only_queue w u \<Longrightarrow> run_state (h job) u = (None, v) \<Longrightarrow>
    only_queue v v' \<Longrightarrow> served h v' tr w' \<Longrightarrow> served h w (Acked m # tr) w'"
| served_commitfailed: "carried_job m = Some job \<Longrightarrow> only_queue w u \<Longrightarrow> run_state (h job) u = (None, v) \<Longrightarrow>
    only_queue v v' \<Longrightarrow> served h v' tr w' \<Longrightarrow> served h w (CommitFailed m e # tr) w'"

lemma only_queue_upd: "run_state (queue_upd f) w = (a, w') \<Longrightarrow> only_queue w w'"
  by (auto simp: only_queue_def queue_upd_def next_ext_def split: prod.splits)

lemma only_queue_trans: "only_queue w u \<Longrightarrow> only_queue u v \<Longrightarrow> only_queue w v"
  unfolding only_queue_def by (cases w; cases u; cases v) simp

lemma kafka_deliver_served:
  assumes "only_queue w u" "run_state (kafka_deliver C h m) u = (r, w1)" "served h w1 tr w'"
  shows "served h w (r # tr) w'"
proof -
  obtain ok job where d: "Unmarshal QueuedJob_fields QueuedJob_zero (jm_Value (fm_Message m)) = (ok, job)" by (metis surj_pair)
  let ?commit = "queue_upd (\<lambda>x. kafka_commit C x m)"
  obtain e v where h: "run_state (h job) u = (e, v)" by (metis surj_pair)
  show ?thesis
  proof (cases ok)
    case False
    obtain c u1 where c: "run_state ?commit u = (c, u1)" by (metis surj_pair)
    with False assms(2) d have "r = Skipped m" "w1 = u1" by (simp_all add: kafka_deliver_def)
    moreover have "carried_job m = None" using False d by (simp add: carried_job_def)
    ultimately show ?thesis
      using served_skipped only_queue_trans [OF assms(1) only_queue_upd [OF c]] assms(3) by blast
  next
    case True
    then have j: "carried_job m = Some job" using d by (simp add: carried_job_def)
    obtain c v1 where c: "run_state ?commit v = (c, v1)" by (metis surj_pair)
    have "r = (case e of Some err \<Rightarrow> Unacked m err
        | None \<Rightarrow> (case c of Some err \<Rightarrow> CommitFailed m err | None \<Rightarrow> Acked m)) \<and> w1 = (case e of Some err \<Rightarrow> v | None \<Rightarrow> v1)"
      using assms(2) True d h c by (simp add: kafka_deliver_def split: option.splits)
    with j assms(1,3) h only_queue_upd [OF c] show ?thesis
      by (cases e; cases c) (auto intro: served.intros)
  qed
qed

lemma kafka_round_served:
  assumes "run_state (kafka_round C h) w = (r, w1)" "served h w1 tr w'"
  shows "served h w (r # tr) w'"
proof -
  obtain f u where f: "run_state (queue_upd (kafka_fetch C)) w = (f, u)" by (metis surj_pair)
  show ?thesis
  proof (cases f)
    case (Inl e)
    with f assms(1) have "r = FetchFailed e" "w1 = u" by (simp_all add: kafka_round_def)
    with served_failed [OF only_queue_upd [OF f]] assms(2) show ?thesis by blast
  next
    case (Inr m)
    with f assms(1) have "run_state (kafka_deliver C h m) u = (r, w1)" by (simp add: kafka_round_def)
    from kafka_deliver_served [OF only_queue_upd [OF f] this assms(2)] show ?thesis .
  qed
qed

lemma kafka_StartConsumer_served:
  assumes "run_state (kafka_StartConsumer C h n) w = (tr, w')"
  shows "served h w tr w' \<and> (length tr = n \<or> tr \<noteq> [] \<and> round_ends (last tr))"
  using assms
proof (induction n arbitrary: w tr)
  case 0
  then show ?case by (simp add: served_end)
next
  case (Suc n)
  obtain r w1 where r: "run_state (kafka_round C h) w = (r, w1)" by (metis surj_pair)
  obtain rs w2 where rs: "run_state (kafka_StartConsumer C h n) w1 = (rs, w2)" by (metis surj_pair)
  show ?case
  proof (cases "round_ends r")
    case True
    with Suc.prems r have "tr = [r]" "w' = w1" by simp_all
    with True kafka_round_served [OF r served_end] show ?thesis by simp
  next
    case False
    with Suc.prems r rs have "tr = r # rs" "w' = w2" by simp_all
    with Suc.IH [of w1 rs] rs kafka_round_served [OF r] show ?thesis by auto
  qed
qed

text \<open>The scheduler's handler does not touch the queue.\<close>

lemma queue_same_calls:
  "keeps (\<lambda>w. w_queue w = q) next_ext" "keeps (\<lambda>w. w_queue w = q) (store_get g)" "keeps (\<lambda>w. w_queue w = q) (store_upd f)"
  "keeps (\<lambda>w. w_queue w = q) (modifyS (upd_worker wid u))" "keeps (\<lambda>w. w_queue w = q) (modifyS (\<lambda>w. w\<lparr>w_sent := v w\<rparr>))"
  by (simp_all add: keeps_def next_ext_def store_get_def store_upd_def upd_worker_def split_beta split: option.split)

lemma handleQueuedJob_queue: "keeps (\<lambda>w. w_queue w = q) (handleQueuedJob D m)"
  unfolding handleQueuedJob_def assign_job_def push_job_def start_job_def getJob_def pickWorker_def emit_def
    updateJobState_def client_ExecuteJob_def new_uuid_def time_now_def
  by (intro keeps_rules queue_same_calls)

end
