(* ===== verification/Wire.thy ===== *)
theory Wire
  imports Config KafkaQueue MemQueue PgOutbox
begin

text \<open>
  The queue registry, \<^verbatim>\<open>internal/queue/registry.go\<close>, and the wiring of a process,
  \<^verbatim>\<open>internal/app/wire.go\<close>. The container library \<open>nexus\<close> builds every declared service at most once, by calling
  the constructor declared for it: a service is the value of its constructor, and what the
  library's own validation returns is an argument. Constructors that open connections take what opening
  them returned.
\<close>

section \<open>The queue registry\<close>

text \<open>The queue implementations the program has, behind the interface \<open>domain.Queue\<close>.\<close>

datatype 'k AnyQueue = IsKafka "'k KafkaQueue" | IsMemory MemQueue

record FactoryConfig =
  fc_Backend :: string
  fc_KafkaBrokers :: "string list"
  fc_KafkaTopic :: string
  fc_KafkaGroup :: string
  fc_PostgresDSN :: string
  fc_RedisAddr :: string

type_synonym 'k factories = "(string, FactoryConfig \<Rightarrow> 'k AnyQueue res) gomap"

definition Register_queue :: "string \<Rightarrow> (FactoryConfig \<Rightarrow> 'k AnyQueue res) \<Rightarrow> 'k factories \<Rightarrow> 'k factories" where
  "Register_queue name factory m = gput name factory m"

definition new_kafka :: "'k \<Rightarrow> string list \<Rightarrow> string \<Rightarrow> string \<Rightarrow> 'k AnyQueue res" where
  "new_kafka k brokers topic grp =
     (case kafka_New \<lparr>kq_Brokers = brokers, kq_Topic = topic, kq_Group = grp\<rparr> k of
        Inl e \<Rightarrow> Inl e | Inr q \<Rightarrow> Inr (IsKafka q))"

definition factories_init :: "'k \<Rightarrow> 'k factories" where
  "factories_init k =
     Register_queue ''memory'' (\<lambda>cfg. Inr (IsMemory mq_New))
       (Register_queue ''kafka'' (\<lambda>cfg. new_kafka k (fc_KafkaBrokers cfg) (fc_KafkaTopic cfg) (fc_KafkaGroup cfg)) [])"

definition List_queues :: "order \<Rightarrow> 'k factories \<Rightarrow> string list" where
  "List_queues ord m = map fst (range_map ord m)"

text \<open>The text of a list of strings (\<open>%v\<close>).\<close>

fun join_spaces :: "string list \<Rightarrow> string" where
  "join_spaces [] = ''''"
| "join_spaces [s] = s"
| "join_spaces (s # t # ss) = s @ '' '' @ join_spaces (t # ss)"

definition New_queue :: "order \<Rightarrow> 'k factories \<Rightarrow> FactoryConfig \<Rightarrow> 'k AnyQueue res" where
  "New_queue ord m cfg =
     (let backend = (if fc_Backend cfg = '''' then ''kafka'' else fc_Backend cfg) in
      case map_of m backend of
        None \<Rightarrow> Inl (ErrMsg (''unknown queue backend '' @ quote_go backend @ '' (registered: ['' @
                              join_spaces (List_queues ord m) @ ''])''))
      | Some factory \<Rightarrow> factory cfg)"


section \<open>Constructors\<close>

definition newJobStore :: "pgx \<Rightarrow> Error option \<Rightarrow> PgDB JobStore res" where
  "newJobStore P opened = (case opened of Some e \<Rightarrow> Inl e | None \<Rightarrow> Inr (postgres_store P))"

text \<open>The type assertion gives the store itself where it is the PostgreSQL store.\<close>

definition newEventPublisher :: "'s JobStore option \<Rightarrow> Config \<Rightarrow> 's EventPublisher" where
  "newEventPublisher ps cfg =
     (case ps of None \<Rightarrow> NoopPublisher | Some S \<Rightarrow> NewPublisher (Some S) (sch_ID (cf_Scheduler cfg)))"

definition newKafkaQueue :: "'k \<Rightarrow> Config \<Rightarrow> 'k AnyQueue res" where
  "newKafkaQueue k cfg =
     new_kafka k (qc_KafkaBrokers (cf_Queue cfg)) (qc_KafkaTopic (cf_Queue cfg)) (qc_KafkaGroup (cf_Queue cfg))"

definition newMemoryQueue :: "'k AnyQueue res" where
  "newMemoryQueue = Inr (IsMemory mq_New)"

definition newActiveQueue :: "order \<Rightarrow> 'k factories \<Rightarrow> 'k \<Rightarrow> Config \<Rightarrow> 'k AnyQueue res" where
  "newActiveQueue ord m k cfg =
     (let backend = (if qc_Backend (cf_Queue cfg) = '''' then ''kafka'' else qc_Backend (cf_Queue cfg)) in
      if backend = ''kafka'' then newKafkaQueue k cfg
      else if backend = ''memory'' then newMemoryQueue
      else New_queue ord m
             \<lparr>fc_Backend = backend, fc_KafkaBrokers = qc_KafkaBrokers (cf_Queue cfg),
              fc_KafkaTopic = qc_KafkaTopic (cf_Queue cfg), fc_KafkaGroup = qc_KafkaGroup (cf_Queue cfg),
              fc_PostgresDSN = '''', fc_RedisAddr = ''''\<rparr>)"

definition Register_app :: "env \<Rightarrow> string \<Rightarrow> int \<Rightarrow> Error option \<Rightarrow> string \<Rightarrow> (Config \<times> Authenticator) res" where
  "Register_app env host pid validated serviceName =
     (let cfg = Load env host pid serviceName in
      case validated of
        Some e \<Rightarrow> Inl (ErrMsg (''nexus validate: '' @ Error_text e))
      | None \<Rightarrow>
          Inr (cfg, auth_New (uc_APIKeys (cf_Auth cfg)) (uc_WorkerTokens (cf_Auth cfg)) (uc_Disabled (cf_Auth cfg))))"

datatype Level = LevelDebug | LevelInfo | LevelWarn | LevelError

definition Logger_level :: "env \<Rightarrow> Level" where
  "Logger_level env =
     (let v = env ''CHRONOS_LOG_LEVEL'' in
      if v = ''debug'' then LevelDebug
      else if v = ''warn'' then LevelWarn
      else if v = ''error'' then LevelError
      else LevelInfo)"

text \<open>The scheduler and the API of a process that runs on PostgreSQL.\<close>

definition pg_service ::
    "pgx \<Rightarrow> Config \<Rightarrow> 'q Queue \<Rightarrow> cronlib \<Rightarrow> (rat \<Rightarrow> int) \<Rightarrow> (PgDB, 'q) Service" where
  "pg_service P cfg Q C conv =
     \<lparr>sv_cfg = cf_Scheduler cfg, sv_store = postgres_store P, sv_queue = Q,
      sv_events = newEventPublisher (Some (postgres_store P)) cfg, sv_cron = C, sv_conv = conv\<rparr>"

lemma pg_service_sel [simp]:
  "sv_store (pg_service P cfg Q C conv) = postgres_store P"
  "sv_events (pg_service P cfg Q C conv) = NewPublisher (Some (postgres_store P)) (sch_ID (cf_Scheduler cfg))"
  by (simp_all add: pg_service_def newEventPublisher_def)


section \<open>Properties\<close>

text \<open>The registry as it is after initialisation.\<close>

lemma New_queue_init:
  "New_queue ord (factories_init k) cfg =
     (if fc_Backend cfg \<in> {'''', ''kafka''}
      then new_kafka k (fc_KafkaBrokers cfg) (fc_KafkaTopic cfg) (fc_KafkaGroup cfg)
      else if fc_Backend cfg = ''memory'' then Inr (IsMemory mq_New)
      else Inl (ErrMsg (''unknown queue backend '' @ quote_go (fc_Backend cfg) @ '' (registered: ['' @
                join_spaces (List_queues ord (factories_init k)) @ ''])'')))"
  by (auto simp: New_queue_def factories_init_def Register_queue_def Let_def gput_def)

text \<open>The queue a process gets is the one the registry would build.\<close>

lemma newActiveQueue_registry:
  "newActiveQueue ord (factories_init k) k cfg =
     New_queue ord (factories_init k)
       \<lparr>fc_Backend = qc_Backend (cf_Queue cfg), fc_KafkaBrokers = qc_KafkaBrokers (cf_Queue cfg),
        fc_KafkaTopic = qc_KafkaTopic (cf_Queue cfg), fc_KafkaGroup = qc_KafkaGroup (cf_Queue cfg),
        fc_PostgresDSN = '''', fc_RedisAddr = ''''\<rparr>"
  by (auto simp: newActiveQueue_def New_queue_init newKafkaQueue_def newMemoryQueue_def Let_def)

text \<open>
  C40 (credentials from the environment): whatever the environment holds, a process that was wired accepts an API key or
  worker token only when it is one of the entries of the configured list, or when
  \<open>CHRONOS_AUTH_DISABLED\<close> is set to a true value. An entry is never empty and never has space around it:
  an empty credential does not get in, not even when the list is set to commas and blanks.
\<close>

theorem credentials_from_env:
  assumes "Register_app env host pid validated service = Inr (cfg, a)"
    and "ParseBool (env ''CHRONOS_AUTH_DISABLED'') \<noteq> Some True"
  shows "(ValidAPIKey a key \<longleftrightarrow> key \<in> set (splitCSV (getEnv env ''CHRONOS_API_KEYS'' ''dev-api-key-change-me''))) \<and>
         (ValidWorkerToken a key \<longleftrightarrow> key \<in> set (splitCSV (getEnv env ''CHRONOS_WORKER_TOKENS'' ''dev-worker-token-change-me''))) \<and>
         (ValidAPIKey a key \<or> ValidWorkerToken a key \<longrightarrow> key \<noteq> '''' \<and> TrimSpace key = key)"
proof -
  have a: "a = auth_New (splitCSV (getEnv env ''CHRONOS_API_KEYS'' ''dev-api-key-change-me''))
      (splitCSV (getEnv env ''CHRONOS_WORKER_TOKENS'' ''dev-worker-token-change-me'')) (getBool env ''CHRONOS_AUTH_DISABLED'' False)"
    using assms(1) by (auto simp: Register_app_def Load_def load_auth_def Let_def split: option.splits)
  have "getBool env ''CHRONOS_AUTH_DISABLED'' False = False"
    using assms(2) by (auto simp: getBool_def Let_def split: option.splits)
  then show ?thesis
    unfolding a ValidAPIKey_New ValidWorkerToken_New using splitCSV_entry by auto
qed

definition demo_getenv :: env where
  "demo_getenv key =
     (if key = ''CHRONOS_API_KEYS'' then '' , ,k1 ,k2'' else if key = ''CHRONOS_AUTH_DISABLED'' then ''no'' else '''')"

theorem credentials_from_env_witness:
  "let a = snd (projr (Register_app demo_getenv ''h'' 7 None ''api'')) in
   ValidAPIKey a ''k1'' \<and> \<not> ValidAPIKey a '''' \<and> \<not> ValidAPIKey a '' '' \<and> ValidWorkerToken a ''dev-worker-token-change-me''"
proof -
  let ?r = "Register_app demo_getenv ''h'' 7 None ''api''"
  have r: "?r = Inr (fst (projr ?r), snd (projr ?r))" by (simp add: Register_app_def Let_def)
  have p: "ParseBool (demo_getenv ''CHRONOS_AUTH_DISABLED'') \<noteq> Some True" by code_simp
  note c = credentials_from_env [OF r p]
  have "''k1'' \<in> set (splitCSV (getEnv demo_getenv ''CHRONOS_API_KEYS'' ''dev-api-key-change-me''))"
    "''dev-worker-token-change-me'' \<in> set (splitCSV (getEnv demo_getenv ''CHRONOS_WORKER_TOKENS'' ''dev-worker-token-change-me''))"
    "'' '' \<notin> set (splitCSV (getEnv demo_getenv ''CHRONOS_API_KEYS'' ''dev-api-key-change-me''))" by code_simp+
  then show ?thesis unfolding Let_def using c [of "''k1''"] c [of "''''"] c [of "'' ''"] c [of "''dev-worker-token-change-me''"] by blast
qed

end
