(* ===== verification/KafkaProps.thy ===== *)
theory KafkaProps
  imports KafkaQueue SchedulerProps
begin

text \<open>
  The properties of the Kafka queue with the scheduler's handler as its consumer, and a run in which
  a message is acknowledged without having been handled.
\<close>

section \<open>A client with one partition\<close>

record Broker =
  br_log :: "JobMessage list"
  br_pos :: "nat \<Rightarrow> nat"
  br_committed :: "nat \<Rightarrow> nat"

definition one_partition :: "Broker KafkaClient" where
  "one_partition =
     \<lparr>kl_WriteMessages = (\<lambda>x topic ms k. (None, k\<lparr>br_log := br_log k @ ms\<rparr>)),
      kl_FetchMessage = (\<lambda>x topic k.
        if br_pos k 0 < length (br_log k)
        then (Inr \<lparr>fm_Partition = 0, fm_Offset = br_pos k 0, fm_Message = br_log k ! br_pos k 0\<rparr>,
              k\<lparr>br_pos := (br_pos k)(0 := Suc (br_pos k 0))\<rparr>)
        else (Inl ErrDeadlineExceeded, k)),
      kl_CommitMessages = (\<lambda>x ms k.
        (None, k\<lparr>br_committed := (br_committed k)(fm_Partition (last ms) := Suc (fm_Offset (last ms)))\<rparr>)),
      kl_Close = (\<lambda>k. (None, k))\<rparr>"

lemma reader_ok_one: "reader_ok one_partition br_pos br_committed"
  by (auto simp: reader_ok_def one_partition_def split: if_splits)

text \<open>A new reader of the group starts at the group's offset.\<close>

definition rejoin :: "Broker \<Rightarrow> Broker" where
  "rejoin k = k\<lparr>br_pos := br_committed k\<rparr>"

definition kafka_demo :: "(Store, Broker KafkaQueue) Service" where
  "kafka_demo =
     \<lparr>sv_cfg = demo_cfg, sv_store = memory_store, sv_queue = kafka_queue one_partition, sv_events = NoopPublisher,
      sv_cron = demo_cron, sv_conv = (\<lambda>_. 0)\<rparr>"

text \<open>Two queued jobs, their messages on the topic, and no worker yet.\<close>

definition queued_demo :: "string \<Rightarrow> Job" where
  "queued_demo i = demo_job\<lparr>job_ID := i, job_State := JobStateQueued, job_Timeout := Second\<rparr>"

definition kafka_world :: "(Store, Broker KafkaQueue) World" where
  "kafka_world =
     NewService (mem_New\<lparr>st_jobs := [(''a'', queued_demo ''a''), (''b'', queued_demo ''b'')]\<rparr>)
       \<lparr>kq_cfg = \<lparr>kq_Brokers = [''k:9092''], kq_Topic = ''t'', kq_Group = ''g''\<rparr>, kq_closed = False,
        kq_client = \<lparr>br_log = [job_message 7 (queued_job 7 (queued_demo ''a'')), job_message 7 (queued_job 7 (queued_demo ''b''))],
                     br_pos = (\<lambda>_. 0), br_committed = (\<lambda>_. 0)\<rparr>, kq_timers = []\<rparr> (\<lambda>_. ext0)"

text \<open>
  The first message finds no worker and is not acknowledged. Then a worker registers, and the second
  message is handled and acknowledged.
\<close>

definition kafka_failed :: "(Store, Broker KafkaQueue) World" where
  "kafka_failed = exec (kafka_StartConsumer one_partition (handleQueuedJob kafka_demo) 1) kafka_world"

definition kafka_served :: "(Store, Broker KafkaQueue) World" where
  "kafka_served = exec (kafka_StartConsumer one_partition (handleQueuedJob kafka_demo) 1)
     (exec (RegisterWorker kafka_demo demo_worker) kafka_failed)"

lemma kafka_unacked_lost:
  "outcome (kafka_StartConsumer one_partition (handleQueuedJob kafka_demo) 1) kafka_world =
     [Unacked \<lparr>fm_Partition = 0, fm_Offset = 0, fm_Message = job_message 7 (queued_job 7 (queued_demo ''a''))\<rparr> ErrNoWorker]"
  "br_committed (kq_client (w_queue kafka_failed)) 0 = 0"
  "br_committed (kq_client (w_queue kafka_served)) 0 = 2"
  "map_option job_State (map_of (st_jobs (w_store kafka_served)) ''a'') = Some JobStateQueued"
  "fst (kl_FetchMessage one_partition ext0 ''t'' (rejoin (kq_client (w_queue kafka_served)))) = Inl ErrDeadlineExceeded"
  "map_option job_State (map_of (st_jobs (w_store (exec (poll_tick kafka_demo) kafka_served))) ''a'') = Some JobStateQueued"
  by code_simp+


section \<open>Properties\<close>

text \<open>
  C14 (what the Kafka consumer acknowledges has been delivered): the rounds of a run of the consumer with
  the scheduler's handler tell what happened. The handler was called exactly once for each round whose
  message could be decoded, with the job of that message and in that order; the round is unacknowledged
  with the handler's error, or the handler succeeded and the commit was tried. A message is skipped
  only if it cannot be decoded. The run has the number of rounds asked for unless a fetch or a commit
  failed in its last one. And when the reader starts at its group's offset in a partition, every
  message that lies before the group's offset of the partition at the end, and did not at the start,
  has been fetched in one of the rounds, also when other commits failed: none is acknowledged unseen.
  (The commit of a message also acknowledges earlier ones the handler refused: they were handed over,
  but not handled.)
\<close>

theorem kafka_acks_delivered:
  assumes "reader_ok C pos committed"
    and "run_state (kafka_StartConsumer C (handleQueuedJob D) n) w = (tr, w')"
  shows "served (handleQueuedJob D) w tr w' \<and> (length tr = n \<or> tr \<noteq> [] \<and> round_ends (last tr)) \<and>
    (\<forall>p i. pos (kq_client (w_queue w)) p = committed (kq_client (w_queue w)) p \<longrightarrow>
       committed (kq_client (w_queue w)) p \<le> i \<longrightarrow> i < committed (kq_client (w_queue w')) p \<longrightarrow>
       (\<exists>r m. r \<in> set tr \<and> round_message r = Some m \<and> fm_Partition m = p \<and> fm_Offset m = i))"
proof (intro conjI allI impI)
  fix p i
  assume a: "pos (kq_client (w_queue w)) p = committed (kq_client (w_queue w)) p"
    "committed (kq_client (w_queue w)) p \<le> i" "i < committed (kq_client (w_queue w')) p"
  have "consumed pos committed (kq_client (w_queue w)) tr (kq_client (w_queue w'))"
    by (rule wp_runD [OF wp_StartConsumer [OF assms(1) handleQueuedJob_queue] assms(2)])
  then have "\<And>n. pos (kq_client (w_queue w)) p \<le> n \<Longrightarrow> n < pos (kq_client (w_queue w')) p \<Longrightarrow> delivered tr p n"
    "committed (kq_client (w_queue w')) p = committed (kq_client (w_queue w)) p \<or>
     committed (kq_client (w_queue w')) p \<le> pos (kq_client (w_queue w')) p"
    unfolding consumed_def by blast+
  with a have "delivered tr p i" by auto
  then show "\<exists>r m. r \<in> set tr \<and> round_message r = Some m \<and> fm_Partition m = p \<and> fm_Offset m = i"
    unfolding delivered_def by blast
qed (use kafka_StartConsumer_served [OF assms(2)] in blast)+

theorem kafka_acks_delivered_witness:
  "served (handleQueuedJob kafka_demo) (exec (RegisterWorker kafka_demo demo_worker) kafka_world)
     (outcome (kafka_StartConsumer one_partition (handleQueuedJob kafka_demo) 2) (exec (RegisterWorker kafka_demo demo_worker) kafka_world))
     (exec (kafka_StartConsumer one_partition (handleQueuedJob kafka_demo) 2) (exec (RegisterWorker kafka_demo demo_worker) kafka_world)) \<and>
   (\<exists>r m. r \<in> set (outcome (kafka_StartConsumer one_partition (handleQueuedJob kafka_demo) 2)
                    (exec (RegisterWorker kafka_demo demo_worker) kafka_world)) \<and>
         round_message r = Some m \<and> fm_Partition m = 0 \<and> fm_Offset m = 1)"
proof -
  let ?m = "kafka_StartConsumer one_partition (handleQueuedJob kafka_demo) 2"
    and ?w = "exec (RegisterWorker kafka_demo demo_worker) kafka_world"
  have c: "br_committed (kq_client (w_queue ?w)) 0 = 0" "br_committed (kq_client (w_queue (exec ?m ?w))) 0 = 2" by code_simp+
  have p: "br_pos (kq_client (w_queue ?w)) 0 = br_committed (kq_client (w_queue ?w)) 0"
    by code_simp
  have "run_state ?m ?w = (outcome ?m ?w, exec ?m ?w)" by simp
  note k = kafka_acks_delivered [OF reader_ok_one this]
  show ?thesis
    by (rule conjI [OF conjunct1 [OF k]], rule conjunct2 [OF conjunct2 [OF k], rule_format, OF p]) (simp_all only: c)
qed

text \<open>
  C35 (queue messages survive Kafka): what \<open>Enqueue\<close> hands to the Kafka writer is one message that decodes to the
  job it was given, with the time of the call where the job had none, and carries the job's
  identifier as its key; the result is the writer's. A closed queue refuses the job and writes
  nothing.
\<close>

theorem kafka_Enqueue_roundtrip:
  assumes "wf_queued job" "kafka_Enqueue C x job q = (e, q')"
  shows "if kq_closed q then e = Some (ErrMsg ''kafka queue closed'') \<and> q' = q
         else \<exists>m. kl_WriteMessages C x (kq_Topic (kq_cfg q)) [m] (kq_client q) = (e, kq_client q') \<and>
                  Unmarshal QueuedJob_fields QueuedJob_zero (jm_Value m) =
                    (True, if qj_EnqueuedAt job = 0 then job\<lparr>qj_EnqueuedAt := x_now x 0\<rparr> else job) \<and>
                  jm_Key m = qj_JobID job"
proof -
  let ?j = "if qj_EnqueuedAt job = 0 then job\<lparr>qj_EnqueuedAt := x_now x 0\<rparr> else job"
  have "Unmarshal QueuedJob_fields QueuedJob_zero (jm_Value (job_message t ?j)) = (True, ?j)" for t
    using assms(1) by (simp add: job_message_def QueuedJob_roundtrip wf_queued_def)
  moreover have "jm_Key (job_message t ?j) = qj_JobID job" for t by (simp add: job_message_def)
  moreover have "kl_WriteMessages C x (kq_Topic (kq_cfg q)) [job_message (x_now x 1) ?j] (kq_client q) = (e, kq_client q')"
    if "\<not> kq_closed q"
    using assms(2) that by (auto simp: kafka_Enqueue_def Let_def split: prod.splits)
  moreover have "e = Some (ErrMsg ''kafka queue closed'') \<and> q' = q" if "kq_closed q"
    using assms(2) that by (simp add: kafka_Enqueue_def)
  ultimately show ?thesis by (cases "kq_closed q") (simp only: if_True, simp only: if_False, blast)
qed

theorem kafka_Enqueue_roundtrip_witness:
  "\<exists>m. kl_WriteMessages one_partition ext0 ''t'' [m] (kq_client (w_queue kafka_world)) =
         (None, kq_client (snd (kafka_Enqueue one_partition ext0 (queued_job 7 (queued_demo ''b'')) (w_queue kafka_world)))) \<and>
       jm_Key m = ''b''"
proof -
  let ?j = "queued_job 7 (queued_demo ''b'')" and ?q = "w_queue kafka_world"
  have o: "kq_closed ?q = False" "kq_Topic (kq_cfg ?q) = ''t''" "qj_JobID ?j = ''b''" by code_simp+
  have e: "kafka_Enqueue one_partition ext0 ?j ?q = (None, snd (kafka_Enqueue one_partition ext0 ?j ?q))"
    by (rule prod_eqI) (simp_all, code_simp)
  have wf: "wf_queued ?j" by code_simp
  from kafka_Enqueue_roundtrip [OF wf e] o show ?thesis by auto
qed

end
