(* ===== verification/Production.thy ===== *)
theory Production
  imports Faults Wire KafkaProps PgProps ApiProps
begin

text \<open>
  The processes of a deployment as one state machine: the API, one or more schedulers, the queue on
  Kafka, the store on PostgreSQL and the publisher that drains its outbox. A step runs one handler to
  its end. Everything outside is arbitrary: every database statement may be executed, refused, or
  executed with its reply lost; Kafka may hand out any message any number of times, lose or
  refuse messages; workers may call in any order; a scheduler may stop at any time and another
  one take over with maps of its own.
\<close>

section \<open>The handlers over a store that may fail, on PostgreSQL\<close>

interpretation pf: faulty_ctx "pg_service P cfg Q C conv" pg_abs pg_inv
  unfolding faulty_ctx_def pg_service_sel
  by (intro conjI pg.job_store_axioms pg_publisher.event_sink_axioms)

text \<open>A scheduler context with a store that answers is one whose store may fail.\<close>

sublocale scheduler_ctx \<subseteq> fail: faulty_ctx D av sinv
  by unfold_locales


section \<open>Steps\<close>

datatype 'k ProdOp =
    PHttp Request "Error option"
  | PRegister RegisterRequest
  | PHeartbeat HeartbeatRequest
  | PDeregister DeregisterRequest
  | PReport ReportResultRequest
  | PTick
  | PRound
  | PTimer nat bool
  | PBroker 'k
  | PProcess "(string, workerConn) gomap" "(string, cancelset) gomap"
  | PDrain KafkaConfig writer kafka_log

definition prod_perform ::
    "(PgDB, 'k KafkaQueue) Server \<Rightarrow> 'k KafkaClient \<Rightarrow> 'k ProdOp \<Rightarrow> (PgDB, 'k KafkaQueue, unit) handler" where
  "prod_perform srv K p =
     (let D = srv_deps srv; a = srv_auth srv in
      case p of
        PHttp req ping \<Rightarrow> do { _ \<leftarrow> Handler srv ping req; ret () }
      | PRegister r \<Rightarrow> do { _ \<leftarrow> grpc_Register D a r; ret () }
      | PHeartbeat r \<Rightarrow> do { _ \<leftarrow> grpc_Heartbeat D a r; ret () }
      | PDeregister r \<Rightarrow> do { _ \<leftarrow> grpc_Deregister D a r; ret () }
      | PReport r \<Rightarrow> do { _ \<leftarrow> grpc_ReportResult D a r; ret () }
      | PTick \<Rightarrow> poll_tick D
      | PRound \<Rightarrow> do { _ \<leftarrow> kafka_round K (handleQueuedJob D); ret () }
      | PTimer i ended \<Rightarrow> queue_upd (\<lambda>x q. ((), kafka_timer K x i ended q))
      | PBroker k \<Rightarrow> queue_upd (\<lambda>x q. ((), q\<lparr>kq_client := k\<rparr>))
      | PProcess ws cs \<Rightarrow> modifyS (\<lambda>w. w\<lparr>w_workers := ws, w_pendingCancels := cs\<rparr>)
      | PDrain kc wr klog \<Rightarrow>
          store_upd (\<lambda>x s. ((), fst (snd (flush kc (sv_store D) wr x (s, klog))))))"

definition prod_outside :: "(nat \<Rightarrow> ext) \<Rightarrow> (PgDB, 'q) World \<Rightarrow> bool" where
  "prod_outside xs w \<longleftrightarrow> (\<forall>n. ext_ok (xs n) \<and> map_of (db_jobs (w_store w)) (x_uuid (xs n) 0) = None)"

inductive prod_run ::
    "(PgDB, 'k KafkaQueue) Server \<Rightarrow> 'k KafkaClient \<Rightarrow> (PgDB, 'k KafkaQueue) World \<Rightarrow> 'k ProdOp list \<Rightarrow>
     (PgDB, 'k KafkaQueue) World \<Rightarrow> bool" for srv K where
  prod_Nil: "prod_run srv K w [] w"
| prod_snoc: "prod_run srv K w ps u \<Longrightarrow> prod_outside xs u \<Longrightarrow>
              exec (prod_perform srv K p) (u\<lparr>w_ext := xs\<rparr>) = w' \<Longrightarrow> prod_run srv K w (ps @ [p]) w'"


section \<open>A finished job is left alone\<close>

lemma flush_jobs_kept: "jobs_kept s (fst (snd (flush kc (postgres_store P) wr x (s, klog))))"
proof -
  have m: "jobs_kept s (snd (pg_MarkOutboxPublished P x ids s))" for ids
    by (cases "publish_loop (pg_time P (x_now x 0)) (x_db x) 0 ids s")
      (auto simp: pg_MarkOutboxPublished_def dest: jobs_kept_publish_loop)
  have "fst (snd (flush kc (postgres_store P) wr x (s, klog))) \<in>
      insert s (range (\<lambda>ids. snd (pg_MarkOutboxPublished P x ids s)))"
    by (auto simp: flush_def split_beta split: sum.split option.split)
  then show ?thesis using m by auto
qed

text \<open>No request of a step uses the idempotency key, unless it is empty.\<close>

definition prod_other_key :: "string \<Rightarrow> 'k ProdOp \<Rightarrow> bool" where
  "prod_other_key key p =
     (case p of
        PHttp req ping \<Rightarrow>
          (case rq_endpoint req of
             PostJobs (Inr r) \<Rightarrow> cr_IdempotencyKey r = '''' \<or> cr_IdempotencyKey r \<noteq> key
           | _ \<Rightarrow> True)
      | _ \<Rightarrow> True)"

lemma cancel_terminal_terminal: "cancel_terminal s \<Longrightarrow> terminal s"
  by (auto simp: cancel_terminal_def terminal_def)

lemma stays_kafka_round:
  assumes "\<And>m. keeps (pf.stays L jid j) (h m)"
  shows "keeps (pf.stays L jid j) (kafka_round K h)"
  unfolding kafka_round_def kafka_deliver_def by (intro keeps_rules pf.stays_queue_upd assms)

lemma stays_prod_perform:
  assumes "srv_deps srv = pg_service P cfg Q C conv" "cancel_terminal (job_State j)" "prod_other_key key p"
  shows "keeps (pf.stays (- {key}) jid j) (prod_perform srv K p)"
proof -
  note t = cancel_terminal_terminal [OF assms(2)]
  show ?thesis
  proof (cases p)
    case (PHttp req ping)
    have "cr_IdempotencyKey r = '''' \<or> cr_IdempotencyKey r \<in> - {key}" if "rq_endpoint req = PostJobs (Inr r)" for r
      using assms(3) that PHttp by (simp add: prod_other_key_def)
    then have "keeps (pf.stays (- {key}) jid j) (Handler srv ping req)" by (rule pf.stays_Handler [OF assms(1,2)])
    with PHttp show ?thesis by (simp add: prod_perform_def Let_def keeps_bind keeps_ret)
  next
    case (PProcess ws cs)
    have "keeps (pf.stays (- {key}) jid j) (modifyS (\<lambda>w. w\<lparr>w_workers := ws, w_pendingCancels := cs\<rparr>))"
      by (rule keeps_modifyS) (simp add: pf.stays_fields)
    with PProcess show ?thesis by (simp add: prod_perform_def)
  next
    case (PDrain kc wr klog)
    have "keeps (pf.stays (- {key}) jid j)
        (store_upd (\<lambda>x s. ((), fst (snd (flush kc (postgres_store P) wr x (s, klog))))))"
      by (rule pf.stays_frame) (use jobs_keptD [OF flush_jobs_kept] in auto)
    with PDrain assms(1) show ?thesis by (simp add: prod_perform_def Let_def)
  qed (simp_all add: prod_perform_def assms(1) keeps_bind keeps_ret pf.stays_grpc(1-3) pf.stays_grpc(4) [OF t]
      pf.stays_poll_tick [OF t] stays_kafka_round pf.stays_handleQueuedJob [OF t] pf.stays_queue_upd)
qed

text \<open>The job, and no key but its own leads to it.\<close>

definition prod_job :: "string \<Rightarrow> Job \<Rightarrow> PgDB \<Rightarrow> bool" where
  "prod_job jid j d \<longleftrightarrow>
     pg_inv d \<and> a_jobs (pg_abs d) jid = Some j \<and>
     (\<forall>key\<in>- {job_IdempotencyKey j}. a_keys (pg_abs d) key \<noteq> Some jid)"

lemma prod_job_init:
  assumes "pg_inv d" "map_of (db_jobs d) jid = Some r"
  shows "prod_job jid (scanJob r) d"
proof -
  have "key = job_IdempotencyKey (scanJob r)" if "a_keys (pg_abs d) key = Some jid" for key
  proof -
    from that obtain r' where r': "row_by_key key (db_jobs d) = Some r'" "jr_id r' = jid" by auto
    have "jobs_ok (db_jobs d)" using assms(1) by (simp add: pg_inv_def)
    from row_by_key_iff [OF this] r' assms(2) show ?thesis by (auto simp: scanJob_def coalesce_def)
  qed
  with assms show ?thesis by (auto simp: prod_job_def)
qed

lemma prod_job_stays:
  "prod_job jid j (w_store w) \<Longrightarrow> prod_outside xs w \<Longrightarrow>
   pf.stays (- {job_IdempotencyKey j}) jid j (w\<lparr>w_ext := xs\<rparr>)"
  by (auto simp: prod_job_def pf.stays_def sound_world_def exts_ok_def prod_outside_def)

lemma stays_prod_job: "pf.stays (- {job_IdempotencyKey j}) jid j w \<Longrightarrow> prod_job jid j (w_store w)"
  by (simp add: prod_job_def pf.stays_def sound_world_def)

lemma prod_run_job:
  assumes "prod_run srv K w ps w'" "srv_deps srv = pg_service P cfg Q C conv" "cancel_terminal (job_State j)"
    and "\<And>p. p \<in> set ps \<Longrightarrow> prod_other_key (job_IdempotencyKey j) p" "prod_job jid j (w_store w)"
  shows "prod_job jid j (w_store w')"
  using assms(1,4,5)
proof (induction rule: prod_run.induct)
  case (prod_snoc w ps u xs p w')
  then have "prod_job jid j (w_store u)" by simp
  then have "pf.stays (- {job_IdempotencyKey j}) jid j (u\<lparr>w_ext := xs\<rparr>)" by (rule prod_job_stays [OF _ prod_snoc.hyps(2)])
  then have "pf.stays (- {job_IdempotencyKey j}) jid j (exec (prod_perform srv K p) (u\<lparr>w_ext := xs\<rparr>))"
    by (rule keepsD [OF stays_prod_perform [OF assms(2,3)], rotated]) (simp add: prod_snoc.prems(1))
  then show ?case unfolding prod_snoc.hyps(3) by (rule stays_prod_job)
qed simp


definition demo_prod :: "(PgDB, Broker KafkaQueue) Server" where
  "demo_prod =
     \<lparr>srv_deps = pg_service demo_pgx (Load (\<lambda>_. '''') ''h'' 1 ''scheduler'') (kafka_queue one_partition) demo_cron (\<lambda>_. 0),
      srv_auth = auth_New [] [] True, srv_backends = [''kafka''], srv_analytics = None, srv_lib = demo_lib\<rparr>"

definition demo_done :: JobRow where
  "demo_done = job_row demo_pgx (demo_pg_job\<lparr>job_ID := ''d'', job_State := JobStateCompleted\<rparr>)"

definition demo_prod_world :: "(PgDB, Broker KafkaQueue) World" where
  "demo_prod_world =
     (NewService (pg_empty\<lparr>db_jobs := [(''d'', demo_done)]\<rparr>)
        ((w_queue kafka_world)\<lparr>kq_client := \<lparr>br_log = [job_message 7 (queued_job 7 (scanJob demo_done))],
            br_pos = (\<lambda>_. 0), br_committed = (\<lambda>_. 0)\<rparr>\<rparr>) (\<lambda>_. ext0))
       \<lparr>w_workers := [(''w'', \<lparr>wc_info = demo_worker\<rparr>)]\<rparr>"

definition demo_lost :: "nat \<Rightarrow> ext" where
  "demo_lost n = ext0\<lparr>x_db := \<lambda>i. if i = 1 then DbLost ErrDeadlineExceeded else DbOk\<rparr>"

text \<open>The message of the finished job is delivered again, and a client tries to cancel it, on a database that loses replies.\<close>

definition demo_prod_ops :: "Broker ProdOp list" where
  "demo_prod_ops = [PRound, PHttp \<lparr>rq_header = [], rq_endpoint = PostCancel ''d''\<rparr> None]"

definition demo_prod_step :: "Broker ProdOp \<Rightarrow> (PgDB, Broker KafkaQueue) World \<Rightarrow> (PgDB, Broker KafkaQueue) World" where
  "demo_prod_step p w = exec (prod_perform demo_prod one_partition p) (w\<lparr>w_ext := demo_lost\<rparr>)"

lemma demo_prod_snoc:
  "prod_run demo_prod one_partition w ps u \<Longrightarrow> map_of (db_jobs (w_store u)) ''u'' = None \<Longrightarrow>
   prod_run demo_prod one_partition w (ps @ [p]) (demo_prod_step p u)"
  unfolding demo_prod_step_def
  by (rule prod_snoc [OF _ _ refl]) (simp_all add: prod_outside_def demo_lost_def ext_ok_def ext0_def)


end
