(* ===== verification/AnalyticsProps.thy ===== *)
theory AnalyticsProps
  imports Analytics
begin

text \<open>
  What the analytics queries count: every event once, however often it was written. The number of rows
  that a query sees of a type, a window or a bucket is the number of distinct sorting keys, so writing
  an event again changes nothing.
\<close>

section \<open>Counting each event once\<close>

lemma final_rows_set: "set (final_rows t) \<subseteq> set t"
  by (induction t) auto

lemma final_keys: "row_key ` set (final_rows t) = row_key ` set t"
proof (induction t)
  case (Cons r t)
  show ?case
  proof (cases "\<exists>r'\<in>set t. row_key r' = row_key r \<and> vr_ingested_at r \<le> vr_ingested_at r'")
    case True
    then obtain r' where "r' \<in> set t" "row_key r' = row_key r" by blast
    then have "row_key r \<in> row_key ` set t" by (metis image_eqI)
    with True Cons show ?thesis by (simp add: insert_absorb)
  next
    case False
    have "row_key ` {x \<in> set (final_rows t). row_key x \<noteq> row_key r} = row_key ` set (final_rows t) - {row_key r}" by auto
    moreover have "final_rows (r # t) = r # filter (\<lambda>r'. row_key r' \<noteq> row_key r) (final_rows t)"
      using False by (simp only: final_rows.simps if_False)
    ultimately show ?thesis using Cons by (simp del: final_rows.simps)
  qed
qed simp

lemma final_distinct: "distinct (map row_key (final_rows t))"
proof (induction t)
  case (Cons r t)
  have "map row_key (filter (\<lambda>r'. row_key r' \<noteq> row_key r) (final_rows t)) =
      filter (\<lambda>k. k \<noteq> row_key r) (map row_key (final_rows t))" by (simp add: filter_map comp_def)
  with Cons show ?case by (simp del: map_map)
qed simp

lemma count_final:
  "count_if (\<lambda>r. P (row_key r)) (final_rows t) = int (card {k \<in> row_key ` set t. P k})"
proof -
  let ?f = "filter (\<lambda>r. P (row_key r)) (final_rows t)"
  have "map row_key ?f = filter P (map row_key (final_rows t))" by (simp add: filter_map comp_def)
  then have d: "distinct (map row_key ?f)" using final_distinct by simp
  have "{k \<in> row_key ` set t. P k} = set (map row_key ?f)" unfolding final_keys [of t, symmetric] by auto
  with distinct_card [OF d] show ?thesis by (simp add: count_if_def)
qed

lemma count_if_filter: "count_if p (filter q xs) = count_if (\<lambda>r. q r \<and> p r) xs"
  by (simp add: count_if_def conj_commute)

definition key_type :: "string \<times> time \<times> string \<Rightarrow> string" where "key_type k = fst k"
definition key_time :: "string \<times> time \<times> string \<Rightarrow> time" where "key_time k = fst (snd k)"

lemma row_key_parts [simp]: "key_type (row_key r) = vr_event_type r" "key_time (row_key r) = vr_event_time r"
  by (simp_all add: key_type_def key_time_def row_key_def)

text \<open>The keys of a window, and those of one type.\<close>

definition window_keys :: "chx \<Rightarrow> TimeRange \<Rightarrow> EventRow list \<Rightarrow> (string \<times> time \<times> string) set" where
  "window_keys H tr t =
     {k \<in> row_key ` set t. ch_arg H (tr_From tr) \<le> key_time k \<and> key_time k < ch_arg H (tr_To tr)}"

lemma count_window:
  "count_if (\<lambda>r. P (row_key r)) (window H tr t) = int (card {k \<in> window_keys H tr t. P k})"
proof -
  let ?Q = "\<lambda>k. (ch_arg H (tr_From tr) \<le> key_time k \<and> key_time k < ch_arg H (tr_To tr)) \<and> P k"
  have "count_if (\<lambda>r. P (row_key r)) (window H tr t) = count_if (\<lambda>r. ?Q (row_key r)) (final_rows t)"
    by (simp add: window_def count_if_filter)
  also have "\<dots> = int (card {k \<in> row_key ` set t. ?Q k})" by (rule count_final)
  also have "{k \<in> row_key ` set t. ?Q k} = {k \<in> window_keys H tr t. P k}" by (auto simp: window_keys_def)
  finally show ?thesis .
qed

lemma count_type:
  "count_if (is_type et) (window H tr t) = int (card {k \<in> window_keys H tr t. key_type k = et})"
  using count_window [of "\<lambda>k. key_type k = et" H tr t] by (simp add: is_type_def [abs_def])

lemma count_bucket:
  "count_if (is_type et) (in_bucket u b (window H tr t)) =
     int (card {k \<in> window_keys H tr t. toStartOf u (key_time k) = b \<and> key_type k = et})"
  using count_window [of "\<lambda>k. toStartOf u (key_time k) = b \<and> key_type k = et" H tr t]
  by (simp add: in_bucket_def count_if_filter is_type_def)

lemma window_times: "vr_event_time ` set (window H tr t) = key_time ` window_keys H tr t"
proof -
  have "row_key ` set (window H tr t) = window_keys H tr t"
    unfolding window_def window_keys_def final_keys [of t, symmetric] by auto
  then have "key_time ` row_key ` set (window H tr t) = key_time ` window_keys H tr t" by simp
  then show ?thesis by (simp add: image_image)
qed

lemma bucket_times_eq: "bucket_times u (window H tr t) = sorted_list_of_set (toStartOf u ` key_time ` window_keys H tr t)"
proof -
  have "set (map (\<lambda>r. toStartOf u (vr_event_time r)) (window H tr t)) = toStartOf u ` vr_event_time ` set (window H tr t)"
    by (simp add: image_image)
  then show ?thesis unfolding bucket_times_def window_times by (simp only:)
qed

lemma window_keys_cong: "row_key ` set t = row_key ` set t' \<Longrightarrow> window_keys H tr t = window_keys H tr t'"
  by (simp add: window_keys_def)

lemma throughput_point_eq:
  "throughput_point u sec (window H tr t) b =
     (let c = (\<lambda>et. int (card {k \<in> window_keys H tr t. toStartOf u (key_time k) = b \<and> key_type k = et})) in
      \<lparr>tp_Bucket = b, tp_Completed = c ''JOB_COMPLETED'', tp_Failed = c ''JOB_FAILED'', tp_Created = c ''JOB_CREATED'',
       tp_RatePerSec = fdiv (float64 (c ''JOB_COMPLETED'')) sec\<rparr>)"
  unfolding throughput_point_def Let_def count_bucket by (rule refl)

lemma Throughput_keys:
  assumes "row_key ` set t = row_key ` set t'"
  shows "Throughput H x tr grain t = Throughput H x tr grain t'"
proof -
  have w: "window_keys H tr t = window_keys H tr t'" by (rule window_keys_cong [OF assms])
  have "map (throughput_point u sec (window H tr t)) (bucket_times u (window H tr t)) =
      map (throughput_point u sec (window H tr t')) (bucket_times u (window H tr t'))" for u sec
    unfolding bucket_times_eq throughput_point_eq w by (rule refl)
  then show ?thesis unfolding Throughput_def Let_def by (simp only:)
qed

lemma throughput_totals_sum:
  "throughput_totals ps (a mod 2 ^ 64, b mod 2 ^ 64, c mod 2 ^ 64) =
     ((a + sum_list (map tp_Completed ps)) mod 2 ^ 64, (b + sum_list (map tp_Failed ps)) mod 2 ^ 64,
      (c + sum_list (map tp_Created ps)) mod 2 ^ 64)"
proof (induction ps arbitrary: a b c)
  case (Cons p ps)
  show ?case using Cons.IH [of "a + tp_Completed p" "b + tp_Failed p" "c + tp_Created p"]
    by (simp add: mod_add_left_eq add.assoc)
qed simp

lemma finite_window_keys [simp]: "finite (window_keys H tr t)"
  by (simp add: window_keys_def)

lemma bucket_sum:
  assumes "finite W"
  shows "sum_list (map (\<lambda>b. int (card {k \<in> W. f k = b \<and> P k})) (sorted_list_of_set (f ` W))) = int (card {k \<in> W. P k})"
proof -
  let ?S = "{k \<in> W. P k}"
  have "sum_list (map (\<lambda>b. int (card {k \<in> W. f k = b \<and> P k})) (sorted_list_of_set (f ` W))) =
      (\<Sum>b\<in>f ` W. int (card {k \<in> W. f k = b \<and> P k}))"
    using assms by (simp add: sum_list_distinct_conv_sum_set)
  also have "\<dots> = (\<Sum>b\<in>f ` W. \<Sum>k | k \<in> ?S \<and> f k = b. 1)"
    by (intro sum.cong refl) (simp add: conj_ac)
  also have "\<dots> = (\<Sum>k\<in>?S. 1)" using assms by (intro sum.group) auto
  finally show ?thesis by simp
qed

lemma throughput_sum:
  "sum_list (map (\<lambda>b. int (card {k \<in> window_keys H tr t. toStartOf u (key_time k) = b \<and> key_type k = et}))
     (sorted_list_of_set (toStartOf u ` key_time ` window_keys H tr t))) =
   int (card {k \<in> window_keys H tr t. key_type k = et})"
  using bucket_sum [of "window_keys H tr t" "\<lambda>k. toStartOf u (key_time k)" "\<lambda>k. key_type k = et"]
  by (simp add: image_image)

lemma window_card: "card {k \<in> window_keys H tr t. P k} \<le> length t"
proof -
  have "card {k \<in> window_keys H tr t. P k} \<le> card (row_key ` set t)" by (intro card_mono) (auto simp: window_keys_def)
  also have "\<dots> \<le> length t" by (metis card_image_le card_length finite_set order_trans)
  finally show ?thesis .
qed

lemma window_mod:
  assumes "length t < 2 ^ 64"
  shows "int (card {k \<in> window_keys H tr t. P k}) mod 2 ^ 64 = int (card {k \<in> window_keys H tr t. P k})"
proof -
  have "card {k \<in> window_keys H tr t. P k} < 2 ^ 64" by (rule order_le_less_trans [OF window_card assms])
  then have "int (card {k \<in> window_keys H tr t. P k}) < int (2 ^ 64)" by (rule of_nat_less_iff [THEN iffD2])
  then show ?thesis unfolding of_nat_power of_nat_numeral by (intro mod_pos_pos_trivial of_nat_0_le_iff)
qed

section \<open>Properties\<close>


text \<open>Writing an event again gives a row with the same key.\<close>

definition stable_event :: "chx \<Rightarrow> Event \<Rightarrow> bool" where
  "stable_event H e \<longleftrightarrow> ch_uuid H (ev_EventID e) \<noteq> None \<and> ev_EventTime e \<noteq> 0"

definition event_key :: "chx \<Rightarrow> Event \<Rightarrow> string \<times> time \<times> string" where
  "event_key H e = (EventType_string (ev_EventType e), ch_time H (ev_EventTime e), the (ch_uuid H (ev_EventID e)))"

lemma row_key_event: "stable_event H e \<Longrightarrow> row_key (event_row H now fresh e) = event_key H e"
  by (auto simp: stable_event_def event_key_def row_key_def event_row_def)

lemma batch_keys:
  "\<forall>e\<in>set es. stable_event H e \<Longrightarrow> row_key ` set (batch_rows H now fresh n es) = event_key H ` set es"
  by (induction es arbitrary: n) (simp_all add: row_key_event)

lemma InsertEvents_table:
  assumes "InsertEvents H x es t = (r, t')"
  shows "t' = t \<or> t' = t @ batch_rows H (x_now x 0) (x_uuid x) 0 es"
    "r = None \<Longrightarrow> t' = t @ batch_rows H (x_now x 0) (x_uuid x) 0 es"
  using assms by (auto simp: InsertEvents_def Let_def split: if_splits DbReply.splits option.splits)

text \<open>
  A sequence of attempts to write a batch, each with its outside values, on a table. Next to the table
  it returns the events whose batches were acknowledged.
\<close>

fun write_batches ::
    "chx \<Rightarrow> (ext \<times> Event list) list \<Rightarrow> Event set \<times> EventRow list \<Rightarrow> Event set \<times> EventRow list" where
  "write_batches H [] s = s"
| "write_batches H ((x, es) # bs) (acked, t) =
     (case InsertEvents H x es t of (r, t') \<Rightarrow>
        write_batches H bs (if r = None then acked \<union> set es else acked, t'))"

definition acked_stored :: "chx \<Rightarrow> Event set \<Rightarrow> EventRow list \<Rightarrow> bool" where
  "acked_stored H acked t \<longleftrightarrow> (\<forall>e\<in>acked. stable_event H e \<longrightarrow> event_key H e \<in> row_key ` set t)"

lemma write_batches_stored:
  "write_batches H bs (acked, t) = (acked', t') \<Longrightarrow> acked_stored H acked t \<Longrightarrow> acked_stored H acked' t'"
proof (induction bs arbitrary: acked t)
  case (Cons b bs)
  obtain x es where b: "b = (x, es)" by (metis surj_pair)
  obtain r u where i: "InsertEvents H x es t = (r, u)" by (metis surj_pair)
  have k: "event_key H e \<in> row_key ` set u" if "stable_event H e" "e \<in> set es" "r = None" for e
  proof -
    have "event_key H e \<in> row_key ` set (batch_rows H (x_now x 0) (x_uuid x) n es)" for n
      using that(1,2) by (induction es arbitrary: n) (auto simp: row_key_event)
    then show ?thesis unfolding InsertEvents_table(2) [OF i that(3)] by auto
  qed
  have "row_key ` set t \<subseteq> row_key ` set u" using InsertEvents_table(1) [OF i] by auto
  with Cons.prems(2) k have "acked_stored H (if r = None then acked \<union> set es else acked) u"
    unfolding acked_stored_def by (cases "r = None") auto
  with Cons.IH Cons.prems(1) b i show ?case by simp
qed simp

lemma write_again_keys:
  "write_batches H bs (acked, t) = (acked', t') \<Longrightarrow> acked_stored H A t \<Longrightarrow>
   \<forall>b\<in>set bs. \<forall>e\<in>set (snd b). e \<in> A \<and> stable_event H e \<Longrightarrow> row_key ` set t' = row_key ` set t"
proof (induction bs arbitrary: acked t)
  case (Cons b bs)
  obtain x es where b: "b = (x, es)" by (metis surj_pair)
  obtain r u where i: "InsertEvents H x es t = (r, u)" by (metis surj_pair)
  have es: "\<forall>e\<in>set es. stable_event H e" "set es \<subseteq> A" using Cons.prems(3) b by auto
  have "event_key H ` set es \<subseteq> row_key ` set t" using es Cons.prems(2) by (auto simp: acked_stored_def)
  with InsertEvents_table(1) [OF i] batch_keys [OF es(1)] have k: "row_key ` set u = row_key ` set t"
    by (elim disjE) (simp_all add: image_Un Un_absorb2)
  then have "acked_stored H A u" using Cons.prems(2) by (simp add: acked_stored_def)
  with Cons.IH Cons.prems(1,3) b i k show ?case by simp
qed simp


definition demo_chx :: chx where
  "demo_chx =
     \<lparr>ch_time = (\<lambda>t. t div Millisecond * Millisecond), ch_arg = (\<lambda>t. t div Second * Second),
      ch_quantile = (\<lambda>l ds. if ds = [] then NaN else Fin (hd ds)), ch_avg = (\<lambda>ds. if ds = [] then NaN else Fin (hd ds)),
      ch_uuid = (\<lambda>s. if s = '''' then None else Some s), ch_Append = (\<lambda>r. None)\<rparr>"

definition demo_event :: "string \<Rightarrow> EventType \<Rightarrow> time \<Rightarrow> Event" where
  "demo_event i et t =
     \<lparr>ev_EventID = i, ev_EventType = et, ev_EventVersion = 1, ev_EventTime = t, ev_IngestedAt = None, ev_JobID = ''j'',
      ev_ExecutionID = '''', ev_WorkerID = ''w'', ev_SchedulerID = '''', ev_Attempt = 1, ev_TraceID = '''',
      ev_Payload = Some (JObj [(''duration_ms'', JInt 12)])\<rparr>"

definition demo_events :: "Event list" where
  "demo_events = [demo_event ''a'' EventJobCompleted (5 * Second), demo_event ''b'' EventJobFailed (70 * Second),
     demo_event ''c'' EventJobCompleted (75 * Second)]"

definition demo_table :: "EventRow list" where
  "demo_table = snd (InsertEvents demo_chx ext0 demo_events [])"

definition demo_table2 :: "EventRow list" where
  "demo_table2 = snd (InsertEvents demo_chx (ext0\<lparr>x_db := \<lambda>n. if n = 0 then DbOk else DbLost ErrDeadlineExceeded\<rparr>) demo_events demo_table)"

definition demo_range :: TimeRange where
  "demo_range = \<lparr>tr_From = 0, tr_To = 100 * Second\<rparr>"



section \<open>Reports that cannot be encoded\<close>

text \<open>
  \<open>encoding/json\<close> has no form for infinities and NaN: a response that holds one is sent with its status
  and an empty body. A metric that was zero in the baseline gives such a ratio; the mean of no durations,
  which ClickHouse returns as NaN, reaches the reports on workers and on capacity unfiltered.
\<close>

definition encodable :: "fl \<Rightarrow> bool" where
  "encodable f \<longleftrightarrow> (case f of Fin r \<Rightarrow> True | _ \<Rightarrow> False)"

lemma check_metric_infinite:
  assumes "0 < c"
  shows "\<exists>a. check_metric metric 0 c warn crit True = [a] \<and> an_Severity a = ''critical'' \<and> \<not> encodable (an_Ratio a)"
  using assms by (simp add: check_metric_def Let_def severity_def fl_ge_def encodable_def)

lemma worker_stats_nan:
  assumes "ch_avg H [] = NaN" "\<And>r. r \<in> set rs \<Longrightarrow> \<not> timed r"
  shows "\<not> encodable (st_AvgMs (worker_stats H rs wid))"
proof -
  have "filter timed (filter (\<lambda>r. vr_worker_id r = wid) rs) = []" using assms(2) by (auto simp: filter_empty_conv)
  with assms(1) show ?thesis by (simp add: worker_stats_def Let_def durations_def encodable_def)
qed

lemma Capacity_nan:
  assumes "ch_avg H [] = NaN" "window H tr t = []" "Capacity H conv x tr target t = Inr r"
  shows "\<not> encodable (cp_AvgPerMinute r)"
  using assms by (auto simp: Capacity_def Let_def reply_def bucket_times_def encodable_def split: DbReply.splits)

end
