(* ===== verification/AnalyticsIngest.thy ===== *)
theory AnalyticsIngest
  imports AnalyticsProps KafkaProps PgStore
begin

text \<open>
  The way of the events into ClickHouse: the consumer of the event topics,
  \<^verbatim>\<open>internal/analytics/consumer.go\<close>, and the replay tool, \<^verbatim>\<open>cmd/event-replay/main.go\<close>. The consumer runs one
  loop per topic; the loops share nothing but the table. Whether the ticker has fired or the context has
  ended when an iteration looks at them is an argument of the iteration. Sleeping and log output have
  no model.
\<close>

section \<open>Events as messages\<close>

definition zeroEvent :: Event where
  "zeroEvent =
     \<lparr>ev_EventID = '''', ev_EventType = EventOther '''', ev_EventVersion = 0, ev_EventTime = 0, ev_IngestedAt = None,
      ev_JobID = '''', ev_ExecutionID = '''', ev_WorkerID = '''', ev_SchedulerID = '''', ev_Attempt = 0, ev_TraceID = '''',
      ev_Payload = None\<rparr>"

definition Event_fields :: "(string \<times> Event setter) list" where
  "Event_fields =
     [(''event_id'', set_string (\<lambda>v e. e\<lparr>ev_EventID := v\<rparr>)),
      (''event_type'', set_string (\<lambda>v e. e\<lparr>ev_EventType := EventType_of v\<rparr>)),
      (''event_version'', set_int (\<lambda>v e. e\<lparr>ev_EventVersion := v\<rparr>)),
      (''event_time'', set_time (\<lambda>v e. e\<lparr>ev_EventTime := v\<rparr>)),
      (''ingested_at'', set_time_ptr (\<lambda>v e. e\<lparr>ev_IngestedAt := v\<rparr>)),
      (''job_id'', set_string (\<lambda>v e. e\<lparr>ev_JobID := v\<rparr>)),
      (''execution_id'', set_string (\<lambda>v e. e\<lparr>ev_ExecutionID := v\<rparr>)),
      (''worker_id'', set_string (\<lambda>v e. e\<lparr>ev_WorkerID := v\<rparr>)),
      (''scheduler_id'', set_string (\<lambda>v e. e\<lparr>ev_SchedulerID := v\<rparr>)),
      (''attempt'', set_int (\<lambda>v e. e\<lparr>ev_Attempt := v\<rparr>)),
      (''trace_id'', set_string (\<lambda>v e. e\<lparr>ev_TraceID := v\<rparr>)),
      (''payload'', set_raw (\<lambda>v e. e\<lparr>ev_Payload := v\<rparr>))]"

definition decode_event :: "rawmsg \<Rightarrow> bool \<times> Event" where
  "decode_event v = Unmarshal Event_fields zeroEvent v"


section \<open>The consumer\<close>

record 'k Ingest =
  in_buf :: "Event list"
  in_msgs :: "Fetched list"
  in_client :: 'k
  in_table :: "EventRow list"

definition batch_size :: nat where "batch_size = 100"

definition ingest_flush :: "'k KafkaClient \<Rightarrow> chx \<Rightarrow> ext \<Rightarrow> 'k Ingest \<Rightarrow> Error option \<times> 'k Ingest" where
  "ingest_flush C H x s =
     (if in_buf s = [] then (None, s)
      else case InsertEvents H x (in_buf s) (in_table s) of
        (Some e, t) \<Rightarrow> (Some e, s\<lparr>in_table := t\<rparr>)
      | (None, t) \<Rightarrow>
          (case kl_CommitMessages C x (in_msgs s) (in_client s) of
             (Some e, k) \<Rightarrow> (Some e, s\<lparr>in_table := t, in_client := k\<rparr>)
           | (None, k) \<Rightarrow> (None, s\<lparr>in_table := t, in_client := k, in_buf := [], in_msgs := []\<rparr>)))"

text \<open>A message that was fetched: the event it was taken for, if any.\<close>

definition ingest_message :: "'k KafkaClient \<Rightarrow> chx \<Rightarrow> ext \<Rightarrow> Fetched \<Rightarrow> 'k Ingest \<Rightarrow> Event option \<times> 'k Ingest" where
  "ingest_message C H x m s =
     (case decode_event (jm_Value (fm_Message m)) of (ok, ev) \<Rightarrow>
        if \<not> ok \<or> ev_EventID ev = ''''
        then (None, s\<lparr>in_client := snd (kl_CommitMessages C x [m] (in_client s))\<rparr>)
        else let s = s\<lparr>in_buf := in_buf s @ [ev], in_msgs := in_msgs s @ [m]\<rparr> in
             (Some ev, if batch_size \<le> length (in_buf s) then snd (ingest_flush C H x s) else s))"

datatype Selected = CtxDone | Ticked | Idle

text \<open>
  One iteration: the outside values of the flush, of the fetch and the rest, and whether the context has ended
  by the time a fetch fails; the flag of the result says that the loop returns.
\<close>

definition ingest_step ::
    "'k KafkaClient \<Rightarrow> chx \<Rightarrow> string \<Rightarrow> Selected \<Rightarrow> bool \<Rightarrow> ext \<Rightarrow> ext \<Rightarrow> 'k Ingest \<Rightarrow> (bool \<times> Event option) \<times> 'k Ingest" where
  "ingest_step C H topic sel ended x y s =
     (case sel of
        CtxDone \<Rightarrow> ((True, None), snd (ingest_flush C H x s))
      | _ \<Rightarrow>
          (let s = (if sel = Ticked then snd (ingest_flush C H x s) else s) in
           case kl_FetchMessage C y topic (in_client s) of
             (Inl e, k) \<Rightarrow> ((ended, None), s\<lparr>in_client := k\<rparr>)
           | (Inr m, k) \<Rightarrow>
               (case ingest_message C H y m (s\<lparr>in_client := k\<rparr>) of (ev, s) \<Rightarrow> ((False, ev), s))))"

text \<open>The loop over given iterations, with the events it has taken.\<close>

fun consumeTopic ::
    "'k KafkaClient \<Rightarrow> chx \<Rightarrow> string \<Rightarrow> (Selected \<times> bool \<times> ext \<times> ext) list \<Rightarrow> 'k Ingest \<Rightarrow> Event list \<times> 'k Ingest" where
  "consumeTopic C H topic [] s = ([], s)"
| "consumeTopic C H topic ((sel, ended, x, y) # its) s =
     (case ingest_step C H topic sel ended x y s of ((returns, ev), s) \<Rightarrow>
        case (if returns then ([], s) else consumeTopic C H topic its s) of (evs, s) \<Rightarrow>
          (case ev of None \<Rightarrow> evs | Some e \<Rightarrow> e # evs, s))"

definition consumer_topics :: "KafkaConfig \<Rightarrow> string list" where
  "consumer_topics kc = [kc_JobEventsTopic kc, kc_WorkerEventsTopic kc, kc_SchedulerEventsTopic kc]"

definition ingest_init :: "'k \<Rightarrow> EventRow list \<Rightarrow> 'k Ingest" where
  "ingest_init k t = \<lparr>in_buf = [], in_msgs = [], in_client = k, in_table = t\<rparr>"


section \<open>The replay tool\<close>

datatype Target = ToStdout | ToClickHouse | ToOther

text \<open>What a read of the topic returns: a message, or an error, with whether the loop gives up on it.\<close>

datatype Read = ReadMessage rawmsg | ReadFailed bool

record Replay =
  rp_batch :: "Event list"
  rp_count :: int
  rp_table :: "EventRow list"
  rp_printed :: "json list"

text \<open>One message; None is the exit with status 1 after a failed insert.\<close>

definition replay_message :: "chx \<Rightarrow> ext \<Rightarrow> Target \<Rightarrow> rawmsg \<Rightarrow> Replay \<Rightarrow> Replay option" where
  "replay_message H x to v s =
     (case decode_event v of (ok, ev) \<Rightarrow>
        if \<not> ok then Some s
        else let s = s\<lparr>rp_count := rp_count s + 1\<rparr> in
          (case to of
             ToStdout \<Rightarrow> Some (s\<lparr>rp_printed := rp_printed s @ [Event_json ev]\<rparr>)
           | ToClickHouse \<Rightarrow>
               (let s = s\<lparr>rp_batch := rp_batch s @ [ev]\<rparr> in
                if batch_size \<le> length (rp_batch s)
                then case InsertEvents H x (rp_batch s) (rp_table s) of
                       (Some e, t) \<Rightarrow> None
                     | (None, t) \<Rightarrow> Some (s\<lparr>rp_batch := [], rp_table := t\<rparr>)
                else Some s)
           | ToOther \<Rightarrow> Some s))"

fun replay_loop :: "chx \<Rightarrow> Target \<Rightarrow> int \<Rightarrow> (Read \<times> ext) list \<Rightarrow> Replay \<Rightarrow> Replay option" where
  "replay_loop H to mx [] s = Some s"
| "replay_loop H to mx ((r, x) # rs) s =
     (if 0 < mx \<and> mx \<le> rp_count s then Some s
      else case r of
        ReadFailed stop \<Rightarrow> if stop then Some s else replay_loop H to mx rs s
      | ReadMessage v \<Rightarrow>
          (case replay_message H x to v s of
             None \<Rightarrow> None
           | Some s \<Rightarrow> replay_loop H to mx rs s))"

definition replay_main :: "chx \<Rightarrow> Target \<Rightarrow> int \<Rightarrow> (Read \<times> ext) list \<Rightarrow> ext \<Rightarrow> EventRow list \<Rightarrow> Replay option" where
  "replay_main H to mx reads x t =
     (case replay_loop H to mx reads \<lparr>rp_batch = [], rp_count = 0, rp_table = t, rp_printed = []\<rparr> of
        None \<Rightarrow> None
      | Some s \<Rightarrow>
          if to = ToClickHouse \<and> rp_batch s \<noteq> []
          then case InsertEvents H x (rp_batch s) (rp_table s) of
                 (Some e, t) \<Rightarrow> None
               | (None, t) \<Rightarrow> Some (s\<lparr>rp_table := t\<rparr>)
          else Some s)"

text \<open>Whatever topic the outbox publisher chooses for an event, one of the loops reads it.\<close>

lemma topicFor_consumed: "topicFor kc et \<in> set (consumer_topics kc)"
  by (simp add: topicFor_def consumer_topics_def)

section \<open>No event that was taken is dropped\<close>

text \<open>An event is safe in a state of the loop when it waits in the buffer or its row is in the table.\<close>

definition held :: "chx \<Rightarrow> Event \<Rightarrow> 'k Ingest \<Rightarrow> bool" where
  "held H e s \<longleftrightarrow> e \<in> set (in_buf s) \<or> event_key H e \<in> row_key ` set (in_table s)"

lemma batch_rows_key: "stable_event H e \<Longrightarrow> e \<in> set es \<Longrightarrow> event_key H e \<in> row_key ` set (batch_rows H now fresh n es)"
  by (induction es arbitrary: n) (auto simp: row_key_event)

lemma insert_stored:
  assumes "InsertEvents H x es t = (None, t')" "stable_event H e" "e \<in> set es"
  shows "event_key H e \<in> row_key ` set t'"
  unfolding InsertEvents_table(2) [OF assms(1) refl] set_append image_Un using batch_rows_key [OF assms(2,3)] by (rule UnI2)

lemma insert_keeps: "InsertEvents H x es t = (r, t') \<Longrightarrow> set t \<subseteq> set t'"
  using InsertEvents_table(1) by fastforce

lemma held_flush:
  assumes "held H e s" "stable_event H e"
  shows "held H e (snd (ingest_flush C H x s))"
proof (cases "in_buf s = []")
  case False
  obtain r t where i: "InsertEvents H x (in_buf s) (in_table s) = (r, t)" by (metis surj_pair)
  obtain c k where c: "kl_CommitMessages C x (in_msgs s) (in_client s) = (c, k)" by (metis surj_pair)
  have k: "held H e (s\<lparr>in_table := t\<rparr>)" using assms(1) insert_keeps [OF i] by (auto simp: held_def)
  show ?thesis
  proof (cases r)
    case None
    with i have "InsertEvents H x (in_buf s) (in_table s) = (None, t)" by simp
    from insert_stored [OF this assms(2)] k have "event_key H e \<in> row_key ` set t" by (auto simp: held_def)
    with None i c False show ?thesis by (auto simp: ingest_flush_def held_def split: option.split)
  qed (use i c False k in \<open>simp add: ingest_flush_def\<close>)
qed (use assms in \<open>simp add: ingest_flush_def\<close>)

lemma held_client [simp]: "held H e (s\<lparr>in_client := k\<rparr>) = held H e s"
  by (simp add: held_def)

lemma held_message:
  assumes "ingest_message C H x m s = (r, s')" "stable_event H e" "held H e s \<or> r = Some e"
  shows "held H e s'"
proof -
  obtain ok ev where d: "decode_event (jm_Value (fm_Message m)) = (ok, ev)" by (metis surj_pair)
  let ?s = "s\<lparr>in_buf := in_buf s @ [ev], in_msgs := in_msgs s @ [m]\<rparr>"
  show ?thesis
  proof (cases "\<not> ok \<or> ev_EventID ev = ''''")
    case True
    with assms d show ?thesis by (auto simp: ingest_message_def)
  next
    case False
    then have "r = Some ev" "s' = (if batch_size \<le> length (in_buf ?s) then snd (ingest_flush C H x ?s) else ?s)"
      using assms(1) d by (auto simp: ingest_message_def Let_def)
    moreover have "held H e ?s" using assms(3) \<open>r = Some ev\<close> by (auto simp: held_def)
    moreover have "held H e (snd (ingest_flush C H x ?s))" by (rule held_flush [OF calculation(3) assms(2)])
    ultimately show ?thesis by (metis (full_types))
  qed
qed

lemma held_step:
  assumes "ingest_step C H topic sel ended x y s = ((b, r), s')" "stable_event H e" "held H e s \<or> r = Some e"
  shows "held H e s'"
proof (cases sel)
  case CtxDone
  with assms show ?thesis using held_flush [OF _ assms(2)] by (auto simp: ingest_step_def)
next
  case Ticked
  obtain q k where f: "kl_FetchMessage C y topic (in_client (snd (ingest_flush C H x s))) = (q, k)" by (metis surj_pair)
  show ?thesis
  proof (cases q)
    case (Inr m)
    then have "ingest_message C H y m ((snd (ingest_flush C H x s))\<lparr>in_client := k\<rparr>) = (r, s')"
      using assms(1) Ticked f by (auto simp: ingest_step_def split: prod.splits)
    from held_message [OF this assms(2)] assms(3) held_flush [OF _ assms(2)] show ?thesis by auto
  qed (use assms Ticked f held_flush [OF _ assms(2)] in \<open>auto simp: ingest_step_def\<close>)
next
  case Idle
  obtain q k where f: "kl_FetchMessage C y topic (in_client s) = (q, k)" by (metis surj_pair)
  show ?thesis
  proof (cases q)
    case (Inr m)
    then have "ingest_message C H y m (s\<lparr>in_client := k\<rparr>) = (r, s')"
      using assms(1) Idle f by (auto simp: ingest_step_def split: prod.splits)
    from held_message [OF this assms(2)] assms(3) show ?thesis by auto
  qed (use assms Idle f in \<open>auto simp: ingest_step_def\<close>)
qed

lemma held_consumeTopic:
  assumes "consumeTopic C H topic its s = (evs, s')" "stable_event H e" "held H e s \<or> e \<in> set evs"
  shows "held H e s'"
  using assms(1,3)
proof (induction its arbitrary: s evs)
  case (Cons it its)
  obtain sel ended x y where it: "it = (sel, ended, x, y)" by (metis prod_cases4)
  obtain b r s1 where st: "ingest_step C H topic sel ended x y s = ((b, r), s1)" by (metis surj_pair)
  obtain es s2 where k: "(if b then ([], s1) else consumeTopic C H topic its s1) = (es, s2)" by (metis surj_pair)
  have s': "s' = s2" "evs = (case r of None \<Rightarrow> es | Some e \<Rightarrow> e # es)" using Cons.prems(1) it st k by auto
  have "held H e s1 \<or> e \<in> set es"
    using Cons.prems(2) held_step [OF st assms(2)] s'(2) by (auto split: option.splits)
  then show ?case using k Cons.IH [of s1 es] s'(1) by (auto split: if_splits)
qed simp

text \<open>
  C18 (the analytics consumer drops no event): every event the loop of a topic has taken from Kafka is, after any
  number of iterations, in the table or still in the buffer, also when inserts fail, when
  their replies are lost and when commits fail; and a loop that ends after a flush without error has every event
  in the table. (Events with a parseable UUID and a time.)
\<close>

theorem consumeTopic_no_drop:
  assumes "consumeTopic C H topic its (ingest_init k t) = (evs, s)" "e \<in> set evs" "stable_event H e"
  shows "(e \<in> set (in_buf s) \<or> event_key H e \<in> row_key ` set (in_table s)) \<and>
         (fst (ingest_flush C H x s) = None \<longrightarrow> event_key H e \<in> row_key ` set (in_table (snd (ingest_flush C H x s))))"
proof -
  have h: "held H e s" by (rule held_consumeTopic [OF assms(1,3)]) (simp add: assms(2))
  have "in_buf (snd (ingest_flush C H x s)) = []" if "fst (ingest_flush C H x s) = None"
    using that by (auto simp: ingest_flush_def split: if_splits option.splits prod.splits)
  with held_flush [OF h assms(3)] h show ?thesis unfolding held_def by (metis empty_iff empty_set)
qed

definition event_message :: "Event \<Rightarrow> JobMessage" where
  "event_message e = \<lparr>jm_Key = ev_JobID e, jm_Value = Some (Event_json e), jm_Headers = [], jm_Time = 7\<rparr>"

definition poison_message :: JobMessage where
  "poison_message = \<lparr>jm_Key = '''', jm_Value = Some (JStr ''broken''), jm_Headers = [], jm_Time = 7\<rparr>"

definition demo_topic :: Broker where
  "demo_topic = \<lparr>br_log = [event_message (demo_event ''a'' EventJobCompleted (5 * Second)), poison_message],
     br_pos = (\<lambda>_. 0), br_committed = (\<lambda>_. 0)\<rparr>"

definition demo_idle :: "Selected \<times> bool \<times> ext \<times> ext" where
  "demo_idle = (Idle, False, ext0, ext0)"

definition demo_taken :: "Broker Ingest" where
  "demo_taken = snd (consumeTopic one_partition demo_chx ''t'' [demo_idle, demo_idle] (ingest_init demo_topic []))"

theorem consumeTopic_no_drop_witness:
  "fst (ingest_flush one_partition demo_chx ext0 demo_taken) = None \<and>
   event_key demo_chx (demo_event ''a'' EventJobCompleted (5 * Second))
     \<in> row_key ` set (in_table (snd (ingest_flush one_partition demo_chx ext0 demo_taken)))"
proof -
  let ?e = "demo_event ''a'' EventJobCompleted (5 * Second)"
  have r: "consumeTopic one_partition demo_chx ''t'' [demo_idle, demo_idle] (ingest_init demo_topic []) = ([?e], demo_taken)"
    by (rule prod_eqI) (simp_all add: demo_taken_def, code_simp)
  have s: "stable_event demo_chx ?e" "fst (ingest_flush one_partition demo_chx ext0 demo_taken) = None" by code_simp+
  from consumeTopic_no_drop [OF r _ s(1), of ext0] s(2) show ?thesis by simp
qed

text \<open>
  A message that cannot be decoded is acknowledged at once, and with it the events before it that are still only in
  the buffer: if the process ends now, they are lost.
\<close>

lemma poison_acknowledges_buffered:
  "br_committed (in_client demo_taken) 0 = 2" "in_table demo_taken = []"
  "in_buf demo_taken = [demo_event ''a'' EventJobCompleted (5 * Second)]"
  by code_simp+

section \<open>Round trip and replay\<close>

definition wf_event :: "Event \<Rightarrow> bool" where
  "wf_event e \<longleftrightarrow>
     int64 (ev_EventVersion e) \<and> int64 (ev_Attempt e) \<and> EventType_of (EventType_string (ev_EventType e)) = ev_EventType e"

lemma decode_omitempty:
  assumes "map_of fs (ToLower k) = Some f" "b \<Longrightarrow> f v p = (True, p)"
  shows "decode_fields fs (omitempty b k v @ kvs) p =
    (case f v p of (ok, p') \<Rightarrow> (case decode_fields fs kvs p' of (ok', p'') \<Rightarrow> (ok \<and> ok', p'')))"
  using assms by (cases b) (simp_all add: omitempty_def)

lemma decode_event_json:
  assumes "wf_event e"
  shows "decode_event (Some (Event_json e)) = (True, e)"
proof -
  have l: "ToLower ''event_id'' = ''event_id''" "ToLower ''event_type'' = ''event_type''" "ToLower ''event_version'' = ''event_version''"
    "ToLower ''event_time'' = ''event_time''" "ToLower ''ingested_at'' = ''ingested_at''" "ToLower ''job_id'' = ''job_id''"
    "ToLower ''execution_id'' = ''execution_id''" "ToLower ''worker_id'' = ''worker_id''" "ToLower ''scheduler_id'' = ''scheduler_id''"
    "ToLower ''attempt'' = ''attempt''" "ToLower ''trace_id'' = ''trace_id''" "ToLower ''payload'' = ''payload''" by code_simp+
  show ?thesis
    using assms
    by (cases e)
      (simp add: decode_event_def Unmarshal_def Event_json_def Event_fields_def l setter_defs zeroEvent_def
        wf_event_def int64_def decode_omitempty time_ptr_json_def split: option.split)
qed

text \<open>A replay that ends with status 0 has stored every event it read.\<close>

definition replayed :: "chx \<Rightarrow> Event \<Rightarrow> Replay \<Rightarrow> bool" where
  "replayed H e s \<longleftrightarrow> e \<in> set (rp_batch s) \<or> event_key H e \<in> row_key ` set (rp_table s)"

lemma replayed_insert:
  assumes "InsertEvents H x (rp_batch s) (rp_table s) = (None, t)" "replayed H e s" "stable_event H e"
  shows "event_key H e \<in> row_key ` set t"
  using insert_stored [OF assms(1,3)] insert_keeps [OF assms(1)] assms(2) by (auto simp: replayed_def)

lemma replayed_message:
  assumes "replay_message H x ToClickHouse v s = Some s'" "stable_event H e"
    and "replayed H e s \<or> decode_event v = (True, e)"
  shows "replayed H e s'"
proof -
  obtain ok ev where d: "decode_event v = (ok, ev)" by (metis surj_pair)
  show ?thesis
  proof (cases ok)
    case True
    let ?s = "s\<lparr>rp_count := rp_count s + 1, rp_batch := rp_batch s @ [ev]\<rparr>"
    have r: "replayed H e ?s" using assms(3) d by (auto simp: replayed_def)
    obtain q t where i: "InsertEvents H x (rp_batch ?s) (rp_table ?s) = (q, t)" by (metis surj_pair)
    show ?thesis
    proof (cases "batch_size \<le> length (rp_batch ?s)")
      case full: True
      with assms(1) d True i have q: "q = None" "s' = ?s\<lparr>rp_batch := [], rp_table := t\<rparr>"
        by (auto simp: replay_message_def Let_def split: option.splits)
      from replayed_insert [OF i [unfolded q(1)] r assms(2)] q(2) show ?thesis by (simp add: replayed_def)
    next
      case False
      with assms(1) d True r show ?thesis by (simp add: replay_message_def Let_def)
    qed
  qed (use assms d in \<open>auto simp: replay_message_def\<close>)
qed

lemma replayed_loop:
  assumes "replay_loop H ToClickHouse 0 reads s = Some s'" "stable_event H e" "ReadFailed True \<notin> fst ` set reads"
    and "replayed H e s \<or> (\<exists>v x. (ReadMessage v, x) \<in> set reads \<and> decode_event v = (True, e))"
  shows "replayed H e s'"
  using assms(1,3,4)
proof (induction reads arbitrary: s)
  case (Cons rd reads)
  obtain r x where rd: "rd = (r, x)" by (cases rd)
  show ?case
  proof (cases r)
    case (ReadMessage v)
    then obtain s1 where s1: "replay_message H x ToClickHouse v s = Some s1" "replay_loop H ToClickHouse 0 reads s1 = Some s'"
      using Cons.prems(1) rd by (auto split: option.splits)
    have "replayed H e s1 \<or> (\<exists>v x. (ReadMessage v, x) \<in> set reads \<and> decode_event v = (True, e))"
      using Cons.prems(3) replayed_message [OF s1(1) assms(2)] rd ReadMessage by auto
    with Cons.IH [OF s1(2)] Cons.prems(2) show ?thesis by simp
  next
    case (ReadFailed stop)
    with Cons.prems rd Cons.IH [of s] show ?thesis by (cases stop) auto
  qed
qed simp

lemma replay_stores_all:
  assumes "replay_main H ToClickHouse 0 reads x t = Some s" "ReadFailed True \<notin> fst ` set reads"
    and "(ReadMessage v, y) \<in> set reads" "decode_event v = (True, e)" "stable_event H e"
  shows "event_key H e \<in> row_key ` set (rp_table s)"
proof -
  let ?s = "\<lparr>rp_batch = [], rp_count = 0, rp_table = t, rp_printed = []\<rparr>"
  obtain s1 where l: "replay_loop H ToClickHouse 0 reads ?s = Some s1"
    using assms(1) by (auto simp: replay_main_def split: option.splits)
  have r: "replayed H e s1" by (rule replayed_loop [OF l assms(5,2)]) (use assms(3,4) in blast)
  obtain q t' where i: "InsertEvents H x (rp_batch s1) (rp_table s1) = (q, t')" by (metis surj_pair)
  show ?thesis
  proof (cases "rp_batch s1 = []")
    case True
    with assms(1) l r show ?thesis by (simp add: replay_main_def replayed_def)
  next
    case False
    with assms(1) l i have q: "q = None" "s = s1\<lparr>rp_table := t'\<rparr>" by (auto simp: replay_main_def split: option.splits)
    from replayed_insert [OF i [unfolded q(1)] r assms(5)] q(2) show ?thesis by simp
  qed
qed

end
