(* ===== verification/Pipeline.thy ===== *)
theory Pipeline
  imports AnalyticsIngest PgOutbox
begin

text \<open>
  The way of an event from the handler that emits it to the analytics store: \<open>Emit\<close> encodes it into a row of the
  outbox, the outbox publisher writes the row's payload to a topic of Kafka, and the analytics consumer decodes the
  message and inserts the event. The three programs agree on topics and on the encoding.
\<close>

section \<open>The payload column of the outbox\<close>

text \<open>
  The documented behaviour of \<open>jsonb\<close> on nested values: a value that is no array and no object is kept, and of an
  object whose keys are distinct the members are kept in an order of its own, their values converted
  in the same way.
\<close>

definition jsonb_ok :: "pgx \<Rightarrow> bool" where
  "jsonb_ok P \<longleftrightarrow>
     (\<forall>v. json_atom v \<longrightarrow> pg_jsonb P v = v) \<and>
     (\<forall>kvs. distinct (map fst kvs) \<longrightarrow>
        (\<exists>kvs'. pg_jsonb P (JObj kvs) = JObj kvs' \<and> mset kvs' = mset (map (apsnd (pg_jsonb P)) kvs)))"

definition through_jsonb :: "pgx \<Rightarrow> Event \<Rightarrow> Event" where
  "through_jsonb P e = e\<lparr>ev_Payload := map_option (pg_jsonb P) (ev_Payload e)\<rparr>"

lemma separate_Event: "separate Event_fields"
  unfolding Event_fields_def
  by (intro separate_Cons separate_Nil; simp; (intro conjI)?; (rule indep_sets, rule sets_rules, rule sets_rules, simp))

lemma map_omitempty: "map (apsnd f) (omitempty b k v) = omitempty b k (f v)"
  by (simp add: omitempty_def)

lemma Event_json_members:
  assumes "jsonb_ok P"
  obtains kvs kvs' where "Event_json e = JObj kvs" "distinct (map (ToLower \<circ> fst) kvs)"
    "Event_json (through_jsonb P e) = JObj (map (apsnd (pg_jsonb P)) kvs)"
    "pg_jsonb P (Event_json e) = JObj kvs'" "mset kvs' = mset (map (apsnd (pg_jsonb P)) kvs)"
proof -
  obtain kvs where k: "Event_json e = JObj kvs" by (simp add: Event_json_def)
  have l: "ToLower ''event_id'' = ''event_id''" "ToLower ''event_type'' = ''event_type''" "ToLower ''event_version'' = ''event_version''"
    "ToLower ''event_time'' = ''event_time''" "ToLower ''ingested_at'' = ''ingested_at''" "ToLower ''job_id'' = ''job_id''"
    "ToLower ''execution_id'' = ''execution_id''" "ToLower ''worker_id'' = ''worker_id''" "ToLower ''scheduler_id'' = ''scheduler_id''"
    "ToLower ''attempt'' = ''attempt''" "ToLower ''trace_id'' = ''trace_id''" "ToLower ''payload'' = ''payload''" by code_simp+
  have d: "distinct (map (ToLower \<circ> fst) kvs)"
    using k by (auto simp: Event_json_def omitempty_def l split: option.splits)
  have a: "json_atom v \<Longrightarrow> pg_jsonb P v = v" for v using assms by (simp add: jsonb_ok_def)
  have t: "Event_json (through_jsonb P e) = JObj (map (apsnd (pg_jsonb P)) kvs)"
    using k by (auto simp: Event_json_def through_jsonb_def map_omitempty a time_ptr_json_def split: option.splits)
  have "distinct (map fst kvs)" using d by (metis distinct_map map_map)
  then obtain kvs' where "pg_jsonb P (JObj kvs) = JObj kvs'" "mset kvs' = mset (map (apsnd (pg_jsonb P)) kvs)"
    using assms unfolding jsonb_ok_def by blast
  then show thesis using that k d t by simp
qed

text \<open>What the consumer decodes is the event that was stored, its payload as the column holds it.\<close>

lemma decode_outbox_payload:
  assumes "jsonb_ok P" "wf_event e"
  shows "decode_event (Some (pg_jsonb P (Event_json e))) = (True, through_jsonb P e)"
proof -
  obtain kvs kvs' where k: "distinct (map (ToLower \<circ> fst) kvs)"
    "Event_json (through_jsonb P e) = JObj (map (apsnd (pg_jsonb P)) kvs)"
    "pg_jsonb P (Event_json e) = JObj kvs'" "mset kvs' = mset (map (apsnd (pg_jsonb P)) kvs)"
    by (rule Event_json_members [OF assms(1), of e])
  have d: "distinct (map (ToLower \<circ> fst) (map (apsnd (pg_jsonb P)) kvs))" using k(1) by (simp add: comp_def)
  have "wf_event (through_jsonb P e)" using assms(2) by (simp add: wf_event_def through_jsonb_def)
  from decode_event_json [OF this] decode_perm [OF separate_Event k(4) d, of zeroEvent] show ?thesis
    unfolding k(2,3) by (simp add: decode_event_def Unmarshal_def)
qed

section \<open>From the handler to the table\<close>

text \<open>
  C7 (an event reaches the analytics store): when \<open>Emit\<close> has accepted an event into the outbox of the PostgreSQL
  store and the outbox publisher, over any sequence of flushes with Kafka and the database failing in any way,
  has removed it from the rows to publish, then Kafka holds a message on one of the topics the analytics
  consumer reads; whatever state the loop of that topic is in when it fetches a message with this value, it
  decodes it to the event that was emitted, the payload as the \<open>jsonb\<close> column returned it, and takes it;
  and the first flush after that without an error has put it into the table. (For an event whose
  identifier parses as a UUID and whose integers fit 64 bits.)
\<close>

theorem event_reaches_table:
  assumes "jsonb_ok P" "pg_inv d" "wf_event e" "stable_event H e" "ev_EventID e \<noteq> ''''"
    and "e = new_event sid x et jid xid wid attempt payload"
    and "Emit (Some (postgres_store P)) sid x et jid xid wid attempt payload d = (None, d1)"
    and "\<forall>(wr, x)\<in>set ticks. writer_ok wr"
    and "drain kc (postgres_store P) ticks (d1, klog) = (d2, klog')"
    and "ev_EventID e \<notin> or_ID ` set (pg_rows d2)"
  shows "\<exists>m\<in>set klog'. km_Topic m \<in> set (consumer_topics kc) \<and>
    (\<forall>(C :: 'k KafkaClient) y z f s. jm_Value (fm_Message f) = km_Value m \<longrightarrow>
       (case ingest_message C H y f s of (taken, s') \<Rightarrow>
          taken = Some (through_jsonb P e) \<and>
          (fst (ingest_flush C H z s') = None \<longrightarrow>
             event_key H e \<in> row_key ` set (in_table (snd (ingest_flush C H z s'))))))"
proof -
  let ?r = "OutboxRow_of (out_row P e)" let ?m = "message_of kc ?r" let ?e = "through_jsonb P e"
  have "pg_inv d1" using jobs_keptD [OF jobs_kept_ops(4) assms(2)] assms(7) by (simp add: Emit_def)
  then have o: "out_ok (db_outbox d1)" by (rule pg_inv_out)
  from pg_outbox.drain_safe [OF assms(8) distinct_rows [OF o] o assms(9) Emit_row [OF assms(7)]]
  have "?r \<in> set (pg_rows d2) \<or> ?m \<in> set klog'" by (simp add: row_safe_def assms(6))
  moreover have "?r \<notin> set (pg_rows d2)" using assms(10) by (force simp: OutboxRow_of_def out_row_def)
  ultimately have m: "?m \<in> set klog'" by blast
  have v: "km_Value ?m = Some (pg_jsonb P (Event_json e))" by (simp add: message_of_def OutboxRow_of_def out_row_def Let_def)
  have e: "stable_event H ?e" "event_key H ?e = event_key H e" "ev_EventID ?e \<noteq> ''''"
    using assms(4,5) by (simp_all add: stable_event_def event_key_def through_jsonb_def)
  show ?thesis
  proof (intro bexI [OF _ m] conjI allI impI)
    show "km_Topic ?m \<in> set (consumer_topics kc)" by (simp add: message_of_def Let_def topicFor_consumed)
    fix C :: "'k KafkaClient" and y z and f :: Fetched and s
    assume f: "jm_Value (fm_Message f) = km_Value ?m"
    obtain taken s' where i: "ingest_message C H y f s = (taken, s')" by (metis surj_pair)
    have t: "taken = Some ?e"
      using i f decode_outbox_payload [OF assms(1,3)] e(3) by (simp add: ingest_message_def v Let_def)
    have h: "held H ?e s'" by (rule held_message [OF i e(1)]) (simp add: t)
    have "in_buf (snd (ingest_flush C H z s')) = []" if "fst (ingest_flush C H z s') = None"
      using that by (auto simp: ingest_flush_def split: if_splits option.splits prod.splits)
    with held_flush [OF h e(1), of C z]
    show "case ingest_message C H y f s of (taken, s') \<Rightarrow>
        taken = Some ?e \<and> (fst (ingest_flush C H z s') = None \<longrightarrow>
          event_key H e \<in> row_key ` set (in_table (snd (ingest_flush C H z s'))))"
      by (auto simp: i t held_def e(2))
  qed
qed

lemma jsonb_ok_demo: "jsonb_ok demo_pgx"
proof -
  have "map (apsnd (\<lambda>v. v)) kvs = kvs" for kvs :: "(string \<times> json) list" by (induction kvs) auto
  then show ?thesis by (simp add: jsonb_ok_def demo_pgx_def del: mset_map)
qed

theorem event_reaches_table_witness:
  "pg_rows (fst demo_drained) = [] \<and>
   (\<exists>m\<in>set (snd demo_drained). km_Topic m \<in> {''jobs'', ''workers'', ''schedulers''} \<and>
      fst (ingest_message one_partition demo_chx ext0
             \<lparr>fm_Partition = 0, fm_Offset = 0,
              fm_Message = \<lparr>jm_Key = km_Key m, jm_Value = km_Value m, jm_Headers = [], jm_Time = km_Time m\<rparr>\<rparr>
             (ingest_init demo_topic []))
        = Some (through_jsonb demo_pgx (new_event ''s'' ext0 EventJobCreated ''j1'' '''' '''' 0 None)))"
proof -
  let ?e = "new_event ''s'' ext0 EventJobCreated ''j1'' '''' '''' 0 None"
  let ?t = "[(failing_writer, ext0), (appending_writer, ext0)]"
  have e: "Emit (Some (postgres_store demo_pgx)) ''s'' ext0 EventJobCreated ''j1'' '''' '''' 0 None pg_empty = (None, demo_emitted)"
    by (rule prod_eqI) (simp_all add: demo_emitted_def, code_simp)
  have ok: "\<forall>(wr, x)\<in>set ?t. writer_ok wr" by (auto simp: writer_ok_def failing_writer_def appending_writer_def)
  have w: "wf_event ?e" "stable_event demo_chx ?e" "ev_EventID ?e \<noteq> ''''" by code_simp+
  have d: "drain demo_kafka (postgres_store demo_pgx) ?t (demo_emitted, []) = (fst demo_drained, snd demo_drained)"
    by (simp add: demo_drained_def)
  have r: "pg_rows (fst demo_drained) = []" by code_simp
  have "consumer_topics demo_kafka = [''jobs'', ''workers'', ''schedulers'']" by code_simp
  with event_reaches_table [OF jsonb_ok_demo pg_inv_empty w refl e ok d, where 'k = Broker] r show ?thesis
    by (fastforce simp: split_beta)
qed

end
