(* ===== verification/AnalyticsSchema.thy ===== *)
theory AnalyticsSchema
  imports AnalyticsProps
begin

text \<open>
  The schema of the analytics store, \<^verbatim>\<open>internal/analytics/schema.go\<close>: the table of events, the tables of
  statistics with the materialized views that fill them, and \<open>EnsureAdvancedSchema\<close>, which every process
  that connects runs when it starts. A view sees the rows of an insert as they come in and adds the
  rows of its query to its target. The columns that hold states of approximate aggregates
  (\<open>uniqState\<close>, \<open>quantileTDigestState\<close>), indexes, projections, partitions and time-to-live rules have no
  model.
\<close>

section \<open>Views\<close>

text \<open>A row of a table of statistics; a table without one of the columns leaves it empty.\<close>

record StatRow =
  sr_bucket :: time
  sr_worker :: string
  sr_type :: string
  sr_cnt :: int
  sr_duration_sum :: int
  sr_duration_count :: int

definition group_rows :: "(EventRow \<Rightarrow> 'k) \<Rightarrow> (EventRow list \<Rightarrow> 'r) \<Rightarrow> EventRow list \<Rightarrow> 'r list" where
  "group_rows key f rs = map (\<lambda>k. f (filter (\<lambda>r. key r = k) rs)) (remdups (map key rs))"

definition completed_sum :: "EventRow list \<Rightarrow> int" where
  "completed_sum rs = sum_list (map duration_ms (filter (is_type ''JOB_COMPLETED'') rs)) mod 2 ^ 64"

definition Day :: duration where "Day = 24 * 3600 * Second"

definition job_stats_view :: "duration \<Rightarrow> EventRow list \<Rightarrow> StatRow list" where
  "job_stats_view u rs =
     group_rows (\<lambda>r. (toStartOf u (vr_event_time r), vr_event_type r))
       (\<lambda>g. \<lparr>sr_bucket = toStartOf u (vr_event_time (hd g)), sr_worker = '''', sr_type = vr_event_type (hd g),
             sr_cnt = int (length g), sr_duration_sum = completed_sum g, sr_duration_count = count_if timed g\<rparr>) rs"

definition worker_stats_view :: "EventRow list \<Rightarrow> StatRow list" where
  "worker_stats_view rs =
     group_rows (\<lambda>r. (toStartOf Minute (vr_event_time r), vr_worker_id r, vr_event_type r))
       (\<lambda>g. \<lparr>sr_bucket = toStartOf Minute (vr_event_time (hd g)), sr_worker = vr_worker_id (hd g),
             sr_type = vr_event_type (hd g), sr_cnt = int (length g), sr_duration_sum = completed_sum g,
             sr_duration_count = count_if timed g\<rparr>)
       (filter (\<lambda>r. vr_worker_id r \<noteq> '''') rs)"

definition failure_stats_view :: "EventRow list \<Rightarrow> StatRow list" where
  "failure_stats_view rs =
     group_rows (\<lambda>r. (toStartOf Minute (vr_event_time r), vr_event_type r))
       (\<lambda>g. \<lparr>sr_bucket = toStartOf Minute (vr_event_time (hd g)), sr_worker = '''', sr_type = vr_event_type (hd g),
             sr_cnt = int (length g), sr_duration_sum = 0, sr_duration_count = 0\<rparr>)
       (filter (\<lambda>r. vr_event_type r \<in> set [''JOB_FAILED'', ''JOB_TIMEOUT'', ''JOB_CANCELLED'', ''JOB_RETRY_SCHEDULED'']) rs)"

definition daily_stats_view :: "EventRow list \<Rightarrow> StatRow list" where
  "daily_stats_view rs =
     group_rows (\<lambda>r. (toStartOf Day (vr_event_time r), vr_event_type r))
       (\<lambda>g. \<lparr>sr_bucket = toStartOf Day (vr_event_time (hd g)), sr_worker = '''', sr_type = vr_event_type (hd g),
             sr_cnt = int (length g), sr_duration_sum = 0, sr_duration_count = 0\<rparr>) rs"


section \<open>The database\<close>

text \<open>The table of events, if it is there; the tables of statistics; the views, each with its target.\<close>

record ChDb =
  cd_events :: "EventRow list option"
  cd_stats :: "(string, StatRow list) gomap"
  cd_views :: "(string, string) gomap"

definition view_rows :: "string \<Rightarrow> EventRow list \<Rightarrow> StatRow list" where
  "view_rows target rs =
     (if target = ''job_minute_stats'' then job_stats_view Minute rs
      else if target = ''worker_minute_stats'' then worker_stats_view rs
      else if target = ''failure_minute_stats'' then failure_stats_view rs
      else if target = ''job_hourly_stats'' then job_stats_view (3600 * Second) rs
      else daily_stats_view rs)"

definition store_rows :: "EventRow list \<Rightarrow> ChDb \<Rightarrow> ChDb" where
  "store_rows rs d =
     d\<lparr>cd_events := map_option (\<lambda>t. t @ rs) (cd_events d),
       cd_stats := map (\<lambda>(name, t). (name, if name \<in> snd ` set (cd_views d) then t @ view_rows name rs else t)) (cd_stats d)\<rparr>"

datatype Ddl = CreateEvents | CreateStats string | CreateView string string | DropTable string

definition ddl_exec :: "Ddl \<Rightarrow> ChDb \<Rightarrow> ChDb" where
  "ddl_exec q d =
     (case q of
        CreateEvents \<Rightarrow> (case cd_events d of None \<Rightarrow> d\<lparr>cd_events := Some []\<rparr> | Some t \<Rightarrow> d)
      | CreateStats name \<Rightarrow> (case map_of (cd_stats d) name of None \<Rightarrow> d\<lparr>cd_stats := gput name [] (cd_stats d)\<rparr> | Some t \<Rightarrow> d)
      | CreateView name target \<Rightarrow>
          (case map_of (cd_views d) name of None \<Rightarrow> d\<lparr>cd_views := gput name target (cd_views d)\<rparr> | Some t \<Rightarrow> d)
      | DropTable name \<Rightarrow> d\<lparr>cd_stats := gdel name (cd_stats d), cd_views := gdel name (cd_views d)\<rparr>)"

definition stmts :: "Ddl list" where
  "stmts =
     [CreateEvents,
      CreateStats ''job_minute_stats'', CreateView ''job_minute_stats_mv'' ''job_minute_stats'',
      CreateStats ''worker_minute_stats'', CreateView ''worker_minute_stats_mv'' ''worker_minute_stats'',
      CreateStats ''failure_minute_stats'', CreateView ''failure_minute_stats_mv'' ''failure_minute_stats'',
      CreateStats ''job_hourly_stats'', CreateView ''job_hourly_stats_mv'' ''job_hourly_stats'',
      CreateStats ''job_daily_stats'', CreateView ''job_daily_stats_mv'' ''job_daily_stats'']"

definition drops :: "string list" where
  "drops =
     [''job_minute_stats_mv'', ''job_minute_stats'', ''worker_minute_stats_mv'', ''worker_minute_stats'',
      ''failure_minute_stats_mv'', ''failure_minute_stats'', ''job_hourly_stats_mv'', ''job_hourly_stats'',
      ''job_daily_stats_mv'', ''job_daily_stats'']"

text \<open>The drops ignore their errors; the first statement of the list that fails ends the work.\<close>

fun drop_loop :: "(nat \<Rightarrow> DbReply) \<Rightarrow> nat \<Rightarrow> string list \<Rightarrow> ChDb \<Rightarrow> nat \<times> ChDb" where
  "drop_loop rep n [] d = (n, d)"
| "drop_loop rep n (name # names) d =
     drop_loop rep (Suc n) names (case rep n of DbRefused e \<Rightarrow> d | _ \<Rightarrow> ddl_exec (DropTable name) d)"

fun ddl_loop :: "(nat \<Rightarrow> DbReply) \<Rightarrow> nat \<Rightarrow> Ddl list \<Rightarrow> ChDb \<Rightarrow> Error option \<times> ChDb" where
  "ddl_loop rep n [] d = (None, d)"
| "ddl_loop rep n (q # qs) d =
     (case rep n of
        DbOk \<Rightarrow> ddl_loop rep (Suc n) qs (ddl_exec q d)
      | DbRefused e \<Rightarrow> (Some e, d)
      | DbLost e \<Rightarrow> (Some e, ddl_exec q d))"

definition EnsureAdvancedSchema :: "string \<Rightarrow> ext \<Rightarrow> ChDb \<Rightarrow> Error option \<times> ChDb" where
  "EnsureAdvancedSchema db x d =
     (case (if db = '''' then None else case x_db x 0 of DbOk \<Rightarrow> None | DbRefused e \<Rightarrow> Some e | DbLost e \<Rightarrow> Some e) of
        Some e \<Rightarrow> (Some e, d)
      | None \<Rightarrow> (case drop_loop (x_db x) 1 drops d of (n, d) \<Rightarrow> ddl_loop (x_db x) n stmts d))"

definition EnsureSchema :: "string \<Rightarrow> ext \<Rightarrow> ChDb \<Rightarrow> Error option \<times> ChDb" where
  "EnsureSchema db x d = EnsureAdvancedSchema db x d"


section \<open>Lemmas\<close>

lemma drop_loop_ok:
  assumes "\<And>i. rep i = DbOk"
  shows "cd_events (snd (drop_loop rep n names d)) = cd_events d"
    "map_of (cd_stats (snd (drop_loop rep n names d))) name = (if name \<in> set names then None else map_of (cd_stats d) name)"
  using assms by (induction rep n names d rule: drop_loop.induct) (auto simp: ddl_exec_def)

lemma ddl_loop_ok:
  assumes "\<And>i. rep i = DbOk" "\<And>name. DropTable name \<notin> set qs"
  shows "fst (ddl_loop rep n qs d) = None \<and>
    (cd_events d = Some t \<longrightarrow> cd_events (snd (ddl_loop rep n qs d)) = Some t) \<and>
    (map_of (cd_stats d) name = None \<longrightarrow>
       map_of (cd_stats (snd (ddl_loop rep n qs d))) name = (if CreateStats name \<in> set qs then Some [] else None)) \<and>
    (map_of (cd_stats d) name = Some ss \<longrightarrow> map_of (cd_stats (snd (ddl_loop rep n qs d))) name = Some ss)"
  using assms
proof (induction rep n qs d arbitrary: ss rule: ddl_loop.induct)
  case (2 rep n q qs d)
  show ?case
  proof (cases q)
    case (CreateStats i)
    with 2(2,3) 2(1) [OF 2(2)] show ?thesis by (cases "i = name") (auto simp: ddl_exec_def split: option.splits)
  qed (use 2 in \<open>auto simp: ddl_exec_def split: option.splits\<close>)
qed simp

text \<open>
  Starting a process keeps the events and empties the tables of statistics, although the statements that
  create them say \<open>IF NOT EXISTS\<close>: what the views have collected is gone, and they do not collect it again.
\<close>

lemma schema_empties_stats:
  assumes "\<And>i. x_db x i = DbOk" "cd_events d = Some t"
  shows "fst (EnsureAdvancedSchema db x d) = None \<and> cd_events (snd (EnsureAdvancedSchema db x d)) = Some t \<and>
    (CreateStats name \<in> set stmts \<longrightarrow> map_of (cd_stats (snd (EnsureAdvancedSchema db x d))) name = Some [])"
proof -
  obtain n d1 where d: "drop_loop (x_db x) 1 drops d = (n, d1)" by (metis surj_pair)
  have e: "EnsureAdvancedSchema db x d = ddl_loop (x_db x) n stmts d1" using assms(1) d by (simp add: EnsureAdvancedSchema_def)
  have n: "CreateStats name \<in> set stmts \<Longrightarrow> name \<in> set drops" by (auto simp: stmts_def drops_def)
  have q: "DropTable i \<notin> set stmts" for i by (simp add: stmts_def)
  have "cd_events d1 = Some t" "CreateStats name \<in> set stmts \<longrightarrow> map_of (cd_stats d1) name = None"
    using drop_loop_ok [of "x_db x" 1 drops d, OF assms(1)] d assms(2) n by auto
  with ddl_loop_ok [of "x_db x" stmts n d1 t name, OF assms(1) q] show ?thesis unfolding e by auto
qed

end
