(* ===== verification/Spec2Isabelle.thy ===== *)
theory Spec2Isabelle
  imports System MemStoreProps WorkerNode PgProps Production Pipeline AnalyticsSchema
begin

text \<open>
  Chronos, a distributed job scheduler in Go (\<^verbatim>\<open>github.com/ghrushneshr25/chronos-dev\<close>).

  \<^bold>\<open>The program.\<close> Clients submit, read and cancel jobs over HTTP (\<^verbatim>\<open>internal/api\<close>). A job is a row of a
  store (\<^verbatim>\<open>internal/store/memory\<close> or \<^verbatim>\<open>postgres\<close>); when it is due, a message for it goes into a queue
  (\<^verbatim>\<open>internal/queue/memory\<close> or \<^verbatim>\<open>kafka\<close>). The scheduler (\<^verbatim>\<open>internal/scheduler\<close>) consumes the queue, picks a
  worker and pushes the job to it over gRPC; it promotes scheduled jobs, watches timeouts and heartbeats, delivers
  cancellations and takes over the jobs of lost workers. A worker (\<^verbatim>\<open>internal/worker\<close>) runs the job with one of the
  executors (\<^verbatim>\<open>internal/execution\<close>) and reports the result, which the scheduler settles: completion, failure, a
  retry after a delay, or the next occurrence of a recurring job. Every change emits an event into the
  store's outbox (\<^verbatim>\<open>internal/events\<close>); a publisher drains the outbox to Kafka (\<^verbatim>\<open>internal/outbox\<close>), a consumer
  writes the events to ClickHouse (\<^verbatim>\<open>internal/analytics\<close>), and the API answers reports from there.

  \<^bold>\<open>Theories and sources.\<close> Definitions have the names of the source, with a prefix where two components share
  one (\<open>mem_\<close>, \<open>pg_\<close>, \<open>mq_\<close>, \<open>kafka_\<close>, \<open>grpc_\<close>, \<open>api_\<close>, \<open>worker_\<close>, \<open>client_\<close>).

  \<^item> \<open>Prelude\<close>: time, integer widths, Go maps, JSON values, errors, the state monad with its rules.
  \<^item> \<open>Domain\<close>, \<open>Ports\<close>: \<^verbatim>\<open>internal/domain\<close> and the interfaces of \<^verbatim>\<open>internal/ports\<close>. An interface value is a record of
    methods on the state of its implementation.
  \<^item> \<open>Contracts\<close>: what clients rely on, as locales: stores (\<open>job_store\<close> whatever fails, \<open>job_store_total\<close> for a store
    that answers), publishers, queues; the contract of the outbox is in \<open>Events\<close>. \<open>MemStore\<close>, \<open>MemQueue\<close>, \<open>PgStore\<close>, \<open>PgOutbox\<close> and \<open>Events\<close> interpret them.
  \<^item> \<open>MemStore\<close>, \<open>MemStoreProps\<close>: \<^verbatim>\<open>store/memory/store.go\<close>. \<open>MemQueue\<close>: \<^verbatim>\<open>queue/memory/memory.go\<close>.
  \<^item> \<open>Json\<close>, \<open>PgStore\<close>, \<open>PgOutbox\<close>, \<open>PgProps\<close>: \<^verbatim>\<open>store/postgres/store.go\<close> over the tables of \<^verbatim>\<open>migrations/001_init.sql\<close>,
    statement by statement.
  \<^item> \<open>Backoff\<close>: \<open>computeBackoff\<close> over float64. \<open>Events\<close>: \<^verbatim>\<open>events/publisher.go\<close>, \<^verbatim>\<open>outbox/publisher.go\<close>.
  \<^item> \<open>Scheduler\<close>: \<^verbatim>\<open>scheduler/scheduler.go\<close> and \<^verbatim>\<open>workerclient/client.go\<close>; \<open>GrpcServer\<close>: \<^verbatim>\<open>scheduler/grpc_server.go\<close>.
    \<open>SchedulerWp\<close>, \<open>SchedulerResult\<close>, \<open>SchedulerQueue\<close>, \<open>SchedulerWorkers\<close> verify the handlers against the contracts,
    \<open>MemoryService\<close> and \<open>SchedulerProps\<close> read the results off for the in-process store and queue.
  \<^item> \<open>Auth\<close>, \<open>Api\<close>, \<open>ApiWp\<close>, \<open>ApiProps\<close>: \<^verbatim>\<open>auth/apikey.go\<close>, \<^verbatim>\<open>api/server.go\<close>, \<^verbatim>\<open>api/analytics.go\<close>.
  \<^item> \<open>Execution\<close>, \<open>WorkerNode\<close>: \<^verbatim>\<open>internal/execution\<close>, \<^verbatim>\<open>worker/worker.go\<close>.
  \<^item> \<open>ServiceInv\<close>, \<open>System\<close>: the service on the in-process store and queue as one state machine.
  \<^item> \<open>KafkaQueue\<close>, \<open>KafkaProps\<close>: \<^verbatim>\<open>queue/kafka/kafka.go\<close>. \<open>Durations\<close>, \<open>Config\<close>, \<open>Wire\<close>: \<^verbatim>\<open>config/config.go\<close>,
    \<^verbatim>\<open>queue/registry.go\<close>, \<^verbatim>\<open>app/wire.go\<close>.
  \<^item> \<open>Faults\<close>, \<open>Production\<close>: the handlers over a store that fails, and the deployment on PostgreSQL and Kafka.
  \<^item> \<open>Analytics\<close>, \<open>AnalyticsProps\<close>: \<^verbatim>\<open>analytics/query.go\<close>, \<^verbatim>\<open>clickhouse.go\<close>. \<open>AnalyticsSchema\<close>: \<^verbatim>\<open>schema.go\<close>.
    \<open>AnalyticsIngest\<close>: \<^verbatim>\<open>consumer.go\<close> and \<^verbatim>\<open>cmd/event-replay\<close>. \<open>Pipeline\<close>: from \<open>Emit\<close> to the table of events.

  \<^bold>\<open>State and effects.\<close> A handler is a state monad over \<open>World\<close>: the store, the queue, the maps of the scheduler
  service, and a stream of outside values. One \<open>ext\<close> value holds what a call reads from outside: clock
  readings, fresh identifiers, the iteration order of maps, random numbers, replies of workers, and the
  reply of the database to each statement (executed, refused, or executed with the reply lost). Nothing is
  assumed of these values unless a theorem says so. Errors are values; each early return is a branch. A mutex of the source
  makes a method one step; in the state machines a step runs one handler to its end, except for the worker's
  capacity test, whose two halves are separate steps.

  \<^bold>\<open>What is shown.\<close>
  \<^item> \<open>System\<close> and \<open>Production\<close>: in every run, messages in the queue carry the work of jobs in the store, jobs never
    disappear or change what they are, and a finished job is never touched again, with every database
    statement and every message subject to failure.
  \<^item> \<open>SchedulerProps\<close>, \<open>ApiProps\<close>: each handler on every branch, against decision tables: results, retries, recurrence,
    dispatch, promotion, timeouts, lost workers, cancellations, creation and its validation; both guards; and that
    operations do not depend on the analytics backend.
  \<^item> \<open>MemStoreProps\<close>, \<open>MemQueue\<close>, \<open>PgProps\<close>, \<open>KafkaProps\<close>: stores and queues: idempotency keys, listings, conservation and order of
    messages, round trips through columns and messages, what the Kafka consumer acknowledges.
  \<^item> \<open>Backoff\<close>: the delay equals its definition, stays in its bounds, and what happens when it overflows.
  \<^item> \<open>Execution\<close>, \<open>WorkerNode\<close>: every execution ends with a coherent result, reports arrive as made, the capacity holds.
  \<^item> \<open>PgOutbox\<close>, \<open>AnalyticsProps\<close>, \<open>AnalyticsIngest\<close>, \<open>Pipeline\<close>: events are neither lost nor counted twice on their way to the reports.
  \<^item> \<open>Wire\<close>: which credentials a configured process accepts.

  Further lemmas record behaviour that looks unintended, among them \<open>push_failure_stuck\<close>, \<open>stale_report_settles\<close>,
  \<open>createJob_replay_requeues\<close>, \<open>pg_phantom_job\<close>, \<open>kafka_unacked_lost\<close>, \<open>poison_acknowledges_buffered\<close> and \<open>schema_empties_stats\<close>.

  \<^bold>\<open>Bounds and fuel.\<close> Durations and counters wrap at 64 bits where the source computes with them. Floats are exact rationals
  rounded to 53 bits after every operation. Loops that only end with the process (polling, consuming, draining)
  are given by the number or the list of their rounds, for every number and list; all other loops are
  recursive functions that terminate. No theorem depends on fuel being enough.

  \<^bold>\<open>Parameters.\<close> Code outside the repository is an argument: the cron library and time zones (\<open>cronlib\<close>), the column types of
  PostgreSQL (\<open>pgx\<close>) and ClickHouse with its approximate aggregates (\<open>chx\<close>), the Kafka client (\<open>KafkaClient\<close>,
  \<open>writer\<close>), out-of-range float conversions, float parsing and error texts of Go's library (\<open>golib\<close>), HTTP
  outcomes and contexts of executions (\<open>exec_env\<close>).
  What is relied on is a named predicate (\<open>cron_ok\<close>, \<open>pgx_ok\<close>, \<open>jsonb_ok\<close>, \<open>writer_ok\<close>, \<open>reader_ok\<close>, \<open>ext_ok\<close>), shown for a concrete
  instance by the witnesses.

  \<^bold>\<open>Not modelled.\<close> The mains under \<^verbatim>\<open>cmd\<close> other than \<^verbatim>\<open>event-replay\<close>, and with them listeners, signals and shutdown; opening,
  pinging and closing connections; \<open>EnsureTopic\<close>, which only calls the Kafka client; the container library and
  the router with its middleware; generated protobuf code; log output and sleeping; in the analytics schema the
  states of approximate aggregates, indexes, projections, partitions and time-to-live rules; interleavings
  inside a handler other than those stated as lemmas; deployment files and tests.
\<close>

end
